(* ===== verification/Prelude.thy ===== *)
theory Prelude
  imports Complex_Main "HOL-Library.Word" "HOL-Library.Sublist"
begin

text \<open>
  Shared vocabulary of the development: the Python value types the server handles (\<open>bytes\<close>,
  \<open>str\<close>), exceptions as values, the effect type in which every method that mutates state or
  may raise is written, little-endian integer fields, and the generic facts about them.
  The collections \<open>codec\<close> (encode/decode facts), \<open>exec\<close> (running an effect one
  statement further) and \<open>keeps_intros\<close> (effects that respect a relation between the
  state before and after) are what the component theories rewrite and resolve with.
\<close>

named_theorems codec \<open>length, round-trip and range facts of the byte encodings\<close>
named_theorems exec \<open>running an effect one statement further\<close>
named_theorems keeps_intros \<open>effects that respect a relation on states\<close>

section \<open>Values\<close>

type_synonym byte = "8 word"
type_synonym bytes = "byte list"

text \<open>A Python \<open>str\<close> is its list of code points; \<open>lit\<close> turns an ASCII literal into one.\<close>

type_synonym pystr = "nat list"

definition lit :: "string \<Rightarrow> pystr" where
  "lit s = map of_char s"

definition ascii :: "string \<Rightarrow> bytes" where
  "ascii s = map of_char s"

abbreviation len :: "'a list \<Rightarrow> int" where
  "len xs \<equiv> int (length xs)"

definition zeros :: "nat \<Rightarrow> bytes" where
  "zeros n = replicate n 0"

section \<open>Exceptions and effects\<close>

text \<open>
  The exception classes the server's code raises or catches. \<open>UnicodeDecodeError\<close> and
  \<open>BinasciiError\<close> are subclasses of \<open>ValueError\<close>; \<open>IntegrityError\<close> is a subclass of
  \<open>sqlite3.Error\<close>; \<open>ConnectionResetError\<close> and \<open>BrokenPipeError\<close> are the two a
  failed \<open>drain\<close> gives. The next four occur in the reporting scripts only, the last four
  in the load test client: \<open>LoadError\<close> is a \<open>RuntimeError\<close> with the text it was raised with.
  \<open>Suspended\<close> is no exception: it stands for an \<open>await\<close> of such a client that does not come
  back (it never completes, or the task is cancelled there), which no \<open>except Exception\<close> sees.
\<close>

datatype exn =
    ValueError | UnicodeDecodeError | BinasciiError | OverflowError | TypeError
  | AttributeError | RuntimeError | ZeroDivisionError | OSError
  | SqliteError | IntegrityError
  | ConnectionResetError | BrokenPipeError
  | KeyError | IndexError | ImportError | FileNotFoundError
  | TimeoutError | IncompleteReadError | LoadError pystr | Suspended

definition is_ValueError :: "exn \<Rightarrow> bool" where
  "is_ValueError e \<longleftrightarrow> e \<in> {ValueError, UnicodeDecodeError, BinasciiError}"

definition is_sqlite_Error :: "exn \<Rightarrow> bool" where
  "is_sqlite_Error e \<longleftrightarrow> e \<in> {SqliteError, IntegrityError}"

definition is_connection_lost :: "exn \<Rightarrow> bool" where
  "is_connection_lost e \<longleftrightarrow> e \<in> {ConnectionResetError, BrokenPipeError}"

datatype 'a res = Ok 'a | Raise exn

fun is_Ok :: "'a res \<Rightarrow> bool" where
  "is_Ok (Ok _) = True"
| "is_Ok (Raise _) = False"

definition res_bnd :: "'a res \<Rightarrow> ('a \<Rightarrow> 'b res) \<Rightarrow> 'b res" where
  "res_bnd r k = (case r of Ok x \<Rightarrow> k x | Raise e \<Rightarrow> Raise e)"

lemma res_bnd_simps [simp]: "res_bnd (Ok x) k = k x" "res_bnd (Raise e) k' = Raise e"
  by (simp_all add: res_bnd_def)

lemma res_bnd_Ok: "res_bnd r k = Ok y \<longleftrightarrow> (\<exists>x. r = Ok x \<and> k x = Ok y)"
  by (cases r) simp_all

text \<open>
  An effect runs in a state and gives a value or an exception together with the state it
  leaves: what a method mutated before it raised stays mutated.
\<close>

type_synonym ('s, 'a) eff = "'s \<Rightarrow> 'a res \<times> 's"

definition ret :: "'a \<Rightarrow> ('s, 'a) eff" where
  "ret x = (\<lambda>s. (Ok x, s))"

definition throw :: "exn \<Rightarrow> ('s, 'a) eff" where
  "throw e = (\<lambda>s. (Raise e, s))"

definition lift_res :: "'a res \<Rightarrow> ('s, 'a) eff" where
  "lift_res r = (\<lambda>s. (r, s))"

definition bnd :: "('s, 'a) eff \<Rightarrow> ('a \<Rightarrow> ('s, 'b) eff) \<Rightarrow> ('s, 'b) eff" where
  "bnd m k = (\<lambda>s. case m s of (Ok x, s') \<Rightarrow> k x s' | (Raise e, s') \<Rightarrow> (Raise e, s'))"

text \<open>Read the state (attribute reads), and an assignment to attributes.\<close>

definition rd :: "('s \<Rightarrow> ('s, 'a) eff) \<Rightarrow> ('s, 'a) eff" where
  "rd f = (\<lambda>s. f s s)"

definition upd :: "('s \<Rightarrow> 's) \<Rightarrow> ('s, unit) eff" where
  "upd f = (\<lambda>s. (Ok (), f s))"

text \<open>A statement list: run in order, the first exception leaves it.\<close>

fun block :: "('s, unit) eff list \<Rightarrow> ('s, unit) eff" where
  "block [] = ret ()"
| "block (m # ms) = bnd m (\<lambda>_. block ms)"

text \<open>\<open>try m except E: h\<close>, with \<open>catches\<close> saying which exceptions the clause names.\<close>

definition try_except :: "('s, 'a) eff \<Rightarrow> (exn \<Rightarrow> bool) \<Rightarrow> (exn \<Rightarrow> ('s, 'a) eff) \<Rightarrow> ('s, 'a) eff" where
  "try_except m catches h = (\<lambda>s. case m s of
      (Ok x, s') \<Rightarrow> (Ok x, s')
    | (Raise e, s') \<Rightarrow> (if catches e then h e s' else (Raise e, s')))"

text \<open>\<open>try m finally f\<close>: \<open>f\<close> runs on both exits; an exception of its own replaces the outcome.\<close>

definition try_finally :: "('s, 'a) eff \<Rightarrow> ('s, unit) eff \<Rightarrow> ('s, 'a) eff" where
  "try_finally m f = (\<lambda>s. case m s of (r, s') \<Rightarrow>
     (case f s' of (Ok _, s'') \<Rightarrow> (r, s'') | (Raise e, s'') \<Rightarrow> (Raise e, s'')))"

abbreviation any_exn :: "exn \<Rightarrow> bool" where
  "any_exn \<equiv> (\<lambda>_. True)"

lemma ret_apply [simp, exec]: "ret x s = (Ok x, s)"
  by (simp add: ret_def)

lemma throw_apply [simp, exec]: "throw e s = (Raise e, s)"
  by (simp add: throw_def)

lemma lift_res_apply [simp, exec]: "lift_res r s = (r, s)"
  by (simp add: lift_res_def)

lemma rd_apply [simp, exec]: "rd f s = f s s"
  by (simp add: rd_def)

lemma upd_apply [simp, exec]: "upd f s = (Ok (), f s)"
  by (simp add: upd_def)

lemma bnd_Ok [exec]: "m s = (Ok x, s') \<Longrightarrow> bnd m k s = k x s'"
  by (simp add: bnd_def)

lemma bnd_Raise [exec]: "m s = (Raise e, s') \<Longrightarrow> bnd m k s = (Raise e, s')"
  by (simp add: bnd_def)

lemma bnd_simps [simp]:
  "bnd (Pair (Ok x)) k = k x"
  "bnd (Pair (Raise e)) k' = Pair (Raise e)"
  "bnd (upd f) j s = j () (f s)"
  "bnd (rd g) l s = bnd (g s) l s"
  by (auto simp: bnd_def fun_eq_iff)

lemma bnd_lift_res [simp]:
  "bnd (Pair r) k s = (case r of Ok x \<Rightarrow> k x s | Raise e \<Rightarrow> (Raise e, s))"
  by (cases r) simp_all

lemma bnd_basic [simp]:
  "bnd (ret x) k s = k x s"
  "bnd (throw e) l s = (Raise e, s)"
  "bnd (lift_res r) j s = (case r of Ok x \<Rightarrow> j x s | Raise e \<Rightarrow> (Raise e, s))"
  by (simp_all add: bnd_def split: res.split)

lemma bnd_ret [simp]: "bnd m ret = m" "bnd n (\<lambda>_. ret ()) = n" "bnd (ret x) k = k x"
  by (auto simp: bnd_def fun_eq_iff split: prod.split res.split)

lemma bnd_if: "bnd (if c then m else n) k = (if c then bnd m k else bnd n k)"
  by simp

lemma bnd_assoc: "bnd (bnd m f) g = bnd m (\<lambda>x. bnd (f x) g)"
  by (rule ext) (auto simp: bnd_def split: prod.splits res.splits)

lemma bnd_cases:
  assumes "bnd m k s = (r, t)"
  obtains (ok) x s' where "m s = (Ok x, s')" and "k x s' = (r, t)"
    | (raise) e where "m s = (Raise e, t)" and "r = Raise e"
  using assms by (cases "m s") (auto simp: bnd_def split: res.splits)

lemma block_append: "block (xs @ ys) = bnd (block xs) (\<lambda>_. block ys)"
  by (induction xs) (simp_all add: bnd_assoc)

subsection \<open>Relations every step of an effect respects\<close>

text \<open>\<open>keeps R m\<close>: whatever \<open>m\<close> returns or raises, its end state is \<open>R\<close>-related to its start.\<close>

definition keeps :: "('s \<Rightarrow> 's \<Rightarrow> bool) \<Rightarrow> ('s, 'a) eff \<Rightarrow> bool" where
  "keeps R m \<longleftrightarrow> (\<forall>s. R s (snd (m s)))"

lemma keepsD: "keeps R m \<Longrightarrow> m s = (r, t) \<Longrightarrow> R s t"
  unfolding keeps_def by (metis snd_conv)

lemma keepsI: "(\<And>s r t. m s = (r, t) \<Longrightarrow> R s t) \<Longrightarrow> keeps R m"
  unfolding keeps_def by (metis prod.collapse)

text \<open>
  The interface a change-relation offers: closed under doing nothing and under doing one
  thing after the other. Every statement form then respects it when its parts do.
\<close>

locale change_rel =
  fixes R :: "'s \<Rightarrow> 's \<Rightarrow> bool"
  assumes R_refl: "R s s"
    and R_trans: "R s t \<Longrightarrow> R t u \<Longrightarrow> R s u"
begin

lemma keeps_ret: "keeps R (ret x)"
  by (simp add: keeps_def R_refl)

lemma keeps_throw: "keeps R (throw e)"
  by (simp add: keeps_def R_refl)

lemma keeps_lift_res: "keeps R (lift_res r)"
  by (simp add: keeps_def R_refl)

lemma keeps_upd: "(\<And>s. R s (f s)) \<Longrightarrow> keeps R (upd f)"
  by (simp add: keeps_def)

lemma keeps_rd: "(\<And>s. keeps R (f s)) \<Longrightarrow> keeps R (rd f)"
  by (simp add: keeps_def)

text \<open>One after the other; what follows may rely on what was computed.\<close>

lemma keeps_bnd_val:
  assumes "keeps R m" and "\<And>x s t. m s = (Ok x, t) \<Longrightarrow> keeps R (k x)"
  shows "keeps R (bnd m k)"
proof (rule keepsI)
  fix s r t assume "bnd m k s = (r, t)"
  then show "R s t"
  proof (cases rule: bnd_cases)
    case (ok x u)
    show ?thesis by (rule R_trans [OF keepsD [OF assms(1) ok(1)] keepsD [OF assms(2) [OF ok(1)] ok(2)]])
  qed (use assms(1) in \<open>auto dest: keepsD\<close>)
qed

lemma keeps_bnd: "keeps R m \<Longrightarrow> (\<And>x. keeps R (k x)) \<Longrightarrow> keeps R (bnd m k)"
  by (rule keeps_bnd_val)

lemma keeps_bnd_lift:
  "(\<And>x. r = Ok x \<Longrightarrow> keeps R (k x)) \<Longrightarrow> keeps R (bnd (lift_res r) k)"
  by (cases r) (simp_all add: keeps_def lift_res_def bnd_def R_refl)

lemma keeps_case_option:
  "(x = None \<Longrightarrow> keeps R m) \<Longrightarrow> (\<And>y. x = Some y \<Longrightarrow> keeps R (k y)) \<Longrightarrow>
    keeps R (case x of None \<Rightarrow> m | Some y \<Rightarrow> k y)"
  by (cases x) simp_all

lemma keeps_case_res:
  "(\<And>y. x = Ok y \<Longrightarrow> keeps R (k y)) \<Longrightarrow> (\<And>e. x = Raise e \<Longrightarrow> keeps R (h e)) \<Longrightarrow>
    keeps R (case x of Ok y \<Rightarrow> k y | Raise e \<Rightarrow> h e)"
  by (cases x) simp_all

lemma keeps_case_list:
  "(x = [] \<Longrightarrow> keeps R m) \<Longrightarrow> (\<And>y ys. x = y # ys \<Longrightarrow> keeps R (k y ys)) \<Longrightarrow>
    keeps R (case x of [] \<Rightarrow> m | y # ys \<Rightarrow> k y ys)"
  by (cases x) simp_all

lemma keeps_case_prod:
  "(\<And>a b. p = (a, b) \<Longrightarrow> keeps R (k a b)) \<Longrightarrow> keeps R (case p of (a, b) \<Rightarrow> k a b)"
  by (cases p) simp_all

lemma keeps_block: "(\<And>m. m \<in> set ms \<Longrightarrow> keeps R m) \<Longrightarrow> keeps R (block ms)"
  by (induction ms) (auto intro: keeps_bnd keeps_ret)

lemma keeps_if: "(c \<Longrightarrow> keeps R m) \<Longrightarrow> (\<not> c \<Longrightarrow> keeps R n) \<Longrightarrow> keeps R (if c then m else n)"
  by simp

lemma keeps_try_except:
  assumes "keeps R m" and "\<And>e. keeps R (h e)"
  shows "keeps R (try_except m c h)"
proof (rule keepsI)
  fix s r t assume a: "try_except m c h s = (r, t)"
  obtain r1 s1 where m: "m s = (r1, s1)" by fastforce
  have "R s s1" using assms(1) m by (rule keepsD)
  moreover have "R s1 t" using a m assms(2)
    by (auto simp: try_except_def R_refl dest: keepsD split: res.splits if_splits)
  ultimately show "R s t" by (rule R_trans)
qed

lemma keeps_try_finally:
  assumes "keeps R m" and "keeps R f"
  shows "keeps R (try_finally m f)"
proof (rule keepsI)
  fix s r t assume a: "try_finally m f s = (r, t)"
  obtain r1 s1 where m: "m s = (r1, s1)" by fastforce
  have "R s s1" using assms(1) m by (rule keepsD)
  moreover have "R s1 t" using a m assms(2)
    by (auto simp: try_finally_def dest: keepsD split: res.splits prod.splits)
  ultimately show "R s t" by (rule R_trans)
qed

lemmas keeps_rules = keeps_ret keeps_throw keeps_lift_res keeps_rd keeps_bnd_lift keeps_bnd keeps_if
  keeps_try_except keeps_try_finally keeps_case_option keeps_case_res keeps_case_list
  keeps_case_prod

end

section \<open>Little-endian integer fields\<close>

text \<open>\<open>int.from_bytes(b, "little")\<close> and \<open>v.to_bytes(n, "little")\<close>.\<close>

fun le_decode :: "bytes \<Rightarrow> int" where
  "le_decode [] = 0"
| "le_decode (b # bs) = uint b + 256 * le_decode bs"

fun le_encode :: "nat \<Rightarrow> int \<Rightarrow> bytes" where
  "le_encode 0 v = []"
| "le_encode (Suc n) v = word_of_int v # le_encode n (v div 256)"

definition to_bytes :: "nat \<Rightarrow> int \<Rightarrow> bytes res" where
  "to_bytes n v = (if 0 \<le> v \<and> v < 256 ^ n then Ok (le_encode n v) else Raise OverflowError)"

lemma length_le_encode [simp, codec]: "length (le_encode n v) = n"
  by (induction n arbitrary: v) auto

lemma le_encode_fields:
  "le_encode 1 v = [word_of_int v]"
  "le_encode 2 v = [word_of_int v, word_of_int (v div 256)]"
  "le_encode 4 v = [word_of_int v, word_of_int (v div 256), word_of_int (v div 256 div 256),
     word_of_int (v div 256 div 256 div 256)]"
  by (simp_all add: eval_nat_numeral del: div_mult2_eq)

lemma uint_byte_range [codec]: "0 \<le> uint (b :: byte)" "uint (b :: byte) < 256"
  using uint_lt2p [of b] by simp_all

lemma le_decode_nonneg [simp, codec]: "0 \<le> le_decode bs"
  by (induction bs) auto

lemma le_decode_less [codec]: "le_decode bs < 256 ^ length bs"
proof (induction bs)
  case (Cons b bs)
  have "uint b < 256" by (rule uint_byte_range)
  with Cons show ?case by simp
qed simp

lemma le_decode_append [codec]:
  "le_decode (a @ b) = le_decode a + 256 ^ length a * le_decode b"
  by (induction a) (simp_all add: algebra_simps)

lemma uint_word_of_int_byte: "uint (word_of_int v :: byte) = v mod 256"
  by (simp add: uint_word_of_int)

lemma zdiv_less_helper: "(v :: int) < 256 * m \<Longrightarrow> v div 256 < m"
  by linarith

lemma le_decode_encode [codec]: "0 \<le> v \<Longrightarrow> v < 256 ^ n \<Longrightarrow> le_decode (le_encode n v) = v"
proof (induction n arbitrary: v)
  case (Suc n)
  from Suc.prems have "v div 256 < 256 ^ n"
    by (auto simp: zdiv_less_helper mult.commute)
  with Suc show ?case
    by (simp add: uint_word_of_int_byte pos_imp_zdiv_nonneg_iff)
qed simp

lemma le_encode_decode [codec]: "le_encode (length bs) (le_decode bs) = bs"
proof (induction bs)
  case (Cons b bs)
  have "(uint b + 256 * le_decode bs) div 256 = le_decode bs"
    using uint_byte_range [of b] by (simp add: div_add1_eq)
  moreover have "(word_of_int (uint b + 256 * le_decode bs) :: byte) = b"
  proof -
    have "(256 :: byte) = 0" by simp
    then show ?thesis
      by (simp only: of_int_add of_int_mult of_int_numeral word_of_int_uint mult_zero_left
          add_0_right)
  qed
  ultimately show ?case using Cons by simp
qed simp

lemma le_encode_inject:
  "0 \<le> v \<Longrightarrow> v < 256 ^ n \<Longrightarrow> 0 \<le> v' \<Longrightarrow> v' < 256 ^ n \<Longrightarrow> le_encode n v = le_encode n v' \<longleftrightarrow> v = v'"
  by (metis le_decode_encode)

lemma to_bytes_Ok: "to_bytes n v = Ok b \<longleftrightarrow> 0 \<le> v \<and> v < 256 ^ n \<and> b = le_encode n v"
  by (auto simp: to_bytes_def)

section \<open>Generic list facts\<close>

lemma take_append_exact [simp]: "length a = n \<Longrightarrow> take n (a @ b) = a"
  by simp

lemma drop_append_exact [simp]: "length a = n \<Longrightarrow> drop n (a @ b) = b"
  by simp

lemma length_lit [simp]: "length (lit s) = length s"
  by (simp add: lit_def)

lemma length_ascii [simp]: "length (ascii s) = length s"
  by (simp add: ascii_def)

lemma length_zeros [simp]: "length (zeros n) = n"
  by (simp add: zeros_def)

lemma option_eq_by_Some: "(\<And>x. a = Some x \<longleftrightarrow> b = Some x) \<Longrightarrow> a = b"
  by (cases a; cases b) auto

lemma append_eq_same_length:
  "length a = length c \<Longrightarrow> a @ b = c @ d \<longleftrightarrow> a = c \<and> b = d"
  by simp

end
