(* ===== verification/Text_Codec.thy ===== *)
theory Text_Codec
  imports Prelude
begin

text \<open>
  The text functions of the Python language that the server calls: strict UTF-8 coding
  (\<open>bytes.decode\<close>, \<open>str.encode\<close>), the strip family, \<open>bytes.find\<close>, \<open>bytes.hex\<close> and
  \<open>bytes.fromhex\<close>, and Base64 as \<open>base64.b64encode\<close> and \<open>base64.b64decode\<close> of Python 3.11
  (the version of \<open>server/Dockerfile\<close>) compute it. Each comes with its round trip.
\<close>

section \<open>UTF-8\<close>

definition is_surrogate :: "nat \<Rightarrow> bool" where
  "is_surrogate c \<longleftrightarrow> 55296 \<le> c \<and> c < 57344"

definition valid_cp :: "nat \<Rightarrow> bool" where
  "valid_cp c \<longleftrightarrow> c < 1114112 \<and> \<not> is_surrogate c"

definition cont_byte :: "nat \<Rightarrow> byte" where
  "cont_byte v = word_of_nat (128 + v mod 64)"

definition utf8_cp :: "nat \<Rightarrow> bytes" where
  "utf8_cp c =
     (if c < 128 then [word_of_nat c]
      else if c < 2048 then [word_of_nat (192 + c div 64), cont_byte c]
      else if c < 65536 then [word_of_nat (224 + c div 4096), cont_byte (c div 64), cont_byte c]
      else [word_of_nat (240 + c div 262144), cont_byte (c div 4096), cont_byte (c div 64), cont_byte c])"

definition utf8_bytes :: "pystr \<Rightarrow> bytes" where
  "utf8_bytes s = concat (map utf8_cp s)"

text \<open>\<open>s.encode("utf-8")\<close>: only a lone surrogate has no encoding.\<close>

definition utf8_encode :: "pystr \<Rightarrow> bytes res" where
  "utf8_encode s = (if list_all valid_cp s then Ok (utf8_bytes s) else Raise ValueError)"

definition is_cont :: "byte \<Rightarrow> bool" where
  "is_cont b \<longleftrightarrow> 128 \<le> unat b \<and> unat b < 192"

fun utf8_decode :: "bytes \<Rightarrow> pystr option" where
  "utf8_decode [] = Some []"
| "utf8_decode (a # as) =
     (let x = unat a in
      if x < 128 then map_option (Cons x) (utf8_decode as)
      else if 194 \<le> x \<and> x < 224 then
        (case as of b # bs \<Rightarrow>
            if is_cont b then map_option (Cons ((x - 192) * 64 + (unat b - 128))) (utf8_decode bs) else None
          | _ \<Rightarrow> None)
      else if 224 \<le> x \<and> x < 240 then
        (case as of b # c # cs \<Rightarrow>
            let v = (x - 224) * 4096 + (unat b - 128) * 64 + (unat c - 128) in
            if is_cont b \<and> is_cont c \<and> 2048 \<le> v \<and> \<not> is_surrogate v
            then map_option (Cons v) (utf8_decode cs) else None
          | _ \<Rightarrow> None)
      else if 240 \<le> x \<and> x < 245 then
        (case as of b # c # d # ds \<Rightarrow>
            let v = (x - 240) * 262144 + (unat b - 128) * 4096 + (unat c - 128) * 64 + (unat d - 128) in
            if is_cont b \<and> is_cont c \<and> is_cont d \<and> 65536 \<le> v \<and> v < 1114112
            then map_option (Cons v) (utf8_decode ds) else None
          | _ \<Rightarrow> None)
      else None)"

lemma unat_byte_less: "unat (b :: byte) < 256"
  using unsigned_less [of b] by simp

lemma unat_word_of_nat_byte [simp]: "v < 256 \<Longrightarrow> unat (word_of_nat v :: byte) = v"
  by (simp add: unat_of_nat)

lemma word_of_nat_unat_byte [simp]: "word_of_nat (unat (b :: byte)) = b"
  by simp

lemma unat_cont_byte [simp]: "unat (cont_byte v) = 128 + v mod 64"
proof -
  have "v mod 64 < 64" by simp
  then have "128 + v mod 64 < 256" by linarith
  then show ?thesis unfolding cont_byte_def by (rule unat_word_of_nat_byte)
qed

lemma is_cont_cont_byte [simp]: "is_cont (cont_byte v)"
proof -
  have "v mod 64 < 64" by simp
  then show ?thesis by (simp add: is_cont_def)
qed

lemma div_4096: "c div 4096 = c div 64 div (64 :: nat)"
  using div_mult2_eq [of c 64 64] by simp

lemma div_262144: "c div 262144 = c div 64 div 64 div (64 :: nat)"
  using div_mult2_eq [of c 4096 64] by (simp add: div_4096)

lemma digits64_2: "c div 64 * 64 + c mod 64 = (c :: nat)"
  by simp

lemma digits64_3: "c div 4096 * 4096 + (c div 64 mod 64) * 64 + c mod 64 = (c :: nat)"
  using digits64_2 [of c] digits64_2 [of "c div 64"] unfolding div_4096 by linarith

lemma digits64_4:
  "c div 262144 * 262144 + (c div 4096 mod 64) * 4096 + (c div 64 mod 64) * 64 + c mod 64 = (c :: nat)"
  using digits64_3 [of c] digits64_2 [of "c div 64 div 64"] unfolding div_4096 div_262144 by linarith

lemma pair64: "(r :: nat) < 64 \<Longrightarrow> (x * 64 + r) div 64 = x \<and> (x * 64 + r) mod 64 = r"
  by simp

lemma utf8_decode_cp:
  assumes "valid_cp c"
  shows "utf8_decode (utf8_cp c @ bs) = map_option (Cons c) (utf8_decode bs)"
proof -
  consider "c < 128" | "128 \<le> c" "c < 2048" | "2048 \<le> c" "c < 65536" | "65536 \<le> c" by linarith
  then show ?thesis
  proof cases
    case 1
    then show ?thesis by (simp add: utf8_cp_def)
  next
    case 2
    then have d: "2 \<le> c div 64" "c div 64 < 32" by (auto simp: less_mult_imp_div_less)
    then have "unat (word_of_nat (192 + c div 64) :: byte) = 192 + c div 64"
      by (intro unat_word_of_nat_byte) simp
    with 2 d show ?thesis by (simp add: utf8_cp_def digits64_2)
  next
    case 3
    then have d: "c div 4096 < 16" by (auto simp: less_mult_imp_div_less)
    then have "unat (word_of_nat (224 + c div 4096) :: byte) = 224 + c div 4096"
      by (intro unat_word_of_nat_byte) simp
    with 3 d assms show ?thesis by (simp add: utf8_cp_def digits64_3 valid_cp_def)
  next
    case 4
    then have d: "c div 262144 < 5" using assms by (auto simp: less_mult_imp_div_less valid_cp_def)
    then have "unat (word_of_nat (240 + c div 262144) :: byte) = 240 + c div 262144"
      by (intro unat_word_of_nat_byte) simp
    with 4 d assms show ?thesis by (simp add: utf8_cp_def digits64_4 valid_cp_def)
  qed
qed

text \<open>What is encoded decodes to itself, and a decoded text encodes to the bytes it came from.\<close>

lemma utf8_decode_encode [codec]: "list_all valid_cp s \<Longrightarrow> utf8_decode (utf8_bytes s) = Some s"
  by (induction s) (simp_all add: utf8_bytes_def utf8_decode_cp)

lemma byte_offset:
  assumes "n \<le> unat (b :: byte)" and "unat b < n + k"
  obtains p where "p < k" and "unat b = n + p" and "b = word_of_nat (n + p)"
proof -
  have "unat b = n + (unat b - n)" "unat b - n < k" using assms by simp_all
  then show thesis using that by (metis word_of_nat_unat_byte)
qed

lemma is_cont_offset:
  assumes "is_cont b"
  obtains q where "q < 64" and "unat b = 128 + q" and "b = word_of_nat (128 + q)"
proof -
  have "128 \<le> unat b" "unat b < 128 + 64" using assms by (simp_all add: is_cont_def)
  then show thesis using that byte_offset by blast
qed

lemma utf8_2:
  assumes "is_cont b" and "194 \<le> unat a" and "unat a < 224"
    and v: "v = (unat a - 192) * 64 + (unat b - 128)"
  shows "utf8_cp v = [a, b] \<and> valid_cp v"
proof -
  obtain q where q: "q < 64" "unat b = 128 + q" "b = word_of_nat (128 + q)"
    using assms(1) by (rule is_cont_offset)
  obtain p where p: "p < 30" "unat a = 194 + p" "a = word_of_nat (194 + p)"
    using byte_offset [of 194 a 30] assms by auto
  have "v = (p + 2) * 64 + q" using p q v by simp
  then have "v < 2048" "128 \<le> v" "v div 64 = p + 2" "v mod 64 = q"
    using p(1) q(1) pair64 [of q "p + 2"] by simp_all
  with p q show ?thesis by (simp add: utf8_cp_def cont_byte_def valid_cp_def is_surrogate_def)
qed

lemma utf8_3:
  assumes "is_cont b" and "is_cont c" and "224 \<le> unat a" and "unat a < 240"
    and v: "v = (unat a - 224) * 4096 + (unat b - 128) * 64 + (unat c - 128)"
    and "2048 \<le> v" and "\<not> is_surrogate v"
  shows "utf8_cp v = [a, b, c] \<and> valid_cp v"
proof -
  obtain q where q: "q < 64" "unat b = 128 + q" "b = word_of_nat (128 + q)"
    using assms(1) by (rule is_cont_offset)
  obtain r where r: "r < 64" "unat c = 128 + r" "c = word_of_nat (128 + r)"
    using assms(2) by (rule is_cont_offset)
  obtain p where p: "p < 16" "unat a = 224 + p" "a = word_of_nat (224 + p)"
    using byte_offset [of 224 a 16] assms by auto
  have v': "v = p * 4096 + q * 64 + r" using p q r v by simp
  have "v = (p * 64 + q) * 64 + r" using v' by simp
  then have "v div 64 = p * 64 + q" "v mod 64 = r" using pair64 [OF r(1)] by blast+
  moreover have "v div 4096 = p" "v div 64 mod 64 = q"
    using calculation pair64 [OF q(1), of p] by (simp_all only: div_4096)
  moreover have "v < 65536" using v' p(1) q(1) r(1) by linarith
  ultimately have "v div 4096 = p" "v div 64 mod 64 = q" "v mod 64 = r" "v < 65536" by blast+
  with p q r assms(6,7) show ?thesis by (simp add: utf8_cp_def cont_byte_def valid_cp_def)
qed

lemma utf8_4:
  assumes "is_cont b" and "is_cont c" and "is_cont d" and "240 \<le> unat a" and "unat a < 245"
    and v: "v = (unat a - 240) * 262144 + (unat b - 128) * 4096 + (unat c - 128) * 64 + (unat d - 128)"
    and "65536 \<le> v" and "v < 1114112"
  shows "utf8_cp v = [a, b, c, d] \<and> valid_cp v"
proof -
  obtain q where q: "q < 64" "unat b = 128 + q" "b = word_of_nat (128 + q)"
    using assms(1) by (rule is_cont_offset)
  obtain r where r: "r < 64" "unat c = 128 + r" "c = word_of_nat (128 + r)"
    using assms(2) by (rule is_cont_offset)
  obtain t where t: "t < 64" "unat d = 128 + t" "d = word_of_nat (128 + t)"
    using assms(3) by (rule is_cont_offset)
  obtain p where p: "p < 5" "unat a = 240 + p" "a = word_of_nat (240 + p)"
    using byte_offset [of 240 a 5] assms by auto
  have v': "v = p * 262144 + q * 4096 + r * 64 + t" using p q r t v by simp
  have "v = ((p * 64 + q) * 64 + r) * 64 + t" using v' by simp
  then have "v div 64 = (p * 64 + q) * 64 + r" "v mod 64 = t" using pair64 [OF t(1)] by blast+
  moreover from this have "v div 64 div 64 = p * 64 + q" "v div 64 mod 64 = r"
    using pair64 [OF r(1), of "p * 64 + q"] by simp_all
  moreover from this have "v div 262144 = p" "v div 4096 mod 64 = q"
    using pair64 [OF q(1), of p] by (simp_all only: div_4096 div_262144)
  ultimately have "v div 262144 = p" "v div 4096 mod 64 = q" "v div 64 mod 64 = r" "v mod 64 = t"
    by blast+
  with p q r t assms(7,8) show ?thesis
    by (simp add: utf8_cp_def cont_byte_def valid_cp_def is_surrogate_def)
qed

lemma utf8_decode_sound [codec]:
  "utf8_decode bs = Some s \<Longrightarrow> list_all valid_cp s \<and> utf8_bytes s = bs"
proof (induction bs arbitrary: s rule: utf8_decode.induct)
  case (2 a as)
  consider (one) "unat a < 128" | (two) "194 \<le> unat a" "unat a < 224"
    | (three) "224 \<le> unat a" "unat a < 240" | (four) "240 \<le> unat a" "unat a < 245"
    using "2.prems" by (fastforce simp: Let_def split: if_splits)
  then show ?case
  proof cases
    case one
    with 2 show ?thesis by (auto simp: utf8_bytes_def utf8_cp_def valid_cp_def is_surrogate_def)
  next
    case two
    with "2.prems" obtain b bs t where as: "as = b # bs" "is_cont b" "utf8_decode bs = Some t"
        "s = ((unat a - 192) * 64 + (unat b - 128)) # t"
      by (auto simp: Let_def split: list.splits if_splits)
    with two "2.IH"(2) [OF refl] have "list_all valid_cp t \<and> utf8_bytes t = bs" by simp
    with as two utf8_2 [of b a, OF _ _ _ refl] show ?thesis by (simp add: utf8_bytes_def)
  next
    case three
    with "2.prems" obtain b c cs t v where as: "as = b # c # cs" "is_cont b" "is_cont c"
        "utf8_decode cs = Some t" "s = v # t" "2048 \<le> v" "\<not> is_surrogate v"
        "v = (unat a - 224) * 4096 + (unat b - 128) * 64 + (unat c - 128)"
      by (auto simp: Let_def split: list.splits if_splits)
    with three "2.IH"(3) [OF refl] have "list_all valid_cp t \<and> utf8_bytes t = cs" by simp
    with as three utf8_3 [of b c a v] show ?thesis by (simp add: utf8_bytes_def)
  next
    case four
    with "2.prems" obtain b c d ds t v where as: "as = b # c # d # ds" "is_cont b" "is_cont c" "is_cont d"
        "utf8_decode ds = Some t" "s = v # t" "65536 \<le> v" "v < 1114112"
        "v = (unat a - 240) * 262144 + (unat b - 128) * 4096 + (unat c - 128) * 64 + (unat d - 128)"
      by (auto simp: Let_def split: list.splits if_splits)
    with four "2.IH"(4) [OF refl] have "list_all valid_cp t \<and> utf8_bytes t = ds" by simp
    with as four utf8_4 [of b c d a v] show ?thesis by (simp add: utf8_bytes_def)
  qed
qed (simp add: utf8_bytes_def)

text \<open>
  \<open>b.decode("utf-8", errors="replace")\<close>: every maximal part of the input that cannot be
  continued to a character becomes U+FFFD. \<open>follows x b\<close>: the byte \<open>b\<close> may come second
  after the lead byte \<open>x\<close>, which rules out overlong forms, surrogates and too large values.
\<close>

definition follows :: "nat \<Rightarrow> byte \<Rightarrow> bool" where
  "follows x b \<longleftrightarrow> is_cont b \<and> (x = 224 \<longrightarrow> 160 \<le> unat b) \<and> (x = 237 \<longrightarrow> unat b < 160) \<and>
     (x = 240 \<longrightarrow> 144 \<le> unat b) \<and> (x = 244 \<longrightarrow> unat b < 144)"

fun utf8_replace :: "bytes \<Rightarrow> pystr" where
  "utf8_replace [] = []"
| "utf8_replace (a # as) =
     (let x = unat a in
      if x < 128 then x # utf8_replace as
      else if x < 194 \<or> 245 \<le> x then 65533 # utf8_replace as
      else case as of
          [] \<Rightarrow> [65533]
        | b # bs \<Rightarrow>
            if \<not> follows x b then 65533 # utf8_replace as
            else if x < 224 then ((x - 192) * 64 + (unat b - 128)) # utf8_replace bs
            else (case bs of
                [] \<Rightarrow> [65533]
              | c # cs \<Rightarrow>
                  if \<not> is_cont c then 65533 # utf8_replace bs
                  else if x < 240 then ((x - 224) * 4096 + (unat b - 128) * 64 + (unat c - 128)) # utf8_replace cs
                  else (case cs of
                      [] \<Rightarrow> [65533]
                    | d # ds \<Rightarrow>
                        if \<not> is_cont d then 65533 # utf8_replace cs
                        else ((x - 240) * 262144 + (unat b - 128) * 4096 + (unat c - 128) * 64 + (unat d - 128)) # utf8_replace ds)))"

lemma mid_digit: "c div m = 64 * (c div (m * 64)) + c div m mod 64" for c m :: nat
  by (simp add: div_mult2_eq)

lemma utf8_replace_cp:
  assumes "valid_cp c"
  shows "utf8_replace (utf8_cp c @ bs) = c # utf8_replace bs"
proof -
  consider "c < 128" | "128 \<le> c" "c < 2048" | "2048 \<le> c" "c < 65536" | "65536 \<le> c" by linarith
  then show ?thesis
  proof cases
    case 1
    then show ?thesis by (simp add: utf8_cp_def)
  next
    case 2
    then have d: "2 \<le> c div 64" "c div 64 < 32" by (auto simp: less_mult_imp_div_less)
    then have "unat (word_of_nat (192 + c div 64) :: byte) = 192 + c div 64"
      by (intro unat_word_of_nat_byte) simp
    with 2 d show ?thesis by (simp add: utf8_cp_def digits64_2 follows_def)
  next
    case 3
    then have d: "c div 4096 < 16" by (auto simp: less_mult_imp_div_less)
    then have u: "unat (word_of_nat (224 + c div 4096) :: byte) = 224 + c div 4096"
      by (intro unat_word_of_nat_byte) simp
    have e: "c div 64 = 64 * (c div 4096) + c div 64 mod 64" using mid_digit [of c 64] by simp
    have "c div 4096 = 0 \<Longrightarrow> 32 \<le> c div 64 mod 64"
      using 3(1) div_le_mono [of 2048 c 64] e by simp
    moreover have "c div 64 mod 64 < 32" if "c div 4096 = 13"
    proof -
      have "c < 57344" using that div_less_iff_less_mult [of 4096 c 14] by simp
      then have "c < 55296" using assms by (auto simp: valid_cp_def is_surrogate_def)
      then have "c div 64 < 864" by (simp add: div_less_iff_less_mult)
      with e that show ?thesis by simp
    qed
    ultimately show ?thesis using 3 d u by (simp add: utf8_cp_def digits64_3 follows_def)
  next
    case 4
    then have d: "c div 262144 < 5" using assms by (auto simp: less_mult_imp_div_less valid_cp_def)
    then have u: "unat (word_of_nat (240 + c div 262144) :: byte) = 240 + c div 262144"
      by (intro unat_word_of_nat_byte) simp
    have e: "c div 4096 = 64 * (c div 262144) + c div 4096 mod 64" using mid_digit [of c 4096] by simp
    have "c div 262144 = 0 \<Longrightarrow> 16 \<le> c div 4096 mod 64"
      using 4 div_le_mono [of 65536 c 4096] e by simp
    moreover have "c div 4096 mod 64 < 16" if "c div 262144 = 4"
    proof -
      have "c div 4096 < 272" using assms by (simp add: div_less_iff_less_mult valid_cp_def)
      with e that show ?thesis by simp
    qed
    ultimately show ?thesis using 4 d u by (simp add: utf8_cp_def digits64_4 follows_def)
  qed
qed

lemma utf8_replace_encode [codec]: "list_all valid_cp s \<Longrightarrow> utf8_replace (utf8_bytes s) = s"
  by (induction s) (simp_all add: utf8_bytes_def utf8_replace_cp)

section \<open>Stripping and searching\<close>

definition rstrip_while :: "('a \<Rightarrow> bool) \<Rightarrow> 'a list \<Rightarrow> 'a list" where
  "rstrip_while P xs = rev (dropWhile P (rev xs))"

definition strip_while :: "('a \<Rightarrow> bool) \<Rightarrow> 'a list \<Rightarrow> 'a list" where
  "strip_while P xs = rstrip_while P (dropWhile P xs)"

text \<open>\<open>bytes.strip()\<close> removes ASCII white space, \<open>str.strip()\<close> every Unicode white space character.\<close>

definition ascii_space :: "nat \<Rightarrow> bool" where
  "ascii_space c \<longleftrightarrow> c = 32 \<or> 9 \<le> c \<and> c \<le> 13"

definition unicode_space :: "nat \<Rightarrow> bool" where
  "unicode_space c \<longleftrightarrow> 9 \<le> c \<and> c \<le> 13 \<or> 28 \<le> c \<and> c \<le> 32 \<or> c = 133 \<or> c = 160 \<or> c = 5760 \<or>
     8192 \<le> c \<and> c \<le> 8202 \<or> c = 8232 \<or> c = 8233 \<or> c = 8239 \<or> c = 8287 \<or> c = 12288"

definition rstrip_nul :: "bytes \<Rightarrow> bytes" where
  "rstrip_nul b = rstrip_while (\<lambda>x. x = 0) b"

definition bytes_strip :: "bytes \<Rightarrow> bytes" where
  "bytes_strip b = strip_while (\<lambda>x. ascii_space (unat x)) b"

definition str_strip :: "pystr \<Rightarrow> pystr" where
  "str_strip s = strip_while unicode_space s"

definition str_rstrip_nul :: "pystr \<Rightarrow> pystr" where
  "str_rstrip_nul s = rstrip_while (\<lambda>c. c = 0) s"

text \<open>\<open>b.find(b'\x00')\<close>: the first position, -1 if there is none.\<close>

definition find_nul :: "bytes \<Rightarrow> int" where
  "find_nul b = (if 0 \<in> set b then int (length (takeWhile (\<lambda>x. x \<noteq> 0) b)) else - 1)"

lemma rstrip_while_snoc [simp]:
  "rstrip_while P (xs @ [x]) = (if P x then rstrip_while P xs else xs @ [x])"
  by (simp add: rstrip_while_def)

lemma rstrip_while_Nil [simp]: "rstrip_while P [] = []"
  by (simp add: rstrip_while_def)

lemma rstrip_while_id: "xs = [] \<or> \<not> P (last xs) \<Longrightarrow> rstrip_while P xs = xs"
  by (cases xs rule: rev_cases) auto

lemma rstrip_while_terminated: "P x \<Longrightarrow> \<forall>y \<in> set xs. \<not> P y \<Longrightarrow> rstrip_while P (xs @ [x]) = xs"
  by (metis last_in_set rstrip_while_id rstrip_while_snoc)

lemma strip_while_id: "list_all (\<lambda>x. \<not> P x) xs \<Longrightarrow> strip_while P xs = xs"
proof (cases xs)
  case (Cons x ys)
  assume "list_all (\<lambda>x. \<not> P x) xs"
  then have "\<not> P x" "\<not> P (last xs)" using Cons last_in_set [of xs] by (auto simp: list_all_iff)
  then show ?thesis by (simp add: strip_while_def Cons rstrip_while_id)
qed (simp add: strip_while_def)

lemma find_nul_append: "0 \<notin> set a \<Longrightarrow> find_nul (a @ 0 # b) = int (length a)"
proof -
  assume "0 \<notin> set a"
  then have "takeWhile (\<lambda>x. x \<noteq> 0) (a @ 0 # b) = a" by (subst takeWhile_append2) auto
  then show ?thesis by (simp add: find_nul_def)
qed

lemma find_nul_nonneg: "find_nul b \<noteq> - 1 \<longleftrightarrow> 0 \<in> set b"
  by (simp add: find_nul_def)

lemma find_nul_take: "0 \<in> set b \<Longrightarrow> take (nat (find_nul b)) b = takeWhile (\<lambda>x. x \<noteq> 0) b"
  unfolding find_nul_def by (simp, rule takeWhile_eq_take [symmetric])

lemma utf8_bytes_no_nul: "list_all valid_cp s \<Longrightarrow> 0 \<notin> set s \<Longrightarrow> 0 \<notin> set (utf8_bytes s)"
proof (induction s)
  case (Cons c s)
  have "0 \<notin> set (utf8_cp c)"
  proof
    assume "0 \<in> set (utf8_cp c)"
    then obtain b where b: "b \<in> set (utf8_cp c)" "unat b = 0" by auto
    have "c \<noteq> 0" "c < 1114112" using Cons.prems by (auto simp: valid_cp_def)
    have *: "c div 64 < 32 \<Longrightarrow> unat (word_of_nat (192 + c div 64) :: byte) = 192 + c div 64"
      "c div 4096 < 16 \<Longrightarrow> unat (word_of_nat (224 + c div 4096) :: byte) = 224 + c div 4096"
      "c div 262144 < 5 \<Longrightarrow> unat (word_of_nat (240 + c div 262144) :: byte) = 240 + c div 262144"
      by (intro unat_word_of_nat_byte; simp)+
    from b \<open>c \<noteq> 0\<close> \<open>c < 1114112\<close> show False
      by (auto simp: utf8_cp_def less_mult_imp_div_less * simp del: of_nat_add split: if_splits)
  qed
  with Cons show ?case by (simp add: utf8_bytes_def)
qed (simp add: utf8_bytes_def)

section \<open>Hexadecimal\<close>

definition hex_digit :: "nat \<Rightarrow> nat" where
  "hex_digit v = (if v < 10 then 48 + v else 87 + v)"

definition hex_value :: "nat \<Rightarrow> nat option" where
  "hex_value c = (if 48 \<le> c \<and> c \<le> 57 then Some (c - 48)
     else if 97 \<le> c \<and> c \<le> 102 then Some (c - 87)
     else if 65 \<le> c \<and> c \<le> 70 then Some (c - 55) else None)"

fun bytes_hex :: "bytes \<Rightarrow> pystr" where
  "bytes_hex [] = []"
| "bytes_hex (b # bs) = hex_digit (unat b div 16) # hex_digit (unat b mod 16) # bytes_hex bs"

fun bytes_fromhex :: "pystr \<Rightarrow> bytes option" where
  "bytes_fromhex [] = Some []"
| "bytes_fromhex (c # cs) =
     (if ascii_space c then bytes_fromhex cs
      else case cs of [] \<Rightarrow> None
        | d # ds \<Rightarrow> (case (hex_value c, hex_value d) of
            (Some x, Some y) \<Rightarrow> map_option (Cons (word_of_nat (16 * x + y))) (bytes_fromhex ds)
          | _ \<Rightarrow> None))"

lemma hex_value_digit [simp]: "v < 16 \<Longrightarrow> hex_value (hex_digit v) = Some v"
  by (auto simp: hex_value_def hex_digit_def)

lemma hex_digit_not_space [simp]: "v < 16 \<Longrightarrow> \<not> ascii_space (hex_digit v)"
  by (auto simp: ascii_space_def hex_digit_def)

lemma fromhex_hex [simp, codec]: "bytes_fromhex (bytes_hex b) = Some b"
proof (induction b)
  case (Cons b bs)
  have "unat b div 16 < 16" "unat b mod 16 < 16"
    using unat_byte_less [of b] by (simp_all add: less_mult_imp_div_less)
  moreover have "16 * (unat b div 16) + unat b mod 16 = unat b" by simp
  ultimately show ?case using Cons by (simp del: of_nat_add of_nat_mult)
qed simp

lemma length_bytes_hex [simp, codec]: "length (bytes_hex b) = 2 * length b"
  by (induction b) auto

lemma bytes_hex_inject [simp]: "bytes_hex a = bytes_hex b \<longleftrightarrow> a = b"
  by (metis fromhex_hex option.inject)

lemma hex_digit_range: "v < 16 \<Longrightarrow> hex_digit v \<in> {48..57} \<union> {97..102}"
  by (auto simp: hex_digit_def)

lemma bytes_hex_chars: "set (bytes_hex b) \<subseteq> {48..57} \<union> {97..102}"
proof (induction b)
  case (Cons b bs)
  have "unat b div 16 < 16" "unat b mod 16 < 16"
    using unat_byte_less [of b] by (simp_all add: less_mult_imp_div_less)
  then have "hex_digit (unat b div 16) \<in> {48..57} \<union> {97..102}" "hex_digit (unat b mod 16) \<in> {48..57} \<union> {97..102}"
    by (simp_all only: hex_digit_range)
  with Cons show ?case by simp
qed simp

section \<open>Base64\<close>

definition b64_char :: "nat \<Rightarrow> nat" where
  "b64_char v = (if v < 26 then 65 + v else if v < 52 then 71 + v else if v < 62 then v - 4
     else if v = 62 then 43 else 47)"

definition b64_value :: "nat \<Rightarrow> nat option" where
  "b64_value c = (if 65 \<le> c \<and> c \<le> 90 then Some (c - 65) else if 97 \<le> c \<and> c \<le> 122 then Some (c - 71)
     else if 48 \<le> c \<and> c \<le> 57 then Some (c + 4) else if c = 43 then Some 62
     else if c = 47 then Some 63 else None)"

fun b64encode :: "bytes \<Rightarrow> pystr" where
  "b64encode (a # b # c # rest) =
     b64_char (unat a div 4) # b64_char (unat a mod 4 * 16 + unat b div 16)
       # b64_char (unat b mod 16 * 4 + unat c div 64) # b64_char (unat c mod 64) # b64encode rest"
| "b64encode [a, b] =
     [b64_char (unat a div 4), b64_char (unat a mod 4 * 16 + unat b div 16),
      b64_char (unat b mod 16 * 4), 61]"
| "b64encode [a] = [b64_char (unat a div 4), b64_char (unat a mod 4 * 16), 61, 61]"
| "b64encode [] = []"

text \<open>
  \<open>binascii.a2b_base64\<close>: the decoder's state is its position in the quad, the bits left over,
  the number of pad characters seen in this quad and whether padding has started. Outside
  strict mode a character that is not of the alphabet is skipped.
\<close>

fun a2b_base64 :: "bool \<Rightarrow> nat \<Rightarrow> nat \<Rightarrow> nat \<Rightarrow> bool \<Rightarrow> pystr \<Rightarrow> bytes option" where
  "a2b_base64 strict q l pads started [] = (if q = 0 then Some [] else None)"
| "a2b_base64 strict q l pads started (c # cs) =
     (if c = 61 then
        (if 2 \<le> q \<and> 4 \<le> q + pads + 1 then (if strict \<and> cs \<noteq> [] then None else Some [])
         else a2b_base64 strict q l (if 2 \<le> q then pads + 1 else pads) True cs)
      else case b64_value c of
        None \<Rightarrow> if strict then None else a2b_base64 strict q l pads started cs
      | Some v \<Rightarrow>
          if strict \<and> started then None
          else if q = 0 then a2b_base64 strict 1 v 0 started cs
          else if q = 1 then map_option (Cons (word_of_nat (l * 4 + v div 16)))
            (a2b_base64 strict 2 (v mod 16) 0 started cs)
          else if q = 2 then map_option (Cons (word_of_nat (l * 16 + v div 4)))
            (a2b_base64 strict 3 (v mod 4) 0 started cs)
          else map_option (Cons (word_of_nat (l * 64 + v))) (a2b_base64 strict 0 0 0 started cs))"

text \<open>\<open>base64.b64decode(s, validate=strict)\<close>; a \<open>str\<close> argument must be ASCII.\<close>

definition b64decode :: "bool \<Rightarrow> pystr \<Rightarrow> bytes res" where
  "b64decode strict s =
     (if \<not> list_all (\<lambda>c. c < 128) s then Raise ValueError
      else if strict \<and> s \<noteq> [] \<and> hd s = 61 then Raise BinasciiError
      else case a2b_base64 strict 0 0 0 False s of None \<Rightarrow> Raise BinasciiError | Some b \<Rightarrow> Ok b)"

lemma b64_value_char [simp]: "v < 64 \<Longrightarrow> b64_value (b64_char v) = Some v"
  by (auto simp: b64_value_def b64_char_def)

lemma b64_char_props [simp]: "v < 64 \<Longrightarrow> b64_char v \<noteq> 61" "b64_char v < 128"
  by (auto simp: b64_char_def)

lemma b64_split: "x < 4 \<Longrightarrow> y < 16 \<Longrightarrow> (x * 16 + y) div 16 = (x :: nat) \<and> (x * 16 + y) mod 16 = y \<and> x * 16 + y < 64"
  by simp

lemma b64_split': "x < 16 \<Longrightarrow> y < 4 \<Longrightarrow> (x * 4 + y) div 4 = (x :: nat) \<and> (x * 4 + y) mod 4 = y \<and> x * 4 + y < 64"
  by simp

lemma byte_parts: "unat (b :: byte) div 4 < 64" "unat b mod 4 < 4" "unat b div 16 < 16" "unat b mod 16 < 16"
  "unat b div 64 < 4" "unat b mod 64 < 64"
  using unat_byte_less [of b] by (simp_all add: less_mult_imp_div_less)

lemma byte_join:
  "word_of_nat (unat (b :: byte) div 4 * 4 + unat b mod 4) = b"
  "word_of_nat (unat b div 16 * 16 + unat b mod 16) = b"
  "word_of_nat (unat b mod 16 + unat b div 16 * 16) = b"
  "word_of_nat (unat b div 64 * 64 + unat b mod 64) = b"
  by (simp_all only: div_mult_mod_eq mod_div_mult_eq word_of_nat_unat_byte)

lemma a2b_b64encode: "a2b_base64 strict 0 0 0 False (b64encode b) = Some b"
proof (induction b rule: b64encode.induct)
  case (1 a b c rest)
  then show ?case
    using b64_split [OF byte_parts(2) [of a] byte_parts(3) [of b]]
      b64_split' [OF byte_parts(4) [of b] byte_parts(5) [of c]]
    by (simp add: byte_parts byte_join del: of_nat_add of_nat_mult)
next
  case (2 a b)
  show ?case
    using b64_split [OF byte_parts(2) [of a] byte_parts(3) [of b]]
      b64_split' [OF byte_parts(4) [of b], of 0]
    by (simp add: byte_parts byte_join del: of_nat_add of_nat_mult)
next
  case (3 a)
  show ?case
    using b64_split [OF byte_parts(2) [of a], of 0]
    by (simp add: byte_parts byte_join del: of_nat_add of_nat_mult)
qed simp

lemma b64encode_ascii: "list_all (\<lambda>c. c < 128) (b64encode b)"
  by (induction b rule: b64encode.induct) simp_all

lemma b64encode_hd: "b64encode b \<noteq> [] \<Longrightarrow> hd (b64encode b) \<noteq> 61"
  by (cases b rule: b64encode.cases) (simp_all add: byte_parts)

lemma b64decode_encode [simp, codec]: "b64decode strict (b64encode b) = Ok b"
  by (auto simp: b64decode_def a2b_b64encode b64encode_ascii dest: b64encode_hd)

lemma b64encode_Nil_iff [simp]: "b64encode b = [] \<longleftrightarrow> b = []"
  by (cases b rule: b64encode.cases) simp_all

end
