(* ===== verification/Config.thy ===== *)
theory Config
  imports Text_Codec
begin

text \<open>
  \<open>server/src/config.py\<close>: the server's settings and how \<open>Config.load\<close> takes them from the
  environment and from \<open>port.info\<close>. Python's \<open>int()\<close> is written out, with the table of
  Unicode decimal digits as the argument \<open>digit\<close>; what \<open>float()\<close> makes of a string is the
  argument \<open>to_float\<close>.
\<close>

record config =
  cfg_host :: pystr
  cfg_port :: int
  cfg_data_path :: pystr
  cfg_log_level :: pystr
  idle_timeout_s :: real
  upload_inactivity_timeout_s :: real
  handshake_timeout_s :: real
  max_file_size :: int
  max_packets :: int
  max_chunk_size :: int
  cfg_max_payload_size :: int
  read_timeout_s :: real
  cfg_max_concurrent_uploads :: int
  cfg_max_connections :: int
  cfg_max_connections_per_ip :: int
  cpu_worker_threads :: int
  cpu_max_in_flight :: int
  max_req_per_window :: int
  req_window_s :: real
  metrics_enabled :: bool
  metrics_host :: pystr
  metrics_port :: int

text \<open>The defaults of \<open>__init__\<close>.\<close>

definition Config_new :: "pystr \<Rightarrow> int \<Rightarrow> pystr \<Rightarrow> pystr \<Rightarrow> config" where
  "Config_new host port data_path log_level =
     \<lparr>cfg_host = host, cfg_port = port, cfg_data_path = data_path, cfg_log_level = log_level,
      idle_timeout_s = 60, upload_inactivity_timeout_s = 20, handshake_timeout_s = 5,
      max_file_size = 100 * 1024 * 1024, max_packets = 65535, max_chunk_size = 64 * 1024,
      cfg_max_payload_size = 10000000, read_timeout_s = 10, cfg_max_concurrent_uploads = 10,
      cfg_max_connections = 10, cfg_max_connections_per_ip = 10, cpu_worker_threads = 4,
      cpu_max_in_flight = 8, max_req_per_window = 50, req_window_s = 5, metrics_enabled = False,
      metrics_host = lit ''127.0.0.1'', metrics_port = 9100\<rparr>"

section \<open>Parsing\<close>

text \<open>The digits of a Python integer literal: single underscores may stand between digits.\<close>

fun int_digits :: "(nat \<Rightarrow> nat option) \<Rightarrow> int \<Rightarrow> bool \<Rightarrow> pystr \<Rightarrow> int option" where
  "int_digits digit acc need_digit [] = (if need_digit then None else Some acc)"
| "int_digits digit acc need_digit (c # cs) =
     (if c = 95 then (if need_digit then None else int_digits digit acc True cs)
      else case digit c of None \<Rightarrow> None | Some d \<Rightarrow> int_digits digit (10 * acc + int d) False cs)"

definition py_int :: "(nat \<Rightarrow> nat option) \<Rightarrow> pystr \<Rightarrow> int res" where
  "py_int digit s =
     (let t = str_strip s;
          neg = (t \<noteq> [] \<and> hd t = 45);
          body = (if t \<noteq> [] \<and> (hd t = 45 \<or> hd t = 43) then tl t else t) in
      if length (filter (\<lambda>c. c \<noteq> 95) body) > 4300 then Raise ValueError
      else case int_digits digit 0 True body of
        None \<Rightarrow> Raise ValueError
      | Some n \<Rightarrow> Ok (if neg then - n else n))"

definition ascii_digit :: "nat \<Rightarrow> nat option" where
  "ascii_digit c = (if 48 \<le> c \<and> c \<le> 57 then Some (c - 48) else None)"

definition ascii_lower :: "pystr \<Rightarrow> pystr" where
  "ascii_lower = map (\<lambda>c. if 65 \<le> c \<and> c \<le> 90 then c + 32 else c)"

section \<open>Loading\<close>

type_synonym environment = "string \<Rightarrow> pystr option"

text \<open>What opening and reading the first line of \<open>port.info\<close> gives.\<close>

datatype port_info = NoPortFile | PortUnreadable | PortUndecodable | PortLine pystr

definition getenv :: "environment \<Rightarrow> string \<Rightarrow> pystr \<Rightarrow> pystr" where
  "getenv env name dflt = (case env name of None \<Rightarrow> dflt | Some v \<Rightarrow> v)"

definition env_int :: "(nat \<Rightarrow> nat option) \<Rightarrow> environment \<Rightarrow> string \<Rightarrow> int \<Rightarrow> int res" where
  "env_int digit env name dflt = (case env name of
      None \<Rightarrow> Ok dflt
    | Some v \<Rightarrow> if v = [] then Ok dflt else py_int digit v)"

definition env_float :: "(pystr \<Rightarrow> real res) \<Rightarrow> environment \<Rightarrow> string \<Rightarrow> real \<Rightarrow> real res" where
  "env_float to_float env name dflt = (case env name of
      None \<Rightarrow> Ok dflt
    | Some v \<Rightarrow> if v = [] then Ok dflt else to_float v)"

definition env_bool :: "environment \<Rightarrow> string \<Rightarrow> bool \<Rightarrow> bool" where
  "env_bool env name dflt = (case env name of
      None \<Rightarrow> dflt
    | Some v \<Rightarrow> if v = [] then dflt
        else ascii_lower v \<in> set (map lit [''1'', ''true'', ''yes'', ''on'']))"

definition port_ok :: "int \<Rightarrow> bool" where
  "port_ok p \<longleftrightarrow> \<not> (p > 65535 \<or> p < 1)"

definition load_port :: "(nat \<Rightarrow> nat option) \<Rightarrow> environment \<Rightarrow> port_info \<Rightarrow> int res" where
  "load_port digit env file =
     (case env ''SEFTP_PORT'' of
        Some (c # cs) \<Rightarrow> res_bnd (py_int digit (c # cs)) (\<lambda>port.
          if \<not> port_ok port then Raise ValueError else Ok port)
      | _ \<Rightarrow> (case file of
            NoPortFile \<Rightarrow> Ok 1256
          | PortUnreadable \<Rightarrow> Raise OSError
          | PortUndecodable \<Rightarrow> Raise ValueError
          | PortLine l \<Rightarrow> (case py_int digit (str_strip l) of
                Raise e \<Rightarrow> Raise ValueError
              | Ok port \<Rightarrow> if \<not> port_ok port then Raise ValueError else Ok port)))"

definition Config_load ::
  "(nat \<Rightarrow> nat option) \<Rightarrow> (pystr \<Rightarrow> real res) \<Rightarrow> environment \<Rightarrow> port_info \<Rightarrow> config res" where
  "Config_load digit to_float env file =
     (let host = getenv env ''SEFTP_HOST'' (lit ''127.0.0.1''); eint = env_int digit env in
      res_bnd (load_port digit env file) (\<lambda>port.
      res_bnd (eint ''SEFTP_IDLE_TIMEOUT_S'' 60) (\<lambda>idle.
      res_bnd (eint ''SEFTP_UPLOAD_INACTIVITY_TIMEOUT_S'' 20) (\<lambda>inactivity.
      res_bnd (env_float to_float env ''SEFTP_HANDSHAKE_TIMEOUT_S'' 5) (\<lambda>handshake.
      res_bnd (eint ''SEFTP_MAX_FILE_SIZE'' (100 * 1024 * 1024)) (\<lambda>file_size.
      res_bnd (eint ''SEFTP_MAX_PACKETS'' 65535) (\<lambda>packets.
      res_bnd (eint ''SEFTP_MAX_CHUNK_SIZE'' (64 * 1024)) (\<lambda>chunk.
      res_bnd (eint ''SEFTP_MAX_PAYLOAD_SIZE'' 10000000) (\<lambda>payload.
      res_bnd (env_float to_float env ''SEFTP_READ_TIMEOUT_S'' 10) (\<lambda>read_timeout.
      res_bnd (eint ''SEFTP_MAX_CONCURRENT_UPLOADS'' 10) (\<lambda>uploads.
      res_bnd (eint ''SEFTP_MAX_CONNECTIONS'' 10) (\<lambda>connections.
      res_bnd (eint ''SEFTP_MAX_CONNECTIONS_PER_IP'' 10) (\<lambda>per_ip.
      res_bnd (eint ''SEFTP_CPU_WORKER_THREADS'' 4) (\<lambda>workers.
      res_bnd (eint ''SEFTP_CPU_MAX_IN_FLIGHT'' 8) (\<lambda>in_flight.
      res_bnd (eint ''SEFTP_MAX_REQUESTS_PER_WINDOW'' 50) (\<lambda>requests.
      res_bnd (eint ''SEFTP_REQUEST_WINDOW_SECONDS'' 5) (\<lambda>window.
      res_bnd (eint ''SEFTP_METRICS_PORT'' 9100) (\<lambda>mport.
      Ok \<lparr>cfg_host = host, cfg_port = port, cfg_data_path = lit ''data/seftp_server_sql.db'',
          cfg_log_level = getenv env ''SEFTP_LOG_LEVEL'' (lit ''INFO''),
          idle_timeout_s = of_int idle, upload_inactivity_timeout_s = of_int inactivity,
          handshake_timeout_s = handshake, max_file_size = file_size, max_packets = packets,
          max_chunk_size = chunk, cfg_max_payload_size = payload, read_timeout_s = read_timeout,
          cfg_max_concurrent_uploads = uploads, cfg_max_connections = connections,
          cfg_max_connections_per_ip = per_ip, cpu_worker_threads = workers,
          cpu_max_in_flight = in_flight, max_req_per_window = requests, req_window_s = of_int window,
          metrics_enabled = env_bool env ''SEFTP_METRICS_ENABLED'' False,
          metrics_host = getenv env ''SEFTP_METRICS_HOST'' (lit ''127.0.0.1''),
          metrics_port = mport\<rparr>))))))))))))))))))"

section \<open>Properties\<close>

lemma env_int_default [simp]: "env name = None \<Longrightarrow> env_int digit env name d = Ok d"
  by (simp add: env_int_def)

lemma env_float_default [simp]: "env name = None \<Longrightarrow> env_float to_float env name d = Ok d"
  by (simp add: env_float_def)

lemma load_port_valid: "load_port digit env file = Ok p \<Longrightarrow> 1 \<le> p \<and> p \<le> 65535"
  by (auto simp: load_port_def port_ok_def res_bnd_Ok split: option.splits list.splits port_info.splits res.splits if_splits)

text \<open>Decimal notation, as a user writes a setting.\<close>

function dec_digits :: "nat \<Rightarrow> pystr" where
  "dec_digits n = (if n < 10 then [48 + n] else dec_digits (n div 10) @ [48 + n mod 10])"
  by auto
termination by (relation "measure id") auto

declare dec_digits.simps [simp del]

definition decimal :: "int \<Rightarrow> pystr" where
  "decimal v = (if v < 0 then 45 # dec_digits (nat (- v)) else dec_digits (nat v))"

lemma int_digits_value:
  assumes "\<And>c. 48 \<le> c \<Longrightarrow> c \<le> 57 \<Longrightarrow> digit c = Some (c - 48)" and "\<forall>c \<in> set xs. 48 \<le> c \<and> c \<le> 57"
  shows "int_digits digit acc need xs = (if xs = [] \<and> need then None
    else Some (foldl (\<lambda>a c. 10 * a + int (c - 48)) acc xs))"
  using assms(2)
proof (induction xs arbitrary: acc need)
  case (Cons c cs)
  then have "digit c = Some (c - 48)" using assms(1) by simp
  with Cons show ?case by simp
qed simp

lemma dec_digits_range: "\<forall>c \<in> set (dec_digits n). 48 \<le> c \<and> c \<le> 57"
  by (induction n rule: dec_digits.induct) (subst dec_digits.simps, auto)

lemma dec_digits_value: "foldl (\<lambda>a c. 10 * a + int (c - 48)) 0 (dec_digits n) = int n"
proof (induction n rule: dec_digits.induct)
  case (1 n)
  show ?case
  proof (cases "n < 10")
    case True
    then show ?thesis by (subst dec_digits.simps) simp
  next
    case False
    have "10 * int (n div 10) + int (n mod 10) = int n"
      by (metis mult_div_mod_eq of_nat_add of_nat_mult of_nat_numeral)
    with 1 [OF False] False show ?thesis by (subst dec_digits.simps) simp
  qed
qed

lemma dec_digits_nonempty [simp]: "dec_digits n \<noteq> []"
  by (subst dec_digits.simps) simp

lemma strip_decimal: "str_strip (decimal v) = decimal v"
proof -
  have "\<not> unicode_space c" if "c \<in> insert 45 {48..57}" for c
    using that by (auto simp: unicode_space_def)
  moreover have "set (decimal v) \<subseteq> insert 45 {48..57}"
    using dec_digits_range [of "nat v"] dec_digits_range [of "nat (- v)"] by (auto simp: decimal_def)
  ultimately have r: "\<forall>c \<in> set (decimal v). \<not> unicode_space c" by blast
  have "dropWhile unicode_space (decimal v) = decimal v" "dropWhile unicode_space (rev (decimal v)) = rev (decimal v)"
    using r by (auto simp: dropWhile_eq_self_iff hd_rev)
  then show ?thesis by (simp add: str_strip_def strip_while_def rstrip_while_def)
qed

lemma py_int_decimal:
  assumes d: "\<And>c. 48 \<le> c \<Longrightarrow> c \<le> 57 \<Longrightarrow> digit c = Some (c - 48)"
    and l: "length (dec_digits (nat \<bar>v\<bar>)) \<le> 4300"
  shows "py_int digit (decimal v) = Ok v"
proof -
  let ?n = "nat \<bar>v\<bar>"
  have ds: "int_digits digit 0 True (dec_digits ?n) = Some \<bar>v\<bar>"
    by (simp add: int_digits_value [OF d dec_digits_range] dec_digits_value)
  have "length (filter (\<lambda>c. c \<noteq> 95) (dec_digits ?n)) \<le> 4300"
    by (rule order.trans [OF length_filter_le l])
  moreover have "hd (dec_digits ?n) \<noteq> 45" "hd (dec_digits ?n) \<noteq> 43"
    using dec_digits_range [of ?n] by (metis dec_digits_nonempty hd_in_set numeral_le_iff semiring_norm)+
  ultimately show ?thesis
    using ds by (cases "v < 0") (simp_all add: py_int_def strip_decimal, simp_all add: decimal_def Let_def)
qed

text \<open>Setting the port: with \<open>SEFTP_PORT\<close> set to a number in decimal and nothing else set,
  \<open>Config.load\<close> gives the configuration \<open>__init__\<close> describes with that port when it is a valid
  port, and raises \<open>ValueError\<close> otherwise.\<close>

lemma config_load_port:
  assumes "\<And>c. 48 \<le> c \<Longrightarrow> c \<le> 57 \<Longrightarrow> digit c = Some (c - 48)" and "length (dec_digits (nat \<bar>p\<bar>)) \<le> 4300"
  shows "Config_load digit to_float [''SEFTP_PORT'' \<mapsto> decimal p] file =
    (if 1 \<le> p \<and> p \<le> 65535
     then Ok (Config_new (lit ''127.0.0.1'') p (lit ''data/seftp_server_sql.db'') (lit ''INFO''))
     else Raise ValueError)"
proof -
  have "decimal p \<noteq> []" by (simp add: decimal_def)
  then obtain c cs where "decimal p = c # cs" by (cases "decimal p") auto
  with py_int_decimal [OF assms]
  have "load_port digit [''SEFTP_PORT'' \<mapsto> decimal p] file = (if 1 \<le> p \<and> p \<le> 65535 then Ok p else Raise ValueError)"
    by (simp add: load_port_def port_ok_def)
  then show ?thesis
    by (simp add: Config_load_def Config_new_def Let_def getenv_def env_bool_def)
qed

lemma config_load_port_witness:
  "Config_load ascii_digit (\<lambda>_. Raise ValueError) [''SEFTP_PORT'' \<mapsto> decimal 70000] NoPortFile = Raise ValueError"
proof -
  have "length (dec_digits (nat \<bar>70000\<bar>)) \<le> 4300" by (simp add: dec_digits.simps)
  with config_load_port [of ascii_digit 70000] show ?thesis by (simp add: ascii_digit_def)
qed

text \<open>A loaded configuration always has a port a socket can be bound to, whatever the
  environment and \<open>port.info\<close> hold.\<close>

lemma config_load_valid_port:
  assumes "Config_load digit to_float env file = Ok c"
  shows "1 \<le> cfg_port c \<and> cfg_port c \<le> 65535"
proof (cases "load_port digit env file")
  case (Ok p)
  have "cfg_port c = p"
    using assms unfolding Config_load_def Let_def Ok res_bnd_simps
    by (simp add: res_bnd_def split: res.splits, hypsubst, simp)
  with load_port_valid [OF Ok] show ?thesis by simp
next
  case (Raise e)
  with assms show ?thesis by (simp add: Config_load_def Let_def)
qed

end
