(* ===== verification/Framing.thy ===== *)
theory Framing
  imports Prelude
begin

text \<open>
  \<open>server/src/framing.py\<close>: the incremental extraction of protocol frames from the byte
  stream of a connection. The framer keeps the bytes that do not yet form a whole frame
  between calls of \<open>feed\<close>; a header that announces more than \<open>max_payload_size\<close> bytes
  empties the buffer and raises. The laws of an incremental consumer (locale
  \<open>chunked_consumer\<close>) hold of \<open>feed\<close>, so what comes out of a stream depends on how the
  network cut it into reads only in this: frames that the read with a refused header would
  have completed are lost with it.
\<close>

section \<open>The framer\<close>

definition HEADER_LEN :: nat where "HEADER_LEN = 23"
definition PAYLOAD_SIZE_OFFSET :: nat where "PAYLOAD_SIZE_OFFSET = 19"

record framer =
  max_payload_size :: int
  buf :: bytes

definition framer_init :: "int \<Rightarrow> framer res" where
  "framer_init max_payload =
     (if max_payload \<le> 0 then Raise ValueError
      else Ok \<lparr>max_payload_size = max_payload, buf = []\<rparr>)"

definition header_payload_size :: "bytes \<Rightarrow> int" where
  "header_payload_size b = le_decode (take 4 (drop PAYLOAD_SIZE_OFFSET b))"

text \<open>The \<open>while True\<close> loop: the buffer and the frames extracted so far.\<close>

function feed_loop :: "int \<Rightarrow> bytes \<Rightarrow> bytes list \<Rightarrow> bytes list res \<times> bytes" where
  "feed_loop max_payload b frames =
     (if length b < HEADER_LEN then (Ok frames, b)
      else let payload_size = header_payload_size b in
        if payload_size > max_payload then (Raise ValueError, [])
        else let frame_len = HEADER_LEN + nat payload_size in
          if length b < frame_len then (Ok frames, b)
          else feed_loop max_payload (drop frame_len b) (frames @ [take frame_len b]))"
  by pat_completeness auto
termination
  by (relation "measure (\<lambda>(m, b, fs). length b)") (auto simp: HEADER_LEN_def)

definition framer_feed :: "framer \<Rightarrow> bytes \<Rightarrow> bytes list res \<times> framer" where
  "framer_feed f chunk =
     (if chunk = [] then (Ok [], f)
      else case feed_loop (max_payload_size f) (buf f @ chunk) [] of
        (r, b) \<Rightarrow> (r, f\<lparr>buf := b\<rparr>))"

declare feed_loop.simps [simp del]

section \<open>One frame\<close>

text \<open>A byte string that is exactly one frame: its header announces the bytes that follow it.\<close>

definition is_frame :: "int \<Rightarrow> bytes \<Rightarrow> bool" where
  "is_frame max_payload b \<longleftrightarrow>
     HEADER_LEN \<le> length b \<and> header_payload_size b \<le> max_payload \<and>
     length b = HEADER_LEN + nat (header_payload_size b)"

text \<open>The buffer holds no complete frame and no refused header: the loop leaves it as it is.\<close>

definition settled :: "int \<Rightarrow> bytes \<Rightarrow> bool" where
  "settled max_payload b \<longleftrightarrow> feed_loop max_payload b [] = (Ok [], b)"

lemma header_payload_size_append [simp]:
  "HEADER_LEN \<le> length a \<Longrightarrow> header_payload_size (a @ b) = header_payload_size a"
  by (simp add: header_payload_size_def HEADER_LEN_def PAYLOAD_SIZE_OFFSET_def)

lemma header_payload_size_nonneg [simp]: "0 \<le> header_payload_size b"
  by (simp add: header_payload_size_def)

lemma header_payload_size_less: "header_payload_size b < 256 ^ 4"
proof -
  have "header_payload_size b < 256 ^ length (take 4 (drop PAYLOAD_SIZE_OFFSET b))"
    unfolding header_payload_size_def by (rule le_decode_less)
  also have "\<dots> \<le> 256 ^ 4" by (intro power_increasing) auto
  finally show ?thesis .
qed

text \<open>The four things the loop can find at the head of the buffer.\<close>

lemma feed_loop_short: "length b < HEADER_LEN \<Longrightarrow> feed_loop m b fs = (Ok fs, b)"
  by (simp add: feed_loop.simps)

lemma feed_loop_too_large:
  "HEADER_LEN \<le> length b \<Longrightarrow> m < header_payload_size b \<Longrightarrow> feed_loop m b fs = (Raise ValueError, [])"
  by (simp add: feed_loop.simps)

lemma feed_loop_partial:
  "HEADER_LEN \<le> length b \<Longrightarrow> header_payload_size b \<le> m \<Longrightarrow>
   length b < HEADER_LEN + nat (header_payload_size b) \<Longrightarrow> feed_loop m b fs = (Ok fs, b)"
  by (simp add: feed_loop.simps Let_def)

lemma feed_loop_frame: "is_frame m f \<Longrightarrow> feed_loop m (f @ rest) fs = feed_loop m rest (fs @ [f])"
  by (simp add: feed_loop.simps [of m "f @ rest"] is_frame_def Let_def)

lemmas feed_loop_steps = feed_loop_short feed_loop_too_large feed_loop_partial feed_loop_frame

lemma is_frame_nonempty: "is_frame m f \<Longrightarrow> 0 < length f"
  by (simp add: is_frame_def HEADER_LEN_def)

lemma frame_cases:
  obtains (short) "length b < HEADER_LEN"
    | (too_large) "HEADER_LEN \<le> length b" "m < header_payload_size b"
    | (partial) "HEADER_LEN \<le> length b" "header_payload_size b \<le> m"
        "length b < HEADER_LEN + nat (header_payload_size b)"
    | (frame) f rest where "b = f @ rest" "is_frame m f"
proof -
  let ?n = "HEADER_LEN + nat (header_payload_size b)"
  have *: "is_frame m (take ?n b)" if "HEADER_LEN \<le> length b" "header_payload_size b \<le> m" "?n \<le> length b"
  proof -
    have "header_payload_size (take ?n b @ drop ?n b) = header_payload_size (take ?n b)"
      by (rule header_payload_size_append) (use that in simp)
    with that show ?thesis by (simp add: is_frame_def)
  qed
  consider "length b < HEADER_LEN" | "HEADER_LEN \<le> length b" "m < header_payload_size b"
    | "HEADER_LEN \<le> length b" "header_payload_size b \<le> m" "length b < ?n"
    | "HEADER_LEN \<le> length b" "header_payload_size b \<le> m" "?n \<le> length b"
    by linarith
  then show thesis
  proof cases
    case 4
    then show thesis using * frame [of "take ?n b" "drop ?n b"] by simp
  qed (fact short too_large partial)+
qed

lemma stream_induct [case_names short too_large partial frame]:
  assumes "\<And>b. length b < HEADER_LEN \<Longrightarrow> P b"
    and "\<And>b. HEADER_LEN \<le> length b \<Longrightarrow> m < header_payload_size b \<Longrightarrow> P b"
    and "\<And>b. HEADER_LEN \<le> length b \<Longrightarrow> header_payload_size b \<le> m \<Longrightarrow>
          length b < HEADER_LEN + nat (header_payload_size b) \<Longrightarrow> P b"
    and "\<And>f rest. is_frame m f \<Longrightarrow> P rest \<Longrightarrow> P (f @ rest)"
  shows "P b"
proof (induction b rule: length_induct)
  case (1 b)
  show ?case
  proof (cases b rule: frame_cases [where m = m])
    case (frame f rest)
    then have "length rest < length b" using is_frame_nonempty by fastforce
    with 1 frame assms(4) show ?thesis by blast
  qed (use assms in blast)+
qed

section \<open>What the loop computes\<close>

text \<open>Stopping between two reads and going on with the next one changes nothing.\<close>

lemma feed_loop_append:
  "feed_loop m (b @ c) fs =
     (case feed_loop m b fs of (Ok gs, b') \<Rightarrow> feed_loop m (b' @ c) gs
                             | (Raise e, b') \<Rightarrow> (Raise e, b'))"
proof (induction b arbitrary: fs rule: stream_induct [where m = m])
  case (too_large b)
  then show ?case by (simp add: feed_loop_too_large)
qed (simp_all add: feed_loop_steps)

lemma feed_loop_acc:
  "feed_loop m b fs = (case feed_loop m b [] of (Ok gs, b') \<Rightarrow> (Ok (fs @ gs), b')
                                              | (Raise e, b') \<Rightarrow> (Raise e, b'))"
proof (induction b arbitrary: fs rule: stream_induct [where m = m])
  case (frame f rest)
  obtain r b' where "feed_loop m rest [] = (r, b')" by fastforce
  with frame.hyps show ?case
    by (cases r) (simp_all add: feed_loop_frame frame.IH [of "fs @ [f]"] frame.IH [of "[f]"])
qed (simp_all add: feed_loop_steps)

lemma feed_loop_acc_results:
  "feed_loop m b [] = (Ok gs, b') \<Longrightarrow> feed_loop m b fs = (Ok (fs @ gs), b')"
  "feed_loop m b [] = (Raise e, b') \<Longrightarrow> feed_loop m b fs = (Raise e, b')"
  by (subst feed_loop_acc, simp)+

text \<open>The bytes out are the bytes in, every frame is one frame, and the rest is not one yet.\<close>

lemma feed_loop_sound:
  "feed_loop m b fs = (Ok gs, b') \<Longrightarrow> \<forall>f \<in> set fs. is_frame m f \<Longrightarrow>
     concat gs @ b' = concat fs @ b \<and> (\<forall>f \<in> set gs. is_frame m f) \<and> settled m b'"
proof (induction b arbitrary: fs rule: stream_induct [where m = m])
  case (frame f rest)
  have "feed_loop m rest (fs @ [f]) = (Ok gs, b')"
    using frame.prems(1) frame.hyps by (simp add: feed_loop_frame)
  moreover have "\<forall>g \<in> set (fs @ [f]). is_frame m g" using frame.prems(2) frame.hyps by auto
  ultimately have "concat gs @ b' = concat (fs @ [f]) @ rest \<and> (\<forall>f \<in> set gs. is_frame m f) \<and> settled m b'"
    by (rule frame.IH)
  then show ?case by simp
qed (auto simp: feed_loop_steps settled_def)

lemma feed_loop_frames:
  "\<forall>f \<in> set gs. is_frame m f \<Longrightarrow> feed_loop m (concat gs @ b) fs = feed_loop m b (fs @ gs)"
  by (induction gs arbitrary: fs) (simp_all add: feed_loop_frame)

lemma feed_loop_raise: "feed_loop m b fs = (Raise e, b') \<Longrightarrow> e = ValueError \<and> b' = []"
  by (induction b arbitrary: fs rule: stream_induct [where m = m]) (auto simp: feed_loop_steps)

lemma settled_Nil [simp]: "settled m []"
  by (simp add: settled_def feed_loop_short HEADER_LEN_def)

lemma settled_length:
  assumes "settled m b" and "0 \<le> m"
  shows "len b < int HEADER_LEN + m"
  using assms(1)
proof (cases b rule: frame_cases [where m = m])
  case (frame f rest)
  with assms(1) have "feed_loop m rest [f] = (Ok [], f @ rest)"
    by (simp add: settled_def feed_loop_frame)
  moreover obtain r b' where "feed_loop m rest [] = (r, b')" by fastforce
  ultimately show ?thesis by (cases r) (simp_all add: feed_loop_acc [of m rest "[f]"])
qed (use assms in \<open>auto simp: settled_def feed_loop_steps\<close>)

section \<open>The interface of an incremental consumer\<close>

text \<open>
  A component that is fed a stream in pieces: \<open>feed s xs\<close> gives the items completed by
  \<open>xs\<close>, or an exception, and the next state. Its law is that two pieces fed one after the
  other do what their concatenation does, errors included. \<open>feed_all\<close> is the read loop
  over a list of pieces, which an exception leaves: the items it was given before that, the
  exception if there was one, and the state.
\<close>

locale chunked_consumer =
  fixes feed :: "'s \<Rightarrow> 'x list \<Rightarrow> 'i list res \<times> 's"
    and ready :: "'s \<Rightarrow> bool"
  assumes feed_Nil: "feed s [] = (Ok [], s)"
    and feed_append: "ready s \<Longrightarrow> feed s (a @ b) =
      (case feed s a of (Ok xs, t) \<Rightarrow>
          (case feed t b of (Ok ys, u) \<Rightarrow> (Ok (xs @ ys), u) | (Raise e, u) \<Rightarrow> (Raise e, u))
        | (Raise e, t) \<Rightarrow> (Raise e, t))"
    and feed_ready: "ready s \<Longrightarrow> feed s a = (r, t) \<Longrightarrow> ready t"
begin

primrec feed_all :: "'s \<Rightarrow> 'x list list \<Rightarrow> 'i list \<times> exn option \<times> 's" where
  "feed_all s [] = ([], None, s)"
| "feed_all s (c # cs) =
     (case feed s c of (Ok xs, t) \<Rightarrow> (case feed_all t cs of (ys, e, u) \<Rightarrow> (xs @ ys, e, u))
       | (Raise e, t) \<Rightarrow> ([], Some e, t))"

lemma feed_all_concat:
  "ready s \<Longrightarrow> feed_all s cs = (xs, e, t) \<Longrightarrow>
    feed s (concat cs) = (case e of None \<Rightarrow> Ok xs | Some x \<Rightarrow> Raise x, t)"
proof (induction cs arbitrary: s xs e t)
  case (Cons c cs)
  show ?case
  proof (cases "feed s c")
    case (Pair r u)
    obtain ys e' t' where all: "feed_all u cs = (ys, e', t')" by (metis prod_cases3)
    from feed_ready [OF Cons.prems(1) Pair] Cons.IH all
    have "feed u (concat cs) = (case e' of None \<Rightarrow> Ok ys | Some x \<Rightarrow> Raise x, t')" by blast
    with Pair all Cons.prems show ?thesis
      by (cases r) (auto simp: feed_append split: option.splits)
  qed
qed (simp add: feed_Nil)

text \<open>The items delivered before an exception are those of the pieces before the one that raised.\<close>

lemma feed_all_raised:
  "ready s \<Longrightarrow> feed_all s cs = (xs, Some e, t) \<Longrightarrow>
    \<exists>i < length cs. (\<exists>u. feed s (concat (take i cs)) = (Ok xs, u)) \<and> feed s (concat (take (Suc i) cs)) = (Raise e, t)"
proof (induction cs arbitrary: s xs)
  case (Cons c cs)
  obtain r u where c: "feed s c = (r, u)" by fastforce
  show ?case
  proof (cases r)
    case (Raise x)
    with Cons.prems c show ?thesis by (intro exI [of _ 0]) (simp add: feed_Nil)
  next
    case (Ok zs)
    with Cons.prems(2) c obtain ys where ys: "feed_all u cs = (ys, Some e, t)" "xs = zs @ ys" by (auto split: prod.splits)
    from Cons.IH [OF feed_ready [OF Cons.prems(1) c] ys(1)] obtain i v where "i < length cs"
      "feed u (concat (take i cs)) = (Ok ys, v)" "feed u (concat (take (Suc i) cs)) = (Raise e, t)" by blast
    with c Ok ys(2) Cons.prems(1) show ?thesis by (intro exI [of _ "Suc i"]) (simp add: feed_append)
  qed
qed simp

corollary chunking_irrelevant:
  "ready s \<Longrightarrow> concat cs = concat ds \<Longrightarrow> feed_all s cs = (xs, None, t) \<Longrightarrow> feed_all s ds = (xs, None, t)"
  using feed_all_concat [of s cs xs None t] feed_all_concat [of s ds] by (cases "feed_all s ds") (auto split: option.splits)

end

definition framer_ready :: "framer \<Rightarrow> bool" where
  "framer_ready f \<longleftrightarrow> settled (max_payload_size f) (buf f)"

lemma framer_feed_Nil: "framer_feed f [] = (Ok [], f)"
  by (simp add: framer_feed_def)

lemma framer_feed_loop:
  "framer_ready f \<Longrightarrow> framer_feed f c =
     (case feed_loop (max_payload_size f) (buf f @ c) [] of (r, b) \<Rightarrow> (r, f\<lparr>buf := b\<rparr>))"
  by (simp add: framer_feed_def framer_ready_def settled_def)

lemma framer_feed_ready: "framer_ready f \<Longrightarrow> framer_feed f c = (r, g) \<Longrightarrow> framer_ready g"
proof -
  assume a: "framer_ready f" "framer_feed f c = (r, g)"
  obtain r' b where l: "feed_loop (max_payload_size f) (buf f @ c) [] = (r', b)" by fastforce
  with a have g: "r = r'" "g = f\<lparr>buf := b\<rparr>" by (simp_all add: framer_feed_loop)
  show "framer_ready g"
  proof (cases r')
    case (Ok gs)
    with l have "settled (max_payload_size f) b" using feed_loop_sound by fastforce
    with g show ?thesis by (simp add: framer_ready_def)
  next
    case (Raise e)
    with l g show ?thesis by (auto simp: framer_ready_def dest: feed_loop_raise)
  qed
qed

interpretation framer_stream: chunked_consumer framer_feed framer_ready
proof unfold_locales
  fix f a b assume r: "framer_ready f"
  let ?m = "max_payload_size f"
  obtain x c where l: "feed_loop ?m (buf f @ a) [] = (x, c)" by fastforce
  have fa: "framer_feed f a = (x, f\<lparr>buf := c\<rparr>)" using r l by (simp add: framer_feed_loop)
  then have rc: "framer_ready (f\<lparr>buf := c\<rparr>)" by (rule framer_feed_ready [OF r])
  obtain y d where l2: "feed_loop ?m (c @ b) [] = (y, d)" by fastforce
  have fb: "framer_feed (f\<lparr>buf := c\<rparr>) b = (y, f\<lparr>buf := d\<rparr>)"
    using rc l2 by (simp add: framer_feed_loop)
  have "feed_loop ?m ((buf f @ a) @ b) [] =
      (case x of Ok gs \<Rightarrow> feed_loop ?m (c @ b) gs | Raise e \<Rightarrow> (Raise e, c))"
    by (subst feed_loop_append) (simp add: l)
  also have "\<dots> = (case x of Ok gs \<Rightarrow> (case y of Ok hs \<Rightarrow> (Ok (gs @ hs), d) | Raise e \<Rightarrow> (Raise e, d))
                     | Raise e \<Rightarrow> (Raise e, c))"
    using feed_loop_acc_results [of ?m "c @ b"] l2 by (cases x; cases y) auto
  finally show "framer_feed f (a @ b) =
      (case framer_feed f a of (Ok xs, t) \<Rightarrow>
          (case framer_feed t b of (Ok ys, u) \<Rightarrow> (Ok (xs @ ys), u) | (Raise e, u) \<Rightarrow> (Raise e, u))
        | (Raise e, t) \<Rightarrow> (Raise e, t))"
    unfolding fa using fb r by (cases x; cases y) (simp_all add: framer_feed_loop)
qed (simp_all add: framer_feed_Nil framer_feed_ready)

section \<open>Properties of the framer\<close>

text \<open>The calls of \<open>feed\<close> for the successive reads of a connection, up to the one that raises: the frames
  they have returned, the exception, and the framer.\<close>

primrec framer_feed_all :: "framer \<Rightarrow> bytes list \<Rightarrow> bytes list \<times> exn option \<times> framer" where
  "framer_feed_all f [] = ([], None, f)"
| "framer_feed_all f (c # cs) =
     (case framer_feed f c of (Ok xs, g) \<Rightarrow> (case framer_feed_all g cs of (ys, e, h) \<Rightarrow> (xs @ ys, e, h))
       | (Raise e, g) \<Rightarrow> ([], Some e, g))"

lemma framer_feed_all_stream: "framer_feed_all f cs = framer_stream.feed_all f cs"
  by (induction cs arbitrary: f) (simp_all split: prod.splits res.splits)

lemma feed_loop_raise_iff:
  "feed_loop m b fs = (Raise e, b') \<longleftrightarrow> e = ValueError \<and> b' = [] \<and>
     (\<exists>gs c. b = concat gs @ c \<and> (\<forall>f \<in> set gs. is_frame m f) \<and>
        HEADER_LEN \<le> length c \<and> m < header_payload_size c)" (is "_ \<longleftrightarrow> _ \<and> _ \<and> ?bad b")
proof
  assume "e = ValueError \<and> b' = [] \<and> ?bad b"
  then show "feed_loop m b fs = (Raise e, b')"
    by (auto simp: feed_loop_frames feed_loop_too_large)
next
  assume r: "feed_loop m b fs = (Raise e, b')"
  have "?bad b" using r
  proof (induction b arbitrary: fs rule: stream_induct [where m = m])
    case (too_large b)
    then show ?case by (intro exI [of _ "[] :: bytes list"] exI [of _ b]) simp
  next
    case (frame f rest)
    then have "feed_loop m rest (fs @ [f]) = (Raise e, b')" by (simp add: feed_loop_frame)
    then obtain gs c where "rest = concat gs @ c" "\<forall>f \<in> set gs. is_frame m f"
      "HEADER_LEN \<le> length c" "m < header_payload_size c"
      using frame.IH by meson
    with frame.hyps show ?case by (intro exI [of _ "f # gs"] exI [of _ c]) simp
  qed (simp_all add: feed_loop_steps)
  with r feed_loop_raise show "e = ValueError \<and> b' = [] \<and> ?bad b" by blast
qed

text \<open>C11: however the network cuts a byte stream into reads, feeding the reads one by one raises if and only if
  feeding their concatenation does, with the same exception, and leaves the same buffer; when nothing is raised, the frames
  delivered are those of the concatenation. When a read raises, the frames delivered are exactly the frames of all the reads before
  it: those that the raising read completed ahead of its refused header are lost.\<close>
theorem framer_chunking_independent:
  assumes "framer_ready f" and "framer_feed_all f cs = (xs, e, g)"
  shows "framer_feed f (concat cs) = (case e of None \<Rightarrow> Ok xs | Some x \<Rightarrow> Raise x, g) \<and>
    (e \<noteq> None \<longrightarrow> (\<exists>i < length cs. fst (framer_feed f (concat (take i cs))) = Ok xs \<and>
       fst (framer_feed f (concat (take (Suc i) cs))) = Raise (the e)))"
proof -
  have all: "framer_stream.feed_all f cs = (xs, e, g)" using assms(2) by (simp add: framer_feed_all_stream)
  have "\<exists>i < length cs. fst (framer_feed f (concat (take i cs))) = Ok xs \<and> fst (framer_feed f (concat (take (Suc i) cs))) = Raise (the e)"
    if "e \<noteq> None"
    using framer_stream.feed_all_raised [OF assms(1), of cs xs "the e" g] all that by fastforce
  with framer_stream.feed_all_concat [OF assms(1) all] show ?thesis by blast
qed

text \<open>A frame and then a refused header: two reads deliver the frame, one read loses it.\<close>

theorem framer_chunking_independent_witness:
  "framer_feed_all \<lparr>max_payload_size = 8, buf = []\<rparr> [replicate 23 0, replicate 19 0 @ [9, 0, 0, 0]]
       = ([replicate 23 0], Some ValueError, \<lparr>max_payload_size = 8, buf = []\<rparr>) \<and>
   framer_feed \<lparr>max_payload_size = 8, buf = []\<rparr> (concat [replicate 23 0, replicate 19 0 @ [9, 0, 0, 0]])
       = (Raise ValueError, \<lparr>max_payload_size = 8, buf = []\<rparr>)"
proof -
  let ?f = "\<lparr>max_payload_size = 8, buf = [] :: bytes\<rparr>" and ?F = "replicate 23 0 :: bytes" and ?H = "replicate 19 0 @ [9, 0, 0, 0] :: bytes"
  have "is_frame 8 ?F"
    by (simp add: is_frame_def HEADER_LEN_def header_payload_size_def PAYLOAD_SIZE_OFFSET_def numeral_eq_Suc)
  from feed_loop_frame [OF this, of "[]" "[]"] have "framer_feed ?f ?F = (Ok [?F], ?f)"
    by (simp add: framer_feed_def feed_loop_short HEADER_LEN_def)
  moreover have "header_payload_size ?H = 9" by (simp add: header_payload_size_def PAYLOAD_SIZE_OFFSET_def)
  then have "framer_feed ?f ?H = (Raise ValueError, ?f)" by (simp add: framer_feed_def feed_loop_too_large HEADER_LEN_def)
  ultimately have "framer_feed_all ?f [?F, ?H] = ([?F], Some ValueError, ?f)" by simp
  moreover have "framer_ready ?f" by (simp add: framer_ready_def)
  ultimately show ?thesis using framer_chunking_independent [of ?f "[?F, ?H]"] by simp
qed

text \<open>C17: the frames a call of \<open>feed\<close> returns are exactly the complete frames at the front of
  the buffered and new bytes, none lost, duplicated or reordered: a call returns \<open>gs\<close> and
  leaves the buffer \<open>b\<close> if and only if the bytes are the frames \<open>gs\<close> followed by \<open>b\<close>, and
  \<open>b\<close> holds no complete frame.\<close>
theorem framer_feed_exact:
  assumes "framer_ready f"
  shows "framer_feed f c = (Ok gs, f\<lparr>buf := b\<rparr>) \<longleftrightarrow>
    concat gs @ b = buf f @ c \<and> (\<forall>g \<in> set gs. is_frame (max_payload_size f) g) \<and>
    settled (max_payload_size f) b"
proof
  assume "framer_feed f c = (Ok gs, f\<lparr>buf := b\<rparr>)"
  then have "feed_loop (max_payload_size f) (buf f @ c) [] = (Ok gs, b)"
    using assms by (cases f) (auto simp: framer_feed_loop split: prod.splits)
  from feed_loop_sound [OF this] show "concat gs @ b = buf f @ c \<and>
    (\<forall>g \<in> set gs. is_frame (max_payload_size f) g) \<and> settled (max_payload_size f) b" by simp
next
  assume r: "concat gs @ b = buf f @ c \<and> (\<forall>g \<in> set gs. is_frame (max_payload_size f) g) \<and>
    settled (max_payload_size f) b"
  then have "feed_loop (max_payload_size f) (buf f @ c) [] = feed_loop (max_payload_size f) b gs"
    using feed_loop_frames [of gs "max_payload_size f" b "[]"] by simp
  also have "\<dots> = (Ok gs, b)"
    using r feed_loop_acc_results(1) [of "max_payload_size f" b "[]" b gs] by (simp add: settled_def)
  finally show "framer_feed f c = (Ok gs, f\<lparr>buf := b\<rparr>)"
    using assms by (simp add: framer_feed_loop)
qed

theorem framer_feed_exact_witness:
  "framer_feed \<lparr>max_payload_size = 8, buf = replicate 20 0\<rparr> (replicate 5 0)
     = (Ok [replicate 23 0], \<lparr>max_payload_size = 8, buf = replicate 2 0\<rparr>)"
proof -
  let ?f = "\<lparr>max_payload_size = 8, buf = replicate 20 (0 :: byte)\<rparr>"
  have "framer_ready ?f" by (simp add: framer_ready_def settled_def feed_loop_short HEADER_LEN_def)
  then have "framer_feed ?f (replicate 5 0) = (Ok [replicate 23 0], ?f\<lparr>buf := replicate 2 0\<rparr>)"
    by (subst framer_feed_exact)
      (simp_all add: is_frame_def settled_def feed_loop_short HEADER_LEN_def
        header_payload_size_def PAYLOAD_SIZE_OFFSET_def numeral_eq_Suc)
  then show ?thesis by simp
qed

text \<open>C26: the memory a connection can make the server hold back is bounded: after any call
  the buffer is shorter than a header plus the largest payload allowed.\<close>
theorem framer_buffer_bounded:
  "framer_ready f \<Longrightarrow> 0 < max_payload_size f \<Longrightarrow> framer_feed f c = (r, g) \<Longrightarrow>
   len (buf g) < int HEADER_LEN + max_payload_size f"
proof -
  assume a: "framer_ready f" "0 < max_payload_size f" "framer_feed f c = (r, g)"
  then have "framer_ready g" "max_payload_size g = max_payload_size f"
    using framer_feed_ready by (auto simp: framer_feed_def split: if_splits prod.splits)
  with a(2) show ?thesis using settled_length [of "max_payload_size g" "buf g"]
    by (simp add: framer_ready_def)
qed

theorem framer_buffer_bounded_witness:
  "len (buf \<lparr>max_payload_size = 8, buf = replicate 20 (0 :: byte)\<rparr>) < int HEADER_LEN + 8"
proof -
  have "framer_feed \<lparr>max_payload_size = 8, buf = []\<rparr> (replicate 20 0)
      = (Ok [], \<lparr>max_payload_size = 8, buf = replicate 20 0\<rparr>)"
    by (simp add: framer_feed_def feed_loop_short HEADER_LEN_def)
  from framer_buffer_bounded [OF _ _ this] show ?thesis by (simp add: framer_ready_def)
qed

text \<open>C27: \<open>feed\<close> raises exactly when, after some complete frames, a header announces more than
  \<open>max_payload_size\<close> bytes; it is then a \<open>ValueError\<close> and the buffer is empty, so a hostile
  header can neither stall the stream nor stay in memory.\<close>
theorem framer_rejects_oversized:
  assumes "framer_ready f"
  shows "framer_feed f c = (Raise e, g) \<longleftrightarrow> e = ValueError \<and> g = f\<lparr>buf := []\<rparr> \<and>
    (\<exists>gs b. buf f @ c = concat gs @ b \<and> (\<forall>h \<in> set gs. is_frame (max_payload_size f) h) \<and>
       HEADER_LEN \<le> length b \<and> max_payload_size f < header_payload_size b)"
proof -
  have "framer_feed f c = (Raise e, g) \<longleftrightarrow>
      (\<exists>b. feed_loop (max_payload_size f) (buf f @ c) [] = (Raise e, b) \<and> g = f\<lparr>buf := b\<rparr>)"
    using assms by (auto simp: framer_feed_loop split: prod.splits)
  then show ?thesis by (auto simp: feed_loop_raise_iff)
qed

theorem framer_rejects_oversized_witness:
  "framer_feed \<lparr>max_payload_size = 8, buf = []\<rparr> (replicate 19 0 @ [9, 0, 0, 0])
     = (Raise ValueError, \<lparr>max_payload_size = 8, buf = []\<rparr>)"
proof -
  let ?f = "\<lparr>max_payload_size = 8, buf = [] :: bytes\<rparr>"
  have "framer_ready ?f" by (simp add: framer_ready_def)
  moreover have "header_payload_size (replicate 19 0 @ [9, 0, 0, 0]) = 9"
    by (simp add: header_payload_size_def PAYLOAD_SIZE_OFFSET_def)
  ultimately show ?thesis
    by (subst framer_rejects_oversized)
      (auto intro!: exI [of _ "[] :: bytes list"] simp: HEADER_LEN_def)
qed

end
