(* ===== verification/Limiters.thy ===== *)
theory Limiters
  imports Prelude
begin

text \<open>
  The admission control of the server: \<open>server/src/connection_limiter.py\<close> (a global and a
  per-address bound on open connections) and \<open>server/src/upload_limiter.py\<close> (a bound on
  uploads that stream at the same time). Every method body runs under the limiter's own
  \<open>asyncio.Lock\<close> and contains no await point, so it is one step. Both implement the
  interface \<open>capped_slots\<close>, whose ledger theorem says that the counters equal the number of
  slots handed out and not yet given back, whatever the order of arrivals and departures.
\<close>

section \<open>The interface: slots handed out under a key\<close>

datatype 'k slot_event = Arrive 'k | Depart nat

text \<open>
  A server using such a limiter: the limiter's state and the keys of the holders. An arrival
  holds a slot if it is admitted; a departure gives back the slot of the holder that leaves.
\<close>

fun serve :: "('k \<Rightarrow> 's \<Rightarrow> bool \<times> 's) \<Rightarrow> ('k \<Rightarrow> 's \<Rightarrow> 's) \<Rightarrow> 's \<times> 'k list \<Rightarrow> 'k slot_event \<Rightarrow> 's \<times> 'k list" where
  "serve acquire release (s, hs) (Arrive k) =
     (case acquire k s of (admitted, s') \<Rightarrow> (s', if admitted then hs @ [k] else hs))"
| "serve acquire release (s, hs) (Depart i) =
     (if i < length hs then (release (hs ! i) s, take i hs @ drop (Suc i) hs) else (s, hs))"

lemma count_list_remove_nth:
  assumes "i < length hs"
  shows "int (count_list (take i hs @ drop (Suc i) hs) k) = int (count_list hs k) - (if k = hs ! i then 1 else 0)"
proof -
  have "count_list hs k = count_list (take i hs @ hs ! i # drop (Suc i) hs) k"
    using assms by (simp add: id_take_nth_drop [symmetric])
  then show ?thesis by (auto simp: count_list_append)
qed

lemma count_list_pos: "x \<in> set hs \<Longrightarrow> 0 < count_list hs x"
  by (simp add: count_list_0_iff zero_less_iff_neq_zero)

locale capped_slots =
  fixes acquire :: "'k \<Rightarrow> 's \<Rightarrow> bool \<times> 's"
    and release :: "'k \<Rightarrow> 's \<Rightarrow> 's"
    and held :: "'s \<Rightarrow> 'k \<Rightarrow> int"
    and total :: "'s \<Rightarrow> int"
    and ok :: "'s \<Rightarrow> bool"
    and cap :: int
    and key_cap :: int
  assumes acquire_admits: "ok s \<Longrightarrow> fst (acquire k s) \<longleftrightarrow> total s < cap \<and> held s k < key_cap"
    and acquire_refused: "ok s \<Longrightarrow> \<not> fst (acquire k s) \<Longrightarrow> snd (acquire k s) = s"
    and acquire_taken: "ok s \<Longrightarrow> fst (acquire k s) \<Longrightarrow>
      ok (snd (acquire k s)) \<and> total (snd (acquire k s)) = total s + 1 \<and>
      held (snd (acquire k s)) = (held s)(k := held s k + 1)"
    and release_given_back: "ok s \<Longrightarrow> 0 < held s k \<Longrightarrow>
      ok (release k s) \<and> total (release k s) = total s - 1 \<and>
      held (release k s) = (held s)(k := held s k - 1)"
begin

definition ledger :: "'s \<times> 'k list \<Rightarrow> bool" where
  "ledger sh \<longleftrightarrow> ok (fst sh) \<and> total (fst sh) = len (snd sh) \<and> len (snd sh) \<le> max 0 cap \<and>
     (\<forall>k. held (fst sh) k = int (count_list (snd sh) k) \<and> int (count_list (snd sh) k) \<le> max 0 key_cap)"

lemma ledger_arrive:
  assumes l: "ledger (s, hs)"
  shows "ledger (serve acquire release (s, hs) (Arrive k))"
proof (cases "fst (acquire k s)")
  case True
  have "ok s" and h: "\<forall>j. held s j = int (count_list hs j)" using l by (auto simp: ledger_def)
  then have "total s < cap \<and> held s k < key_cap" using True acquire_admits by blast
  with True acquire_taken [OF \<open>ok s\<close> True] l h show ?thesis
    by (auto simp: ledger_def count_list_append split: prod.splits)
next
  case False
  with l acquire_refused [of s k] show ?thesis by (auto simp: ledger_def split: prod.splits)
qed

lemma ledger_depart:
  assumes l: "ledger (s, hs)"
  shows "ledger (serve acquire release (s, hs) (Depart i))"
proof (cases "i < length hs")
  case True
  let ?hs = "take i hs @ drop (Suc i) hs"
  have ok: "ok s" and h: "\<forall>j. held s j = int (count_list hs j)" using l by (auto simp: ledger_def)
  have "0 < held s (hs ! i)" using True h count_list_pos [of "hs ! i" hs] by simp
  note r = release_given_back [OF ok this]
  have len: "int (length ?hs) = int (length hs) - 1" using True by simp
  have cnt: "int (count_list ?hs k) = int (count_list hs k) - (if k = hs ! i then 1 else 0)" for k
    by (rule count_list_remove_nth [OF True])
  have le: "int (count_list ?hs k) \<le> max 0 key_cap" for k
  proof -
    have "int (count_list hs k) \<le> max 0 key_cap" using l by (auto simp: ledger_def)
    with cnt [of k] show ?thesis by (auto split: if_splits)
  qed
  have "ledger (release (hs ! i) s, ?hs)"
    unfolding ledger_def fst_conv snd_conv using l r len cnt le h
    by (auto simp: ledger_def)
  with True show ?thesis by simp
next
  case False
  with l show ?thesis by simp
qed

theorem ledger_run: "ledger sh \<Longrightarrow> ledger (foldl (serve acquire release) sh es)"
proof (induction es arbitrary: sh)
  case (Cons e es)
  obtain s hs where sh: "sh = (s, hs)" by fastforce
  have "ledger (serve acquire release sh e)"
    using Cons.prems unfolding sh by (cases e) (auto intro: ledger_arrive ledger_depart simp del: serve.simps)
  then show ?case by (simp add: Cons.IH)
qed simp

end

section \<open>Connections\<close>

record connection_limiter =
  max_connections :: int
  max_connections_per_ip :: int
  active_total :: int
  active_by_ip :: "pystr \<rightharpoonup> int"

definition connection_limiter_init :: "int \<Rightarrow> int \<Rightarrow> connection_limiter res" where
  "connection_limiter_init m p =
     (if m \<le> 0 then Raise ValueError
      else if p \<le> 0 then Raise ValueError
      else if p > m then Raise ValueError
      else Ok \<lparr>max_connections = m, max_connections_per_ip = p, active_total = 0,
               active_by_ip = Map.empty\<rparr>)"

definition dict_get :: "('k \<rightharpoonup> 'v) \<Rightarrow> 'k \<Rightarrow> 'v \<Rightarrow> 'v" where
  "dict_get m k d = (case m k of None \<Rightarrow> d | Some v \<Rightarrow> v)"

definition connection_try_acquire ::
  "pystr \<Rightarrow> connection_limiter \<Rightarrow> (bool \<times> string option) \<times> connection_limiter" where
  "connection_try_acquire peer_ip l =
     (if active_total l \<ge> max_connections l then ((False, Some ''server_full''), l)
      else if dict_get (active_by_ip l) peer_ip 0 \<ge> max_connections_per_ip l
        then ((False, Some ''per_ip_limit''), l)
      else ((True, None),
            l\<lparr>active_total := active_total l + 1,
              active_by_ip := (active_by_ip l)(peer_ip \<mapsto> dict_get (active_by_ip l) peer_ip 0 + 1)\<rparr>))"

definition connection_release :: "pystr \<Rightarrow> connection_limiter \<Rightarrow> connection_limiter" where
  "connection_release peer_ip l =
     (let count = dict_get (active_by_ip l) peer_ip 0 in
      if count \<le> 0 then l
      else let l' = l\<lparr>active_total := active_total l - 1\<rparr> in
        if count = 1 then l'\<lparr>active_by_ip := (active_by_ip l)(peer_ip := None)\<rparr>
        else l'\<lparr>active_by_ip := (active_by_ip l)(peer_ip \<mapsto> count - 1)\<rparr>)"

definition connection_current_active :: "connection_limiter \<Rightarrow> int \<times> (pystr \<rightharpoonup> int)" where
  "connection_current_active l = (active_total l, active_by_ip l)"

text \<open>No address is kept with a count of zero: the table does not grow with past clients.\<close>

definition connection_ok :: "int \<Rightarrow> int \<Rightarrow> connection_limiter \<Rightarrow> bool" where
  "connection_ok m p l \<longleftrightarrow> max_connections l = m \<and> max_connections_per_ip l = p \<and>
     (\<forall>n \<in> ran (active_by_ip l). 0 < n)"

abbreviation connection_held :: "connection_limiter \<Rightarrow> pystr \<Rightarrow> int" where
  "connection_held l \<equiv> (\<lambda>ip. dict_get (active_by_ip l) ip 0)"

abbreviation connection_acquire :: "pystr \<Rightarrow> connection_limiter \<Rightarrow> bool \<times> connection_limiter" where
  "connection_acquire ip l \<equiv> (case connection_try_acquire ip l of ((b, _), l') \<Rightarrow> (b, l'))"

lemma ran_map_upd_subset: "ran (m(k \<mapsto> v)) \<subseteq> insert v (ran m)"
  by (auto simp: ran_def)

lemma ran_map_del_subset: "ran (m(k := None)) \<subseteq> ran m"
  by (auto simp: ran_def)

interpretation conn_slots: capped_slots connection_acquire connection_release
  connection_held active_total "connection_ok m p" m p for m p
proof unfold_locales
  fix s k assume ok: "connection_ok m p s"
  have nonneg: "0 \<le> dict_get (active_by_ip s) k 0"
    using ok by (auto simp: connection_ok_def dict_get_def ran_def split: option.splits)
  show "fst (connection_acquire k s) \<longleftrightarrow> active_total s < m \<and> dict_get (active_by_ip s) k 0 < p"
    using ok by (auto simp: connection_try_acquire_def connection_ok_def)
  show "snd (connection_acquire k s) = s" if "\<not> fst (connection_acquire k s)"
    using that by (auto simp: connection_try_acquire_def split: if_splits)
  show "connection_ok m p (snd (connection_acquire k s)) \<and>
      active_total (snd (connection_acquire k s)) = active_total s + 1 \<and>
      connection_held (snd (connection_acquire k s)) = (connection_held s)(k := dict_get (active_by_ip s) k 0 + 1)"
    if "fst (connection_acquire k s)"
    using that ok nonneg ran_map_upd_subset [of "active_by_ip s" k "dict_get (active_by_ip s) k 0 + 1"]
    by (auto simp: connection_try_acquire_def connection_ok_def dict_get_def fun_eq_iff split: if_splits)
  show "connection_ok m p (connection_release k s) \<and>
      active_total (connection_release k s) = active_total s - 1 \<and>
      connection_held (connection_release k s) = (connection_held s)(k := dict_get (active_by_ip s) k 0 - 1)"
    if "0 < dict_get (active_by_ip s) k 0"
    using that ok ran_map_upd_subset [of "active_by_ip s" k "dict_get (active_by_ip s) k 0 - 1"]
      ran_map_del_subset [of "active_by_ip s" k]
    by (auto simp: connection_release_def connection_ok_def dict_get_def fun_eq_iff Let_def)
qed

section \<open>Uploads\<close>

record upload_limiter =
  max_concurrent_uploads :: int
  active_uploads :: int

definition upload_limiter_init :: "int \<Rightarrow> upload_limiter res" where
  "upload_limiter_init m =
     (if m \<le> 0 then Raise ValueError else Ok \<lparr>max_concurrent_uploads = m, active_uploads = 0\<rparr>)"

definition upload_try_acquire :: "upload_limiter \<Rightarrow> bool \<times> upload_limiter" where
  "upload_try_acquire l =
     (if active_uploads l \<ge> max_concurrent_uploads l then (False, l)
      else (True, l\<lparr>active_uploads := active_uploads l + 1\<rparr>))"

definition upload_release :: "upload_limiter \<Rightarrow> upload_limiter" where
  "upload_release l =
     (if active_uploads l > 0 then l\<lparr>active_uploads := active_uploads l - 1\<rparr> else l)"

definition upload_current_active :: "upload_limiter \<Rightarrow> int" where
  "upload_current_active l = active_uploads l"

interpretation upload_slots: capped_slots "\<lambda>_ :: unit. upload_try_acquire" "\<lambda>_. upload_release"
  "\<lambda>l _. active_uploads l" active_uploads "\<lambda>l. max_concurrent_uploads l = m" m m for m
  by unfold_locales (auto simp: upload_try_acquire_def upload_release_def)

lemma conn_acquire_release:
  assumes "connection_ok m p l" and "fst (connection_acquire ip l)"
  shows "connection_release ip (snd (connection_acquire ip l)) = l"
proof -
  have pos: "active_by_ip l ip = Some n \<Longrightarrow> 0 < n" for n
    using assms(1) by (auto simp: connection_ok_def ran_def)
  show ?thesis
    using assms(2) pos
    by (cases "active_by_ip l ip")
      (auto simp: connection_try_acquire_def connection_release_def dict_get_def Let_def fun_upd_idem split: if_splits)
qed

section \<open>Properties\<close>

text \<open>After any sequence of connection attempts and departures the limiter's counters
  are exact: \<open>active_total\<close> is the number of open connections and never exceeds
  \<open>max_connections\<close>; the count under an address is the number of its open connections and
  never exceeds \<open>max_connections_per_ip\<close>; the table holds exactly the addresses that have
  an open connection.\<close>
lemma connection_counts_exact:
  assumes "connection_limiter_init m p = Ok l0"
    and "foldl (serve connection_acquire connection_release) (l0, []) events = (l, open_conns)"
  shows "active_total l = len open_conns \<and> len open_conns \<le> m \<and>
    (\<forall>ip. dict_get (active_by_ip l) ip 0 = int (count_list open_conns ip) \<and>
          int (count_list open_conns ip) \<le> p) \<and>
    dom (active_by_ip l) = set open_conns"
proof -
  have "0 < m" "0 < p" and l0: "l0 = \<lparr>max_connections = m, max_connections_per_ip = p,
      active_total = 0, active_by_ip = Map.empty\<rparr>"
    using assms(1) by (auto simp: connection_limiter_init_def split: if_splits)
  have i: "conn_slots.ledger m p (l0, [])"
    unfolding conn_slots.ledger_def l0 by (simp add: connection_ok_def dict_get_def)
  have led: "conn_slots.ledger m p (l, open_conns)"
    using conn_slots.ledger_run [OF i, of events] assms(2) by simp
  have dom_pos: "(ip \<in> dom (active_by_ip l)) = (0 < dict_get (active_by_ip l) ip 0)" for ip
  proof -
    have "connection_ok m p l" using led by (simp add: conn_slots.ledger_def)
    then show ?thesis by (auto simp: connection_ok_def dict_get_def ran_def split: option.splits)
  qed
  have mem: "(0 < int (count_list open_conns ip)) = (ip \<in> set open_conns)" for ip
    using count_list_0_iff [of open_conns ip] by (simp add: zero_less_iff_neq_zero)
  have "dom (active_by_ip l) = set open_conns"
  proof (rule set_eqI)
    fix ip
    have "dict_get (active_by_ip l) ip 0 = int (count_list open_conns ip)"
      using led by (simp add: conn_slots.ledger_def)
    then show "ip \<in> dom (active_by_ip l) \<longleftrightarrow> ip \<in> set open_conns"
      using dom_pos [of ip] mem [of ip] by simp
  qed
  with led \<open>0 < m\<close> \<open>0 < p\<close> show ?thesis by (simp add: conn_slots.ledger_def)
qed

text \<open>\<open>try_acquire\<close> admits a connection exactly when both bounds leave room, names the
  bound that refused it otherwise, and changes nothing on a refusal; a \<open>release\<close> after an
  admission restores the limiter, and a \<open>release\<close> for an address that holds nothing is
  ignored.\<close>
lemma connection_admission:
  assumes "connection_ok m p l"
  shows "connection_try_acquire ip l =
      (if m \<le> active_total l then ((False, Some ''server_full''), l)
       else if p \<le> dict_get (active_by_ip l) ip 0 then ((False, Some ''per_ip_limit''), l)
       else ((True, None), snd (connection_acquire ip l)))
    \<and> (fst (connection_acquire ip l) \<longrightarrow> connection_release ip (snd (connection_acquire ip l)) = l)
    \<and> (ip \<notin> dom (active_by_ip l) \<longrightarrow> connection_release ip l = l)"
proof -
  have pos: "active_by_ip l ip = Some n \<Longrightarrow> 0 < n" for n
    using assms by (auto simp: connection_ok_def ran_def)
  show ?thesis
    using assms pos
    by (cases "active_by_ip l ip")
      (auto simp: connection_try_acquire_def connection_release_def connection_ok_def dict_get_def
        Let_def domIff fun_upd_idem)
qed

text \<open>After any sequence of upload starts and ends \<open>active_uploads\<close> is the number of uploads
  that hold a slot, never negative and never above \<open>max_concurrent_uploads\<close>.\<close>
lemma upload_counts_exact:
  assumes "upload_limiter_init m = Ok l0"
    and "foldl (serve (\<lambda>_. upload_try_acquire) (\<lambda>_. upload_release)) (l0, []) events = (l, holders :: unit list)"
  shows "active_uploads l = len holders \<and> len holders \<le> m \<and> max_concurrent_uploads l = m"
proof -
  have "0 < m" and i: "upload_slots.ledger m (l0, [])"
    using assms(1) by (auto simp: upload_limiter_init_def upload_slots.ledger_def split: if_splits)
  from upload_slots.ledger_run [OF i, of events] assms(2) \<open>0 < m\<close> show ?thesis
    by (simp add: upload_slots.ledger_def)
qed

end
