(* ===== verification/Metrics.thy ===== *)
theory Metrics
  imports Prelude
begin

text \<open>
  \<open>server/src/runtime_metrics.py\<close>: the counters the server publishes. Every method runs under
  the object's lock without an await point and is one step.
\<close>

record runtime_metrics =
  m_active_connections :: int
  m_active_uploads :: int
  m_rejected_connections :: int
  m_rejected_uploads :: int
  m_responses_1607 :: int
  m_rate_limited_requests :: int

definition runtime_metrics_init :: runtime_metrics where
  "runtime_metrics_init = \<lparr>m_active_connections = 0, m_active_uploads = 0, m_rejected_connections = 0,
     m_rejected_uploads = 0, m_responses_1607 = 0, m_rate_limited_requests = 0\<rparr>"

definition set_active_connections :: "int \<Rightarrow> runtime_metrics \<Rightarrow> runtime_metrics" where
  "set_active_connections v m = m\<lparr>m_active_connections := v\<rparr>"

definition set_active_uploads :: "int \<Rightarrow> runtime_metrics \<Rightarrow> runtime_metrics" where
  "set_active_uploads v m = m\<lparr>m_active_uploads := v\<rparr>"

definition inc_rejected_connections :: "runtime_metrics \<Rightarrow> runtime_metrics" where
  "inc_rejected_connections m = m\<lparr>m_rejected_connections := m_rejected_connections m + 1\<rparr>"

definition inc_rejected_uploads :: "runtime_metrics \<Rightarrow> runtime_metrics" where
  "inc_rejected_uploads m = m\<lparr>m_rejected_uploads := m_rejected_uploads m + 1\<rparr>"

definition inc_responses_1607 :: "runtime_metrics \<Rightarrow> runtime_metrics" where
  "inc_responses_1607 m = m\<lparr>m_responses_1607 := m_responses_1607 m + 1\<rparr>"

definition inc_rate_limited_requests :: "runtime_metrics \<Rightarrow> runtime_metrics" where
  "inc_rate_limited_requests m = m\<lparr>m_rate_limited_requests := m_rate_limited_requests m + 1\<rparr>"

text \<open>The two gauges; everything else only counts upwards.\<close>

definition gauges :: "runtime_metrics \<Rightarrow> int \<times> int" where
  "gauges m = (m_active_connections m, m_active_uploads m)"

lemma gauges_inc [simp]:
  "gauges (inc_rejected_connections m) = gauges m" "gauges (inc_rejected_uploads m) = gauges m"
  "gauges (inc_responses_1607 m) = gauges m" "gauges (inc_rate_limited_requests m) = gauges m"
  by (simp_all add: gauges_def inc_rejected_connections_def inc_rejected_uploads_def inc_responses_1607_def
      inc_rate_limited_requests_def)

lemma gauges_set [simp]:
  "gauges (set_active_connections n m) = (n, snd (gauges m))" "gauges (set_active_uploads n m) = (fst (gauges m), n)"
  by (simp_all add: gauges_def set_active_connections_def set_active_uploads_def)

end
