(* ===== verification/Store.thy ===== *)
theory Store
  imports Text_Codec
begin

text \<open>
  \<open>server/src/store.py\<close>: the SQLite tables \<open>Clients\<close> and \<open>Uploads\<close> and the in-memory index
  over \<open>Clients\<close>. The two dictionaries of the index hold references to shared, mutable
  \<open>ClientRecord\<close> objects, so the model keeps a heap of records: a write through one
  dictionary is seen through the other. The outcome of a statement and of its \<open>commit\<close> is
  an argument of every operation: SQLite may refuse either.

  The invariant \<open>store_inv\<close> says that the index answers what the table holds, that ids and
  usernames are unique and that every upload belongs to a client. The interface
  \<open>client_directory\<close> is what the request handlers rely on; the store implements it.
\<close>

section \<open>State\<close>

record client_record =
  client_id_hex :: pystr
  username :: pystr
  public_key_der :: "bytes option"
  aes_key_b64 :: "pystr option"
  created_at :: pystr
  last_seen :: pystr

record upload_row =
  up_id :: int
  up_client_id_hex :: pystr
  up_file_name :: pystr
  up_stored_path :: "pystr option"
  up_orig_file_size :: int
  up_cipher_size :: int
  up_server_crc32 :: "int option"
  up_status :: string
  up_failure_reason :: "string option"
  up_created_at :: pystr
  up_completed_at :: "pystr option"

text \<open>The keys of \<open>clients_recent_log\<close> are client ids (bytes) and, before registration, names.\<close>

datatype log_key = ById bytes | ByName pystr

type_synonym log_entry = "string \<times> pystr"

record store =
  sqlite_connected :: bool
  clients_table :: "client_record list"
  uploads_table :: "upload_row list"
  heap :: "nat \<rightharpoonup> client_record"
  next_ref :: nat
  clients_by_id :: "pystr \<rightharpoonup> nat"
  clients_by_username :: "pystr \<rightharpoonup> nat"
  clients_recent_log :: "log_key \<rightharpoonup> log_entry list"

definition store_new :: store where
  "store_new = \<lparr>sqlite_connected = False, clients_table = [], uploads_table = [], heap = Map.empty,
     next_ref = 0, clients_by_id = Map.empty, clients_by_username = Map.empty,
     clients_recent_log = Map.empty\<rparr>"

text \<open>The surrogate key \<open>id\<close> of \<open>Clients\<close>, which no statement reads, is left out of its rows.\<close>

datatype sql_outcome = SqlOk | ExecFails | CommitFails

section \<open>The index\<close>

definition index_put :: "client_record \<Rightarrow> store \<Rightarrow> store" where
  "index_put rec st =
     st\<lparr>heap := (heap st)(next_ref st \<mapsto> rec), next_ref := Suc (next_ref st),
        clients_by_id := (clients_by_id st)(client_id_hex rec \<mapsto> next_ref st),
        clients_by_username := (clients_by_username st)(username rec \<mapsto> next_ref st)\<rparr>"

definition load_clients_index :: "store \<Rightarrow> store" where
  "load_clients_index st =
     fold index_put (clients_table st) (st\<lparr>clients_by_id := Map.empty, clients_by_username := Map.empty\<rparr>)"

definition index_record :: "store \<Rightarrow> (pystr \<rightharpoonup> nat) \<Rightarrow> pystr \<Rightarrow> client_record option" where
  "index_record st dict k = (case dict k of None \<Rightarrow> None | Some ref \<Rightarrow> heap st ref)"

section \<open>Opening and closing\<close>

text \<open>
  \<open>initialize\<close>: the directory of the database may not be creatable, the connection and the
  schema statements may fail, or reading the \<open>Clients\<close> table may. \<open>CREATE TABLE IF NOT EXISTS\<close>
  leaves existing tables as they are.
\<close>

datatype init_outcome = InitOk | MkdirFails | ConnectFails | LoadFails

definition store_initialize :: "init_outcome \<Rightarrow> store \<Rightarrow> bool res \<times> store" where
  "store_initialize out st = (case out of
      InitOk \<Rightarrow> (Ok True, load_clients_index (st\<lparr>sqlite_connected := True\<rparr>))
    | MkdirFails \<Rightarrow> (Raise OSError, st)
    | ConnectFails \<Rightarrow> (Ok False, st\<lparr>sqlite_connected := False\<rparr>)
    | LoadFails \<Rightarrow> (Ok False, st\<lparr>sqlite_connected := False, clients_by_id := Map.empty,
                                clients_by_username := Map.empty\<rparr>))"

definition store_close :: "sql_outcome \<Rightarrow> store \<Rightarrow> unit res \<times> store" where
  "store_close out st =
     (if \<not> sqlite_connected st then (Ok (), st)
      else if out \<noteq> SqlOk then (Ok (), st)
      else (Ok (), st\<lparr>sqlite_connected := False, clients_by_id := Map.empty, clients_by_username := Map.empty\<rparr>))"

section \<open>Clients\<close>

text \<open>SQLite's choice for an \<open>INTEGER PRIMARY KEY\<close> that is not given.\<close>

definition next_rowid :: "int list \<Rightarrow> int" where
  "next_rowid ids = (if ids = [] then 1 else Max (set ids) + 1)"

definition create_client :: "sql_outcome \<Rightarrow> bytes \<Rightarrow> pystr \<Rightarrow> pystr \<Rightarrow> store \<Rightarrow> client_record option res \<times> store" where
  "create_client out uuid now name st =
     (if \<not> sqlite_connected st then (Ok None, st)
      else if out = ExecFails then (Raise SqliteError, st)
      else let rec = \<lparr>client_id_hex = bytes_hex uuid, username = name, public_key_der = None,
                      aes_key_b64 = None, created_at = now, last_seen = now\<rparr> in
        if client_id_hex rec \<in> client_id_hex ` set (clients_table st) \<or> name \<in> username ` set (clients_table st)
        then (Raise IntegrityError, st)
        else let st' = st\<lparr>clients_table := clients_table st @ [rec]\<rparr> in
          if out = CommitFails then (Raise SqliteError, st')
          else (Ok (Some rec), index_put rec st'))"

definition get_client_by_username :: "pystr \<Rightarrow> store \<Rightarrow> client_record option" where
  "get_client_by_username name st =
     (if \<not> sqlite_connected st then None else index_record st (clients_by_username st) name)"

definition get_client_by_id :: "pystr \<Rightarrow> store \<Rightarrow> client_record option" where
  "get_client_by_id cid st =
     (if \<not> sqlite_connected st then None else index_record st (clients_by_id st) cid)"

definition client_exists_by_username :: "pystr \<Rightarrow> store \<Rightarrow> bool" where
  "client_exists_by_username name st \<longleftrightarrow> sqlite_connected st \<and> name \<in> dom (clients_by_username st)"

definition client_exists_by_id :: "pystr \<Rightarrow> store \<Rightarrow> bool" where
  "client_exists_by_id cid st \<longleftrightarrow> sqlite_connected st \<and> cid \<in> dom (clients_by_id st)"

text \<open>
  The common body of the three \<open>UPDATE Clients SET ... WHERE client_id_hex = ?\<close> methods: the
  row, the commit, the row count, then the attribute of the indexed object.
\<close>

definition update_client :: "sql_outcome \<Rightarrow> pystr \<Rightarrow> (client_record \<Rightarrow> client_record) \<Rightarrow> store \<Rightarrow> bool res \<times> store" where
  "update_client out cid f st =
     (if \<not> sqlite_connected st then (Ok False, st)
      else if out = ExecFails then (Raise SqliteError, st)
      else let hit = (\<lambda>row. client_id_hex row = cid);
               st' = st\<lparr>clients_table := map (\<lambda>row. if hit row then f row else row) (clients_table st)\<rparr> in
        if out = CommitFails then (Raise SqliteError, st')
        else if filter hit (clients_table st) = [] then (Ok False, st')
        else case clients_by_id st cid of
            None \<Rightarrow> (Raise RuntimeError, st')
          | Some ref \<Rightarrow> (Ok True, st'\<lparr>heap := (heap st)(ref := map_option f (heap st ref))\<rparr>))"

definition set_client_public_key :: "sql_outcome \<Rightarrow> pystr \<Rightarrow> bytes \<Rightarrow> store \<Rightarrow> bool res \<times> store" where
  "set_client_public_key out cid der = update_client out cid (\<lambda>r. r\<lparr>public_key_der := Some der\<rparr>)"

definition set_client_aes_key :: "sql_outcome \<Rightarrow> pystr \<Rightarrow> pystr \<Rightarrow> store \<Rightarrow> bool res \<times> store" where
  "set_client_aes_key out cid key = update_client out cid (\<lambda>r. r\<lparr>aes_key_b64 := Some key\<rparr>)"

definition touch_client_last_seen :: "sql_outcome \<Rightarrow> pystr \<Rightarrow> pystr \<Rightarrow> store \<Rightarrow> bool res \<times> store" where
  "touch_client_last_seen out now cid = update_client out cid (\<lambda>r. r\<lparr>last_seen := now\<rparr>)"

section \<open>Uploads\<close>

definition create_upload_record ::
  "sql_outcome \<Rightarrow> pystr \<Rightarrow> pystr \<Rightarrow> pystr \<Rightarrow> int \<Rightarrow> int \<Rightarrow> string \<Rightarrow> store \<Rightarrow> int option res \<times> store" where
  "create_upload_record out now cid file_name orig_size cipher_size status st =
     (if \<not> sqlite_connected st then (Ok None, st)
      else if out = ExecFails then (Raise SqliteError, st)
      else if cid \<notin> client_id_hex ` set (clients_table st) then (Raise IntegrityError, st)
      else let i = next_rowid (map up_id (uploads_table st));
               row = \<lparr>up_id = i, up_client_id_hex = cid, up_file_name = file_name, up_stored_path = None,
                      up_orig_file_size = orig_size, up_cipher_size = cipher_size, up_server_crc32 = None,
                      up_status = status, up_failure_reason = None, up_created_at = now,
                      up_completed_at = None\<rparr>;
               st' = st\<lparr>uploads_table := uploads_table st @ [row]\<rparr> in
        if out = CommitFails then (Raise SqliteError, st') else (Ok (Some i), st'))"

text \<open>\<open>UPDATE Uploads SET ... WHERE id = ?\<close>; a Python \<open>None\<close> is SQL's \<open>NULL\<close>, which equals no id.\<close>

definition update_upload :: "sql_outcome \<Rightarrow> int option \<Rightarrow> (upload_row \<Rightarrow> upload_row) \<Rightarrow> store \<Rightarrow> bool res \<times> store" where
  "update_upload out upload_id f st =
     (if \<not> sqlite_connected st then (Ok False, st)
      else if out = ExecFails then (Raise SqliteError, st)
      else let hit = (\<lambda>row. Some (up_id row) = upload_id);
               st' = st\<lparr>uploads_table := map (\<lambda>row. if hit row then f row else row) (uploads_table st)\<rparr> in
        if out = CommitFails then (Raise SqliteError, st')
        else (Ok (filter hit (uploads_table st) \<noteq> []), st'))"

definition complete_upload_record :: "sql_outcome \<Rightarrow> int option \<Rightarrow> pystr \<Rightarrow> int \<Rightarrow> pystr \<Rightarrow> store \<Rightarrow> bool res \<times> store" where
  "complete_upload_record out upload_id path crc completed_at =
     update_upload out upload_id (\<lambda>row. row\<lparr>up_status := ''completed'', up_completed_at := Some completed_at,
       up_stored_path := Some path, up_server_crc32 := Some crc\<rparr>)"

definition fail_upload_record :: "sql_outcome \<Rightarrow> int option \<Rightarrow> string \<Rightarrow> string \<Rightarrow> pystr \<Rightarrow> store \<Rightarrow> bool res \<times> store" where
  "fail_upload_record out upload_id reason status completed_at =
     update_upload out upload_id (\<lambda>row. row\<lparr>up_status := status, up_completed_at := Some completed_at,
       up_failure_reason := Some reason\<rparr>)"

definition get_client_uploads :: "pystr \<Rightarrow> store \<Rightarrow> upload_row list option" where
  "get_client_uploads cid st =
     (if \<not> sqlite_connected st then None
      else Some (rev (sort_key up_id (filter (\<lambda>u. up_client_id_hex u = cid) (uploads_table st)))))"

section \<open>The recent-activity log\<close>

text \<open>\<open>clients_recent_log[k].append(e)\<close> on a \<open>defaultdict(list)\<close>.\<close>

definition log_append :: "log_key \<Rightarrow> log_entry \<Rightarrow> store \<Rightarrow> store" where
  "log_append k e st = st\<lparr>clients_recent_log := (clients_recent_log st)
     (k \<mapsto> (case clients_recent_log st k of None \<Rightarrow> [e] | Some es \<Rightarrow> es @ [e]))\<rparr>"

section \<open>The invariant\<close>

definition db_ok :: "store \<Rightarrow> bool" where
  "db_ok st \<longleftrightarrow> distinct (map client_id_hex (clients_table st)) \<and> distinct (map username (clients_table st)) \<and>
     distinct (map up_id (uploads_table st)) \<and>
     up_client_id_hex ` set (uploads_table st) \<subseteq> client_id_hex ` set (clients_table st)"

text \<open>\<open>indexed T st\<close>: the index of \<open>st\<close> is the index of the rows \<open>T\<close>.\<close>

definition indexed :: "client_record list \<Rightarrow> store \<Rightarrow> bool" where
  "indexed T st \<longleftrightarrow>
     (\<forall>r \<in> set T. \<exists>ref < next_ref st. clients_by_id st (client_id_hex r) = Some ref \<and>
        clients_by_username st (username r) = Some ref \<and> heap st ref = Some r) \<and>
     dom (clients_by_id st) = client_id_hex ` set T \<and>
     dom (clients_by_username st) = username ` set T"

definition store_inv :: "store \<Rightarrow> bool" where
  "store_inv st \<longleftrightarrow> db_ok st \<and> (sqlite_connected st \<longrightarrow> indexed (clients_table st) st)"

lemma indexedD:
  "indexed T st \<Longrightarrow> r \<in> set T \<Longrightarrow>
    \<exists>ref < next_ref st. clients_by_id st (client_id_hex r) = Some ref \<and>
      clients_by_username st (username r) = Some ref \<and> heap st ref = Some r"
  by (simp add: indexed_def)

lemma indexed_id:
  assumes "indexed T st" and "clients_by_id st cid = Some ref"
  obtains r where "r \<in> set T" "client_id_hex r = cid" "heap st ref = Some r" "ref < next_ref st"
    "clients_by_username st (username r) = Some ref"
proof -
  have "cid \<in> client_id_hex ` set T" using assms unfolding indexed_def by blast
  then obtain r where r: "r \<in> set T" "client_id_hex r = cid" by blast
  with indexedD [OF assms(1) r(1)] assms(2) that show thesis by auto
qed

lemma indexed_username:
  assumes "indexed T st" and "clients_by_username st n = Some ref"
  obtains r where "r \<in> set T" "username r = n" "heap st ref = Some r" "ref < next_ref st"
    "clients_by_id st (client_id_hex r) = Some ref"
proof -
  have "n \<in> username ` set T" using assms unfolding indexed_def by blast
  then obtain r where r: "r \<in> set T" "username r = n" by blast
  with indexedD [OF assms(1) r(1)] assms(2) that show thesis by auto
qed

lemma row_unique:
  "db_ok st \<Longrightarrow> r \<in> set (clients_table st) \<Longrightarrow> r' \<in> set (clients_table st) \<Longrightarrow>
    client_id_hex r = client_id_hex r' \<or> username r = username r' \<Longrightarrow> r = r'"
  unfolding db_ok_def by (metis distinct_map inj_on_def)

text \<open>The lookups of the index are the lookups of the table.\<close>

lemma get_client_by_id_iff:
  assumes "store_inv st" and "sqlite_connected st"
  shows "get_client_by_id cid st = Some r \<longleftrightarrow> r \<in> set (clients_table st) \<and> client_id_hex r = cid"
proof -
  have ix: "indexed (clients_table st) st" using assms by (simp add: store_inv_def)
  show ?thesis
    using assms(2) indexedD [OF ix, of r]
    by (auto simp: get_client_by_id_def index_record_def split: option.splits elim: indexed_id [OF ix])
qed

lemma get_client_by_username_iff:
  assumes "store_inv st" and "sqlite_connected st"
  shows "get_client_by_username n st = Some r \<longleftrightarrow> r \<in> set (clients_table st) \<and> username r = n"
proof -
  have ix: "indexed (clients_table st) st" using assms by (simp add: store_inv_def)
  show ?thesis
    using assms(2) indexedD [OF ix, of r]
    by (auto simp: get_client_by_username_def index_record_def split: option.splits elim: indexed_username [OF ix])
qed

lemma client_exists_by_username_iff:
  "store_inv st \<Longrightarrow> sqlite_connected st \<Longrightarrow>
    client_exists_by_username n st \<longleftrightarrow> (\<exists>r. get_client_by_username n st = Some r)"
  by (auto simp: get_client_by_username_iff client_exists_by_username_def store_inv_def indexed_def)

lemma client_exists_by_id_iff:
  "store_inv st \<Longrightarrow> sqlite_connected st \<Longrightarrow>
    client_exists_by_id n st \<longleftrightarrow> (\<exists>r. get_client_by_id n st = Some r)"
  by (auto simp: get_client_by_id_iff client_exists_by_id_def store_inv_def indexed_def)

section \<open>Every operation keeps the invariant\<close>

lemma indexed_put:
  assumes "indexed T st" and "client_id_hex r \<notin> client_id_hex ` set T" and "username r \<notin> username ` set T"
  shows "indexed (T @ [r]) (index_put r st)"
proof -
  have "\<exists>ref < Suc (next_ref st). ((clients_by_id st)(client_id_hex r \<mapsto> next_ref st)) (client_id_hex q) = Some ref \<and>
        ((clients_by_username st)(username r \<mapsto> next_ref st)) (username q) = Some ref \<and>
        ((heap st)(next_ref st \<mapsto> r)) ref = Some q" if "q \<in> set T" for q
  proof -
    from indexedD [OF assms(1) that] obtain ref where ref: "ref < next_ref st"
        "clients_by_id st (client_id_hex q) = Some ref"
        "clients_by_username st (username q) = Some ref" "heap st ref = Some q"
      by blast
    moreover have "client_id_hex q \<noteq> client_id_hex r" "username q \<noteq> username r"
      using assms(2,3) that by (auto simp: image_iff)
    ultimately show ?thesis by (intro exI [of _ ref]) simp
  qed
  with assms(1) show ?thesis by (simp add: indexed_def index_put_def)
qed

lemma index_put_frame [simp]:
  "clients_table (index_put r st) = clients_table st"
  "uploads_table (index_put r st) = uploads_table st"
  "sqlite_connected (index_put r st) = sqlite_connected st"
  "clients_recent_log (index_put r st) = clients_recent_log st"
  by (simp_all add: index_put_def)

lemma indexed_fold_put:
  "indexed T st \<Longrightarrow> distinct (map client_id_hex (T @ rs)) \<Longrightarrow> distinct (map username (T @ rs)) \<Longrightarrow>
    indexed (T @ rs) (fold index_put rs st)"
proof (induction rs arbitrary: T st)
  case (Cons r rs)
  have "indexed (T @ [r]) (index_put r st)" by (rule indexed_put) (use Cons.prems in auto)
  then have "indexed ((T @ [r]) @ rs) (fold index_put rs (index_put r st))"
    by (rule Cons.IH) (use Cons.prems in auto)
  then show ?case by simp
qed simp

lemma fold_index_put_frame [simp]:
  "clients_table (fold index_put rs st) = clients_table st"
  "uploads_table (fold index_put rs st) = uploads_table st"
  "sqlite_connected (fold index_put rs st) = sqlite_connected st"
  "clients_recent_log (fold index_put rs st) = clients_recent_log st"
  by (induction rs arbitrary: st) simp_all

lemma load_clients_index_inv:
  assumes "db_ok st"
  shows "store_inv (load_clients_index st)"
proof -
  let ?st = "st\<lparr>clients_by_id := Map.empty, clients_by_username := Map.empty\<rparr>"
  have "indexed [] ?st" by (simp add: indexed_def)
  then have "indexed ([] @ clients_table st) (fold index_put (clients_table st) ?st)"
    by (rule indexed_fold_put) (use assms in \<open>auto simp: db_ok_def\<close>)
  with assms show ?thesis by (simp add: store_inv_def db_ok_def load_clients_index_def)
qed

lemma store_initialize_inv: "store_inv st \<Longrightarrow> store_inv (snd (store_initialize out st))"
  using load_clients_index_inv [of "st\<lparr>sqlite_connected := True\<rparr>"]
  by (cases out) (auto simp: store_initialize_def store_inv_def db_ok_def)

lemma store_close_inv: "store_inv st \<Longrightarrow> store_inv (snd (store_close out st))"
  by (auto simp: store_close_def store_inv_def db_ok_def)

lemma create_client_inv:
  assumes "store_inv st" and "out \<noteq> CommitFails"
  shows "store_inv (snd (create_client out uuid now name st))"
proof (cases "sqlite_connected st \<and> out \<noteq> ExecFails \<and>
    bytes_hex uuid \<notin> client_id_hex ` set (clients_table st) \<and> name \<notin> username ` set (clients_table st)")
  case True
  let ?r = "\<lparr>client_id_hex = bytes_hex uuid, username = name, public_key_der = None,
             aes_key_b64 = None, created_at = now, last_seen = now\<rparr>"
  let ?st = "st\<lparr>clients_table := clients_table st @ [?r]\<rparr>"
  have "indexed (clients_table st) ?st" using assms True by (simp add: store_inv_def indexed_def)
  then have "indexed (clients_table st @ [?r]) (index_put ?r ?st)" by (rule indexed_put) (use True in auto)
  moreover have "db_ok (index_put ?r ?st)" using assms True by (auto simp: store_inv_def db_ok_def)
  ultimately show ?thesis using True assms(2) by (simp add: create_client_def store_inv_def Let_def)
next
  case False
  with assms show ?thesis by (auto simp: create_client_def Let_def)
qed

text \<open>An attribute update of a record that leaves its two keys alone.\<close>

definition keeps_keys :: "(client_record \<Rightarrow> client_record) \<Rightarrow> bool" where
  "keeps_keys f \<longleftrightarrow> (\<forall>r. client_id_hex (f r) = client_id_hex r \<and> username (f r) = username r)"

lemma keeps_keys_simps [simp]:
  "keeps_keys (\<lambda>r. r\<lparr>public_key_der := d\<rparr>)" "keeps_keys (\<lambda>r. r\<lparr>aes_key_b64 := k\<rparr>)"
  "keeps_keys (\<lambda>r. r\<lparr>last_seen := n\<rparr>)"
  by (simp_all add: keeps_keys_def)

definition upd_row :: "pystr \<Rightarrow> (client_record \<Rightarrow> client_record) \<Rightarrow> client_record \<Rightarrow> client_record" where
  "upd_row cid f r = (if client_id_hex r = cid then f r else r)"

lemma upd_row_keys [simp]:
  "keeps_keys f \<Longrightarrow> client_id_hex (upd_row cid f r) = client_id_hex r"
  "keeps_keys f \<Longrightarrow> username (upd_row cid f r) = username r"
  by (simp_all add: upd_row_def keeps_keys_def)

lemma upd_row_images [simp]:
  "keeps_keys f \<Longrightarrow> client_id_hex ` upd_row cid f ` S = client_id_hex ` S"
  "keeps_keys f \<Longrightarrow> username ` upd_row cid f ` S = username ` S"
  by (auto simp: image_iff)

lemma map_upd_row_keys [simp]:
  "keeps_keys f \<Longrightarrow> map client_id_hex (map (upd_row cid f) T) = map client_id_hex T"
  "keeps_keys f \<Longrightarrow> map username (map (upd_row cid f) T) = map username T"
  by simp_all

lemma indexed_update:
  assumes ix: "indexed T st" and f: "keeps_keys f" and ref: "clients_by_id st cid = Some ref"
  shows "indexed (map (upd_row cid f) T) (st\<lparr>heap := (heap st)(ref := map_option f (heap st ref))\<rparr>)"
proof -
  obtain q where q: "q \<in> set T" "client_id_hex q = cid" "heap st ref = Some q"
    using indexed_id [OF ix ref] by metis
  have "\<exists>n < next_ref st. clients_by_id st (client_id_hex r) = Some n \<and>
      clients_by_username st (username r) = Some n \<and>
      ((heap st)(ref := map_option f (heap st ref))) n = Some (upd_row cid f r)" if "r \<in> set T" for r
  proof -
    from indexedD [OF ix that] obtain n where n: "n < next_ref st"
        "clients_by_id st (client_id_hex r) = Some n"
        "clients_by_username st (username r) = Some n" "heap st n = Some r"
      by blast
    show ?thesis
    proof (cases "client_id_hex r = cid")
      case True
      with n ref q have "n = ref" "r = q" by simp_all
      with n True show ?thesis by (intro exI [of _ n]) (simp add: upd_row_def)
    next
      case False
      with n q have "n \<noteq> ref" by auto
      with n False show ?thesis by (intro exI [of _ n]) (simp add: upd_row_def)
    qed
  qed
  with ix f show ?thesis by (auto simp: indexed_def)
qed

lemma update_client_run:
  assumes inv: "store_inv st" and "out = SqlOk" and "sqlite_connected st" and f: "keeps_keys f"
  shows "\<exists>st'. update_client out cid f st = (Ok (cid \<in> client_id_hex ` set (clients_table st)), st') \<and>
    store_inv st' \<and> sqlite_connected st' \<and> clients_table st' = map (upd_row cid f) (clients_table st) \<and>
    uploads_table st' = uploads_table st \<and> clients_recent_log st' = clients_recent_log st"
proof -
  have ix: "indexed (clients_table st) st" and db: "db_ok st" using inv assms(3) by (auto simp: store_inv_def)
  have u: "(\<lambda>row. if client_id_hex row = cid then f row else row) = upd_row cid f"
    by (auto simp: upd_row_def)
  have db': "db_ok (st\<lparr>clients_table := map (upd_row cid f) (clients_table st)\<rparr>)"
    using db f by (simp add: db_ok_def del: map_map)
  show ?thesis
  proof (cases "clients_by_id st cid")
    case None
    then have no: "cid \<notin> client_id_hex ` set (clients_table st)" using ix by (auto simp: indexed_def)
    then have "map (upd_row cid f) (clients_table st) = clients_table st"
      by (auto simp: upd_row_def intro!: map_idI)
    with no assms show ?thesis
      by (auto simp: update_client_def u Let_def filter_empty_conv)
  next
    case (Some ref)
    then have yes: "cid \<in> client_id_hex ` set (clients_table st)" using ix by (auto simp: indexed_def)
    then have "filter (\<lambda>row. client_id_hex row = cid) (clients_table st) \<noteq> []"
      by (auto simp: filter_empty_conv)
    with yes Some assms indexed_update [OF ix f Some] db' show ?thesis
      by (auto simp: update_client_def u Let_def store_inv_def db_ok_def indexed_def)
  qed
qed

lemma update_client_inv:
  assumes "store_inv st" and "out \<noteq> CommitFails" and "keeps_keys f"
  shows "store_inv (snd (update_client out cid f st))"
proof (cases "sqlite_connected st \<and> out = SqlOk")
  case True
  with assms update_client_run [of st out f cid] show ?thesis by auto
next
  case False
  with assms show ?thesis by (cases out) (auto simp: update_client_def)
qed

lemma next_rowid_fresh: "next_rowid ids \<notin> set ids"
proof
  assume a: "next_rowid ids \<in> set ids"
  then have "ids \<noteq> []" by auto
  then have "Max (set ids) + 1 \<in> set ids" using a by (simp add: next_rowid_def)
  then have "Max (set ids) + 1 \<le> Max (set ids)" by (intro Max_ge) auto
  then show False by simp
qed

lemma create_upload_record_inv:
  assumes "store_inv st" and "out \<noteq> CommitFails"
  shows "store_inv (snd (create_upload_record out now cid fn os cs status st))"
  using assms next_rowid_fresh [of "map up_id (uploads_table st)"]
  by (auto simp: create_upload_record_def Let_def store_inv_def db_ok_def indexed_def)

lemma uploads_map_inv:
  assumes "store_inv st" and "up_id \<circ> g = up_id" and "up_client_id_hex \<circ> g = up_client_id_hex"
  shows "store_inv (st\<lparr>uploads_table := map g (uploads_table st)\<rparr>)"
  using assms by (simp add: store_inv_def db_ok_def indexed_def image_comp)

lemma update_upload_inv:
  assumes "store_inv st" and "\<And>u. up_id (f u) = up_id u \<and> up_client_id_hex (f u) = up_client_id_hex u"
  shows "store_inv (snd (update_upload out i f st))"
proof -
  let ?g = "\<lambda>row. if Some (up_id row) = i then f row else row"
  have "up_id \<circ> ?g = up_id" "up_client_id_hex \<circ> ?g = up_client_id_hex" using assms(2) by auto
  from uploads_map_inv [OF assms(1) this] assms(1) show ?thesis
    by (simp add: update_upload_def Let_def)
qed

lemma log_append_frame [simp]:
  "clients_table (log_append k e st) = clients_table st"
  "uploads_table (log_append k e st) = uploads_table st"
  "sqlite_connected (log_append k e st) = sqlite_connected st"
  by (simp_all add: log_append_def)

lemma store_inv_log_append [simp]: "store_inv (log_append k e st) = store_inv st"
  by (simp add: log_append_def store_inv_def db_ok_def indexed_def)

section \<open>The directory interface the handlers rely on\<close>

text \<open>
  Two lookups over the same records, and an update of one record that both lookups see.
\<close>

locale client_directory =
  fixes by_id :: "'s \<Rightarrow> pystr \<Rightarrow> client_record option"
    and by_name :: "'s \<Rightarrow> pystr \<Rightarrow> client_record option"
    and modify :: "pystr \<Rightarrow> (client_record \<Rightarrow> client_record) \<Rightarrow> 's \<Rightarrow> 's"
    and ok :: "'s \<Rightarrow> bool"
  assumes coherent: "ok s \<Longrightarrow> by_name s n = Some r \<longleftrightarrow> username r = n \<and> by_id s (client_id_hex r) = Some r"
    and id_key: "ok s \<Longrightarrow> by_id s c = Some r \<Longrightarrow> client_id_hex r = c"
    and modify_ok: "ok s \<Longrightarrow> keeps_keys f \<Longrightarrow> ok (modify c f s)"
    and modify_by_id: "ok s \<Longrightarrow> keeps_keys f \<Longrightarrow> by_id (modify c f s) = (by_id s)(c := map_option f (by_id s c))"
begin

lemma names_unique: "ok s \<Longrightarrow> by_id s c = Some r \<Longrightarrow> by_id s c' = Some r' \<Longrightarrow> username r = username r' \<Longrightarrow> c = c'"
proof -
  assume a: "ok s" "by_id s c = Some r" "by_id s c' = Some r'" "username r = username r'"
  then have k: "client_id_hex r = c" "client_id_hex r' = c'" by (blast intro: id_key)+
  with a have "by_name s (username r) = Some r" "by_name s (username r) = Some r'"
    by (simp_all only: coherent)
  with k show "c = c'" by simp
qed

lemma modify_by_name:
  assumes "ok s" and "keeps_keys f"
  shows "by_name (modify c f s) n = map_option (upd_row c f) (by_name s n)"
proof -
  have ok': "ok (modify c f s)" and ids: "by_id (modify c f s) = (by_id s)(c := map_option f (by_id s c))"
    using assms by (simp_all add: modify_ok modify_by_id)
  have *: "by_id (modify c f s) (client_id_hex r) = Some (upd_row c f r)"
    if "by_id s (client_id_hex r) = Some r" for r
    using that ids by (auto simp: upd_row_def)
  show ?thesis
  proof (cases "by_name s n")
    case (Some r)
    then have r: "username r = n" "by_id s (client_id_hex r) = Some r" using coherent assms by auto
    have "by_name (modify c f s) n = Some (upd_row c f r)"
      using coherent [OF ok', of n "upd_row c f r"] * [OF r(2)] r assms by simp
    with Some show ?thesis by simp
  next
    case None
    have "by_name (modify c f s) n \<noteq> Some r'" for r'
    proof
      assume "by_name (modify c f s) n = Some r'"
      then have r': "username r' = n" "by_id (modify c f s) (client_id_hex r') = Some r'"
        using coherent [OF ok'] by auto
      obtain r where r: "by_id s (client_id_hex r') = Some r" "r' = upd_row c f r"
      proof (cases "client_id_hex r' = c")
        case True
        with r'(2) ids obtain r where "by_id s c = Some r" "r' = f r" by auto
        with True id_key [OF assms(1)] that show thesis by (auto simp: upd_row_def)
      next
        case False
        with r'(2) ids that [of r'] show thesis by (simp add: upd_row_def)
      qed
      then have "by_name s n = Some r"
        using coherent [OF assms(1), of n r] r'(1) assms(2) by simp
      with None show False by simp
    qed
    with None show ?thesis by (cases "by_name (modify c f s) n") auto
  qed
qed

end

lemma update_client_lookup:
  assumes "store_inv st" and "sqlite_connected st" and "keeps_keys f"
  shows "get_client_by_id d (snd (update_client SqlOk c f st)) =
    (if d = c then map_option f (get_client_by_id c st) else get_client_by_id d st)"
proof -
  obtain st' where st': "snd (update_client SqlOk c f st) = st'" "store_inv st'" "sqlite_connected st'"
      "clients_table st' = map (upd_row c f) (clients_table st)"
    using update_client_run [OF assms(1) refl assms(2,3), of c] by auto
  have iff: "get_client_by_id d st' = Some r \<longleftrightarrow>
      (\<exists>q. get_client_by_id d st = Some q \<and> r = upd_row c f q)" for d r
    using assms st' by (auto simp: get_client_by_id_iff)
  have key: "get_client_by_id d st = Some q \<Longrightarrow> client_id_hex q = d" for q
    using assms by (simp add: get_client_by_id_iff)
  show ?thesis unfolding st'(1)
  proof (cases "get_client_by_id d st")
    case None
    then have "get_client_by_id d st' = None" by (intro option_eq_by_Some) (simp add: iff)
    with None show "get_client_by_id d st' = (if d = c then map_option f (get_client_by_id c st) else get_client_by_id d st)"
      by auto
  next
    case (Some q)
    then have "get_client_by_id d st' = Some (upd_row c f q)" using iff by blast
    with Some key [OF Some] show "get_client_by_id d st' = (if d = c then map_option f (get_client_by_id c st) else get_client_by_id d st)"
      by (auto simp: upd_row_def)
  qed
qed

interpretation store_dir: client_directory "\<lambda>st c. get_client_by_id c st" "\<lambda>st n. get_client_by_username n st"
  "\<lambda>c f st. snd (update_client SqlOk c f st)" "\<lambda>st. store_inv st \<and> sqlite_connected st"
proof unfold_locales
  fix st and f :: "client_record \<Rightarrow> client_record" and c
  assume "store_inv st \<and> sqlite_connected st" and "keeps_keys f"
  then show "store_inv (snd (update_client SqlOk c f st)) \<and> sqlite_connected (snd (update_client SqlOk c f st))"
    using update_client_run [of st SqlOk f c] by auto
qed (auto simp: get_client_by_id_iff get_client_by_username_iff update_client_lookup fun_eq_iff)

section \<open>Properties\<close>

text \<open>The calls a server makes on its store, in any order, with the outcome SQLite gives each.\<close>

datatype store_op =
    CreateClient bytes pystr pystr
  | SetPublicKey pystr bytes
  | SetAesKey pystr pystr
  | TouchLastSeen pystr pystr
  | CreateUpload pystr pystr pystr int int
  | CompleteUpload "int option" pystr int pystr
  | FailUpload "int option" string string pystr
  | AppendLog log_key log_entry
  | Reopen init_outcome

fun run_store_op :: "sql_outcome \<Rightarrow> store_op \<Rightarrow> store \<Rightarrow> store" where
  "run_store_op out (CreateClient uuid now name) st = snd (create_client out uuid now name st)"
| "run_store_op out (SetPublicKey cid der) st = snd (set_client_public_key out cid der st)"
| "run_store_op out (SetAesKey cid key) st = snd (set_client_aes_key out cid key st)"
| "run_store_op out (TouchLastSeen now cid) st = snd (touch_client_last_seen out now cid st)"
| "run_store_op out (CreateUpload now cid fn os cs) st =
     snd (create_upload_record out now cid fn os cs ''in_progress'' st)"
| "run_store_op out (CompleteUpload i p crc now) st = snd (complete_upload_record out i p crc now st)"
| "run_store_op out (FailUpload i reason status now) st = snd (fail_upload_record out i reason status now st)"
| "run_store_op out (AppendLog k e) st = log_append k e st"
| "run_store_op out (Reopen init) st = snd (store_initialize init (snd (store_close out st)))"

lemma run_store_op_inv: "store_inv st \<Longrightarrow> out \<noteq> CommitFails \<Longrightarrow> store_inv (run_store_op out op st)"
  by (cases op) (simp_all add: create_client_inv update_client_inv create_upload_record_inv update_upload_inv
      set_client_public_key_def set_client_aes_key_def touch_client_last_seen_def
      complete_upload_record_def fail_upload_record_def store_initialize_inv store_close_inv)

lemma run_store_ops_inv:
  "store_inv st \<Longrightarrow> \<forall>(out, op) \<in> set ops. out \<noteq> CommitFails \<Longrightarrow>
    store_inv (foldl (\<lambda>s (out, op). run_store_op out op s) st ops)"
  by (induction ops arbitrary: st) (auto simp: run_store_op_inv)

text \<open>C15: whatever calls the server makes and whichever statements SQLite refuses, as long as no
  \<open>commit\<close> fails, the in-memory index and the \<open>Clients\<close> table agree: while the database is
  open, looking a client up by id or by username finds exactly the row that has that id or
  username; ids and usernames are unique and every upload belongs to a registered client.\<close>
theorem store_index_agrees_with_db:
  assumes "\<forall>(out, op) \<in> set ops. out \<noteq> CommitFails"
    and "st = foldl (\<lambda>s (out, op). run_store_op out op s) store_new ops"
  shows "distinct (map client_id_hex (clients_table st)) \<and> distinct (map username (clients_table st)) \<and>
    up_client_id_hex ` set (uploads_table st) \<subseteq> client_id_hex ` set (clients_table st) \<and>
    (sqlite_connected st \<longrightarrow>
      (\<forall>k r. (get_client_by_id k st = Some r \<longleftrightarrow> r \<in> set (clients_table st) \<and> client_id_hex r = k) \<and>
             (get_client_by_username k st = Some r \<longleftrightarrow> r \<in> set (clients_table st) \<and> username r = k)))"
proof -
  have "store_inv store_new" by (simp add: store_new_def store_inv_def db_ok_def)
  then have inv: "store_inv st" unfolding assms(2) by (rule run_store_ops_inv) (fact assms(1))
  then show ?thesis
    by (auto simp: get_client_by_id_iff get_client_by_username_iff) (auto simp: store_inv_def db_ok_def)
qed

theorem store_index_agrees_with_db_witness:
  "let st = foldl (\<lambda>s (out, op). run_store_op out op s) store_new
      [(SqlOk, Reopen InitOk), (SqlOk, CreateClient [1] [50] [97]), (ExecFails, SetPublicKey (bytes_hex [1]) [7]),
       (SqlOk, SetPublicKey (bytes_hex [1]) [9])]
   in \<exists>r. get_client_by_username [97] st = Some r \<and> public_key_der r = Some [9]"
proof -
  let ?ops = "[(SqlOk, Reopen InitOk), (SqlOk, CreateClient [1] [50] [97]),
    (ExecFails, SetPublicKey (bytes_hex [1]) [7]), (SqlOk, SetPublicKey (bytes_hex [1]) [9])]"
  define st where "st = foldl (\<lambda>s (out, op). run_store_op out op s) store_new ?ops"
  have ok: "\<forall>(out, op) \<in> set ?ops. out \<noteq> CommitFails" by simp
  note defs = st_def store_new_def store_close_def store_initialize_def load_clients_index_def
    create_client_def set_client_public_key_def update_client_def index_put_def Let_def hex_digit_def
  have "sqlite_connected st" "clients_table st = [\<lparr>client_id_hex = [48, 49], username = [97],
      public_key_der = Some [9], aes_key_b64 = None, created_at = [50], last_seen = [50]\<rparr>]"
    by (simp_all add: defs)
  with store_index_agrees_with_db [OF ok st_def] have "\<exists>r. get_client_by_username [97] st = Some r \<and> public_key_der r = Some [9]"
    by auto
  then show ?thesis by (simp add: st_def Let_def)
qed

text \<open>C24: registrations, keys and uploads survive a restart: closing the store and opening the
  database again gives the same tables, and the rebuilt index answers every lookup by id
  and by username as before.\<close>
theorem store_restart_roundtrip:
  assumes "store_inv st" and "sqlite_connected st"
    and "store_close SqlOk st = (Ok (), stc)" and "store_initialize InitOk stc = (Ok b, st')"
  shows "b \<and> (\<forall>k. get_client_by_id k stc = None) \<and> uploads_table st' = uploads_table st \<and>
    (\<forall>k. get_client_by_id k st' = get_client_by_id k st \<and>
         get_client_by_username k st' = get_client_by_username k st)"
proof -
  have st': "b" "st' = load_clients_index (stc\<lparr>sqlite_connected := True\<rparr>)"
    using assms(4) by (simp_all add: store_initialize_def)
  have stc: "stc = st\<lparr>sqlite_connected := False, clients_by_id := Map.empty, clients_by_username := Map.empty\<rparr>"
    using assms(2,3) by (simp add: store_close_def)
  have frame: "clients_table st' = clients_table st" "uploads_table st' = uploads_table st" "sqlite_connected st'"
    by (simp_all add: st' stc load_clients_index_def)
  have "store_inv st'" unfolding st'(2) by (rule load_clients_index_inv)
    (use assms(1) in \<open>simp add: stc store_inv_def db_ok_def\<close>)
  with assms(1,2) frame have "get_client_by_id k st' = get_client_by_id k st"
    "get_client_by_username k st' = get_client_by_username k st" for k
    by (rule_tac option_eq_by_Some; simp add: get_client_by_id_iff get_client_by_username_iff)+
  with st'(1) frame show ?thesis by (simp add: stc get_client_by_id_def)
qed

lemma create_client_run:
  assumes "store_inv st" and "sqlite_connected st"
    and "bytes_hex uuid \<notin> client_id_hex ` set (clients_table st)" and "name \<notin> username ` set (clients_table st)"
  shows "\<exists>st'. create_client SqlOk uuid now name st =
      (Ok (Some \<lparr>client_id_hex = bytes_hex uuid, username = name, public_key_der = None,
         aes_key_b64 = None, created_at = now, last_seen = now\<rparr>), st') \<and>
    store_inv st' \<and> sqlite_connected st' \<and> uploads_table st' = uploads_table st \<and>
    clients_recent_log st' = clients_recent_log st \<and>
    clients_table st' = clients_table st @ [\<lparr>client_id_hex = bytes_hex uuid, username = name, public_key_der = None,
         aes_key_b64 = None, created_at = now, last_seen = now\<rparr>]"
  using assms create_client_inv [OF assms(1), of SqlOk uuid now name]
  by (auto simp: create_client_def Let_def)

text \<open>C28: registering a name: with the database open, \<open>create_client\<close> succeeds exactly when
  neither the fresh id nor the username is taken; the new record then answers to both its
  id and its name and no other lookup changes. When one is taken it raises
  \<open>IntegrityError\<close> and changes nothing.\<close>
theorem create_client_spec:
  assumes "store_inv st" and "sqlite_connected st" and "create_client SqlOk uuid now name st = (res, st')"
  shows "if get_client_by_id (bytes_hex uuid) st = None \<and> get_client_by_username name st = None
    then \<exists>r. res = Ok (Some r) \<and> client_id_hex r = bytes_hex uuid \<and> username r = name \<and>
       public_key_der r = None \<and> aes_key_b64 r = None \<and>
       (\<forall>k. get_client_by_id k st' = (if k = bytes_hex uuid then Some r else get_client_by_id k st)) \<and>
       (\<forall>n. get_client_by_username n st' = (if n = name then Some r else get_client_by_username n st))
    else res = Raise IntegrityError \<and> st' = st"
proof (cases "bytes_hex uuid \<in> client_id_hex ` set (clients_table st) \<or> name \<in> username ` set (clients_table st)")
  case True
  then obtain r where "r \<in> set (clients_table st)" "client_id_hex r = bytes_hex uuid \<or> username r = name" by auto
  then have "get_client_by_id (bytes_hex uuid) st = Some r \<or> get_client_by_username name st = Some r"
    using assms by (auto simp: get_client_by_id_iff get_client_by_username_iff)
  with True assms show ?thesis by (auto simp: create_client_def Let_def)
next
  case False
  let ?r = "\<lparr>client_id_hex = bytes_hex uuid, username = name, public_key_der = None,
             aes_key_b64 = None, created_at = now, last_seen = now\<rparr>"
  have none: "get_client_by_id (bytes_hex uuid) st = None" "get_client_by_username name st = None"
    using False assms(1,2) get_client_by_id_iff [of st "bytes_hex uuid"] get_client_by_username_iff [of st name]
    by (auto simp: image_iff) (metis not_Some_eq)+
  have st': "res = Ok (Some ?r)" "store_inv st'" "sqlite_connected st'" "clients_table st' = clients_table st @ [?r]"
    using create_client_run [OF assms(1,2), of uuid name now] False assms(3) by auto
  have no: "client_id_hex q \<noteq> bytes_hex uuid \<and> username q \<noteq> name" if "q \<in> set (clients_table st)" for q
    using False that by (metis image_eqI)
  have "get_client_by_id k st' = (if k = bytes_hex uuid then Some ?r else get_client_by_id k st)" for k
    using assms(1,2) st' by (intro option_eq_by_Some) (auto simp: get_client_by_id_iff dest: no)
  moreover have "get_client_by_username n st' = (if n = name then Some ?r else get_client_by_username n st)" for n
    using assms(1,2) st' by (intro option_eq_by_Some) (auto simp: get_client_by_username_iff dest: no)
  ultimately show ?thesis using st' none by (auto intro!: exI [of _ ?r])
qed

definition store_example :: store where
  "store_example = snd (create_client SqlOk [1] [50] [97] (snd (store_initialize InitOk store_new)))"

lemma store_example_ok: "store_inv store_example" "sqlite_connected store_example"
  "clients_table store_example = [\<lparr>client_id_hex = [48, 49], username = [97], public_key_der = None,
     aes_key_b64 = None, created_at = [50], last_seen = [50]\<rparr>]" "uploads_table store_example = []"
proof -
  have "store_inv (snd (store_initialize InitOk store_new))"
    by (rule store_initialize_inv) (simp add: store_new_def store_inv_def db_ok_def)
  then show "store_inv store_example" unfolding store_example_def by (rule create_client_inv) simp
qed (simp_all add: store_example_def create_client_def store_initialize_def store_new_def
    load_clients_index_def index_put_def Let_def hex_digit_def)

theorem store_restart_roundtrip_witness:
  "\<exists>stc st'. store_close SqlOk store_example = (Ok (), stc) \<and> store_initialize InitOk stc = (Ok True, st') \<and>
    get_client_by_username [97] st' = get_client_by_username [97] store_example"
proof -
  obtain stc where c: "store_close SqlOk store_example = (Ok (), stc)"
    using store_example_ok by (simp add: store_close_def)
  obtain st' where i: "store_initialize InitOk stc = (Ok True, st')" by (simp add: store_initialize_def)
  from store_restart_roundtrip [OF store_example_ok(1,2) c i] c i show ?thesis by blast
qed

theorem create_client_spec_witness:
  "fst (create_client SqlOk [2] [51] [97] store_example) = Raise IntegrityError"
proof -
  obtain res st' where c: "create_client SqlOk [2] [51] [97] store_example = (res, st')" by fastforce
  have "get_client_by_username [97] store_example \<noteq> None"
    using store_example_ok get_client_by_username_iff [OF store_example_ok(1,2)] by auto
  with create_client_spec [OF store_example_ok(1,2) c] c show ?thesis by simp
qed

lemma update_client_write_through:
  assumes "store_inv st" and "sqlite_connected st" and "keeps_keys f"
    and "update_client SqlOk cid f st = (res, st')"
  shows "res = Ok (get_client_by_id cid st \<noteq> None) \<and>
    (\<forall>k. get_client_by_id k st' = (if k = cid then map_option f (get_client_by_id k st) else get_client_by_id k st)) \<and>
    (\<forall>n. get_client_by_username n st' =
        map_option (\<lambda>r. if client_id_hex r = cid then f r else r) (get_client_by_username n st)) \<and>
    clients_table st' = map (\<lambda>r. if client_id_hex r = cid then f r else r) (clients_table st)"
proof -
  have st': "st' = snd (update_client SqlOk cid f st)" using assms(4) by simp
  have u: "upd_row cid f = (\<lambda>r. if client_id_hex r = cid then f r else r)" by (auto simp: upd_row_def)
  have ex: "cid \<in> client_id_hex ` set (clients_table st) \<longleftrightarrow> get_client_by_id cid st \<noteq> None"
    using assms by (auto simp: get_client_by_id_iff image_iff)
  have "res = Ok (get_client_by_id cid st \<noteq> None)" "clients_table st' = map (upd_row cid f) (clients_table st)"
    using update_client_run [OF assms(1) refl assms(2,3), of cid] assms(4) ex by auto
  moreover have "get_client_by_username n st' = map_option (upd_row cid f) (get_client_by_username n st)" for n
    unfolding st' by (rule store_dir.modify_by_name) (use assms in auto)
  moreover have "get_client_by_id k st' =
      (if k = cid then map_option f (get_client_by_id cid st) else get_client_by_id k st)" for k
    unfolding st' by (rule update_client_lookup) (use assms in auto)
  ultimately show ?thesis unfolding u by auto
qed

text \<open>C25: the setters write through: a public key, an AES key or a last-seen time set for a client id is seen under its id and
  under its username alike, in the index and in the table, the return value says whether the
  client exists, and no other client changes.\<close>
theorem client_update_write_through:
  assumes "store_inv st" and "sqlite_connected st"
    and "(setter, f) \<in> {(set_client_public_key SqlOk cid der, \<lambda>r. r\<lparr>public_key_der := Some der\<rparr>),
      (set_client_aes_key SqlOk cid key, \<lambda>r. r\<lparr>aes_key_b64 := Some key\<rparr>),
      (touch_client_last_seen SqlOk now cid, \<lambda>r. r\<lparr>last_seen := now\<rparr>)}"
    and "setter st = (res, st')"
  shows "res = Ok (get_client_by_id cid st \<noteq> None) \<and>
    (\<forall>k. get_client_by_id k st' = (if k = cid then map_option f (get_client_by_id k st) else get_client_by_id k st)) \<and>
    (\<forall>n. get_client_by_username n st' =
        map_option (\<lambda>r. if client_id_hex r = cid then f r else r) (get_client_by_username n st)) \<and>
    clients_table st' = map (\<lambda>r. if client_id_hex r = cid then f r else r) (clients_table st)"
proof (rule update_client_write_through [OF assms(1,2)])
  show "keeps_keys f" using assms(3) by auto
  show "update_client SqlOk cid f st = (res, st')"
    using assms(3,4) by (auto simp: set_client_public_key_def set_client_aes_key_def touch_client_last_seen_def)
qed

theorem client_update_write_through_witness:
  "\<exists>st'. set_client_public_key SqlOk [48, 49] [9] store_example = (Ok True, st') \<and>
    map_option public_key_der (get_client_by_username [97] st') = Some (Some [9])"
proof -
  obtain res st' where c: "set_client_public_key SqlOk [48, 49] [9] store_example = (res, st')" by fastforce
  obtain r where "get_client_by_id [48, 49] store_example = Some r" "get_client_by_username [97] store_example = Some r"
      "client_id_hex r = [48, 49]"
    using get_client_by_username_iff [OF store_example_ok(1,2)] get_client_by_id_iff [OF store_example_ok(1,2)]
      store_example_ok(3) by auto
  with client_update_write_through [OF store_example_ok(1,2) insertI1 c] c show ?thesis by auto
qed

text \<open>C29: the record of an upload: \<open>create_upload_record\<close> for a registered client gives an id no
  other upload has and a row with status \<open>in_progress\<close>; completing or failing that id later
  touches this row only, keeps its client, file name and sizes, and reports success.\<close>
theorem upload_record_lifecycle:
  assumes "store_inv st" and "sqlite_connected st" and "get_client_by_id cid st = Some r"
    and "create_upload_record SqlOk now cid fn os cs ''in_progress'' st = (res, st1)"
  shows "\<exists>i row. res = Ok (Some i) \<and> i \<notin> up_id ` set (uploads_table st) \<and>
    uploads_table st1 = uploads_table st @ [row] \<and> up_id row = i \<and> up_client_id_hex row = cid \<and>
    up_file_name row = fn \<and> up_orig_file_size row = os \<and> up_cipher_size row = cs \<and>
    up_status row = ''in_progress'' \<and> up_stored_path row = None \<and>
    (\<forall>path crc t. fst (complete_upload_record SqlOk (Some i) path crc t st1) = Ok True \<and>
       uploads_table (snd (complete_upload_record SqlOk (Some i) path crc t st1)) = uploads_table st @
         [row\<lparr>up_status := ''completed'', up_completed_at := Some t, up_stored_path := Some path,
              up_server_crc32 := Some crc\<rparr>]) \<and>
    (\<forall>why status t. fst (fail_upload_record SqlOk (Some i) why status t st1) = Ok True \<and>
       uploads_table (snd (fail_upload_record SqlOk (Some i) why status t st1)) = uploads_table st @
         [row\<lparr>up_status := status, up_completed_at := Some t, up_failure_reason := Some why\<rparr>])"
proof -
  let ?i = "next_rowid (map up_id (uploads_table st))"
  have fresh: "?i \<notin> up_id ` set (uploads_table st)"
    using next_rowid_fresh [of "map up_id (uploads_table st)"] by simp
  then have same: "map (\<lambda>row. if up_id row = ?i then f row else row) (uploads_table st) = uploads_table st" for f
    by (intro map_idI) (auto simp: image_iff)
  have "cid \<in> client_id_hex ` set (clients_table st)"
    using assms(1-3) by (auto simp: get_client_by_id_iff)
  with assms(2,4) fresh same show ?thesis
    by (auto simp: create_upload_record_def Let_def complete_upload_record_def fail_upload_record_def
        update_upload_def)
qed

theorem upload_record_lifecycle_witness:
  "\<exists>i. fst (create_upload_record SqlOk [52] [48, 49] [120] 5 16 ''in_progress'' store_example) = Ok (Some i)"
proof -
  obtain r where r: "get_client_by_id [48, 49] store_example = Some r"
    using get_client_by_id_iff [OF store_example_ok(1,2)] store_example_ok(3) by auto
  obtain res st1 where c: "create_upload_record SqlOk [52] [48, 49] [120] 5 16 ''in_progress'' store_example = (res, st1)"
    by fastforce
  from upload_record_lifecycle [OF store_example_ok(1,2) r c] c show ?thesis by auto
qed

end
