(* ===== verification/Posix_Path.thy ===== *)
theory Posix_Path
  imports Text_Codec
begin

text \<open>
  The functions of \<open>posixpath\<close> with which the upload handler turns the file name a client
  sends into the path it writes: \<open>basename\<close>, \<open>join\<close> and \<open>normpath\<close>, on code points.
\<close>

abbreviation SEP :: nat where "SEP \<equiv> 47"
definition DOT :: pystr where "DOT = [46]"
definition DOTDOT :: pystr where "DOTDOT = [46, 46]"

text \<open>\<open>p[p.rfind('/') + 1:]\<close>: what follows the last separator.\<close>

definition path_basename :: "pystr \<Rightarrow> pystr" where
  "path_basename p = rev (takeWhile (\<lambda>c. c \<noteq> SEP) (rev p))"

definition path_join :: "pystr \<Rightarrow> pystr \<Rightarrow> pystr" where
  "path_join a b = (if b \<noteq> [] \<and> hd b = SEP then b
     else if a = [] \<or> last a = SEP then a @ b else a @ [SEP] @ b)"

text \<open>\<open>p.split('/')\<close> and \<open>'/'.join(ps)\<close>.\<close>

fun split_sep :: "pystr \<Rightarrow> pystr list" where
  "split_sep [] = [[]]"
| "split_sep (c # cs) =
     (if c = SEP then [] # split_sep cs
      else case split_sep cs of [] \<Rightarrow> [[c]] | p # ps \<Rightarrow> (c # p) # ps)"

fun join_sep :: "pystr list \<Rightarrow> pystr" where
  "join_sep [] = []"
| "join_sep [p] = p"
| "join_sep (p # ps) = p @ [SEP] @ join_sep ps"

text \<open>The loop of \<open>normpath\<close> over the components; \<open>acc\<close> is \<open>new_comps\<close>, last one first.\<close>

fun norm_comps :: "bool \<Rightarrow> pystr list \<Rightarrow> pystr list \<Rightarrow> pystr list" where
  "norm_comps rooted acc [] = rev acc"
| "norm_comps rooted acc (cmp # comps) =
     (if cmp = [] \<or> cmp = DOT then norm_comps rooted acc comps
      else if cmp \<noteq> DOTDOT \<or> (\<not> rooted \<and> acc = []) \<or> (acc \<noteq> [] \<and> hd acc = DOTDOT)
        then norm_comps rooted (cmp # acc) comps
      else norm_comps rooted (tl acc) comps)"

definition initial_slashes :: "pystr \<Rightarrow> nat" where
  "initial_slashes p =
     (if take 1 p \<noteq> [SEP] then 0
      else if take 2 p = [SEP, SEP] \<and> take 3 p \<noteq> [SEP, SEP, SEP] then 2 else 1)"

definition path_normpath :: "pystr \<Rightarrow> pystr" where
  "path_normpath p =
     (if p = [] then DOT
      else let n = initial_slashes p;
               q = replicate n SEP @ join_sep (norm_comps (n \<noteq> 0) [] (split_sep p))
           in if q = [] then DOT else q)"

section \<open>Facts\<close>

lemma path_basename_no_sep: "SEP \<notin> set (path_basename p)"
  by (auto simp: path_basename_def dest: set_takeWhileD)

lemma path_basename_id: "SEP \<notin> set p \<Longrightarrow> path_basename p = p"
proof -
  assume "SEP \<notin> set p"
  then have "takeWhile (\<lambda>c. c \<noteq> SEP) (rev p) = rev p"
    by (intro takeWhile_eq_all_conv [THEN iffD2]) auto
  then show ?thesis by (simp only: path_basename_def rev_rev_ident)
qed

lemma path_basename_subset: "set (path_basename p) \<subseteq> set p"
  by (auto simp: path_basename_def dest: set_takeWhileD)

lemma split_sep_no_sep: "SEP \<notin> set p \<Longrightarrow> split_sep p = [p]"
  by (induction p) auto

lemma split_sep_nonempty [simp]: "split_sep p \<noteq> []"
  by (induction p) (auto split: list.splits)

lemma split_sep_append:
  "SEP \<notin> set p \<Longrightarrow> split_sep (p @ SEP # q) = p # split_sep q"
  by (induction p) auto

lemma norm_comps_plain:
  "\<forall>c \<in> set comps. c \<noteq> [] \<and> c \<noteq> DOT \<and> c \<noteq> DOTDOT \<Longrightarrow> norm_comps rooted acc comps = rev acc @ comps"
  by (induction comps arbitrary: acc) auto

lemma join_sep_Cons: "ps \<noteq> [] \<Longrightarrow> join_sep (p # ps) = p @ [SEP] @ join_sep ps"
  by (cases ps) auto

lemma initial_slashes_rel: "p \<noteq> [] \<Longrightarrow> hd p \<noteq> SEP \<Longrightarrow> initial_slashes p = 0"
  by (cases p) (auto simp: initial_slashes_def)

end
