(* ===== verification/Files.thy ===== *)
theory Files
  imports Posix_Path
begin

text \<open>
  The part of the operating system's file interface the upload path uses: directories and
  regular files under path names, open files as inodes (an open file keeps its inode when
  the name is renamed or removed), \<open>os.makedirs\<close>, \<open>open(path, "wb")\<close>, \<open>write\<close>,
  \<open>os.path.exists\<close>, \<open>os.remove\<close> and \<open>os.replace\<close>. Failures that do not depend on the
  tree (a full disk, a name too long, permissions) are an argument of the callers.
\<close>

datatype fnode = FFile nat | FDir

record filesystem =
  entries :: "pystr \<rightharpoonup> fnode"
  inodes :: "nat \<Rightarrow> bytes"
  next_inode :: nat

text \<open>The directory part of a path; a name without a separator lies in the working directory.\<close>

definition path_parent :: "pystr \<Rightarrow> pystr" where
  "path_parent p = rev (drop 1 (dropWhile (\<lambda>c. c \<noteq> SEP) (rev p)))"

definition parent_is_dir :: "filesystem \<Rightarrow> pystr \<Rightarrow> bool" where
  "parent_is_dir fs p \<longleftrightarrow> path_parent p = [] \<or> entries fs (path_parent p) = Some FDir"

text \<open>\<open>os.makedirs(p, exist_ok=True)\<close> for a relative path: each prefix in turn.\<close>

definition path_prefixes :: "pystr \<Rightarrow> pystr list" where
  "path_prefixes p = map (\<lambda>n. join_sep (take n (split_sep p))) [1..<Suc (length (split_sep p))]"

fun mkdirs :: "pystr list \<Rightarrow> filesystem \<Rightarrow> unit res \<times> filesystem" where
  "mkdirs [] fs = (Ok (), fs)"
| "mkdirs (p # ps) fs = (case entries fs p of
      None \<Rightarrow> mkdirs ps (fs\<lparr>entries := (entries fs)(p \<mapsto> FDir)\<rparr>)
    | Some FDir \<Rightarrow> mkdirs ps fs
    | Some (FFile _) \<Rightarrow> (Raise OSError, fs))"

definition fs_makedirs :: "pystr \<Rightarrow> filesystem \<Rightarrow> unit res \<times> filesystem" where
  "fs_makedirs p = mkdirs (path_prefixes p)"

definition fs_open_wb :: "pystr \<Rightarrow> filesystem \<Rightarrow> nat res \<times> filesystem" where
  "fs_open_wb p fs = (case entries fs p of
      Some FDir \<Rightarrow> (Raise OSError, fs)
    | Some (FFile i) \<Rightarrow> (Ok i, fs\<lparr>inodes := (inodes fs)(i := [])\<rparr>)
    | None \<Rightarrow> if parent_is_dir fs p
        then (Ok (next_inode fs), fs\<lparr>entries := (entries fs)(p \<mapsto> FFile (next_inode fs)),
               inodes := (inodes fs)(next_inode fs := []), next_inode := Suc (next_inode fs)\<rparr>)
        else (Raise OSError, fs))"

definition fs_write :: "nat \<Rightarrow> bytes \<Rightarrow> filesystem \<Rightarrow> filesystem" where
  "fs_write i data fs = fs\<lparr>inodes := (inodes fs)(i := inodes fs i @ data)\<rparr>"

definition fs_remove :: "pystr \<Rightarrow> filesystem \<Rightarrow> unit res \<times> filesystem" where
  "fs_remove p fs = (case entries fs p of
      Some (FFile _) \<Rightarrow> (Ok (), fs\<lparr>entries := (entries fs)(p := None)\<rparr>)
    | _ \<Rightarrow> (Raise OSError, fs))"

definition fs_replace :: "pystr \<Rightarrow> pystr \<Rightarrow> filesystem \<Rightarrow> unit res \<times> filesystem" where
  "fs_replace src dst fs = (case entries fs src of
      Some (FFile i) \<Rightarrow>
        if entries fs dst = Some FDir \<or> \<not> parent_is_dir fs dst then (Raise OSError, fs)
        else (Ok (), fs\<lparr>entries := (entries fs)(src := None, dst \<mapsto> FFile i)\<rparr>)
    | _ \<Rightarrow> (Raise OSError, fs))"

definition file_at :: "filesystem \<Rightarrow> pystr \<Rightarrow> bytes option" where
  "file_at fs p = (case entries fs p of Some (FFile i) \<Rightarrow> Some (inodes fs i) | _ \<Rightarrow> None)"

end
