(* ===== verification/Crc32.thy ===== *)
theory Crc32
  imports Prelude
begin

unbundle bit_operations_syntax

text \<open>
  \<open>zlib.crc32(data, value)\<close> on 32-bit words: the reflected polynomial 0xEDB88320, one byte at
  a time, with the register complemented on the way in and out. What the upload path relies
  on is that a checksum can be continued: the checksum of a concatenation is the checksum
  of the second part started from that of the first.
\<close>

type_synonym u32 = "32 word"

definition crc_bit :: "u32 \<Rightarrow> u32" where
  "crc_bit c = (if bit c 0 then drop_bit 1 c XOR 0xEDB88320 else drop_bit 1 c)"

definition crc_byte :: "u32 \<Rightarrow> byte \<Rightarrow> u32" where
  "crc_byte c b = (crc_bit ^^ 8) (c XOR ucast b)"

definition crc32 :: "bytes \<Rightarrow> u32 \<Rightarrow> u32" where
  "crc32 data value = NOT (foldl crc_byte (NOT value) data)"

lemma crc32_append: "crc32 (a @ b) v = crc32 b (crc32 a v)"
  by (simp add: crc32_def)

lemma crc32_Nil [simp]: "crc32 [] v = v"
  by (simp add: crc32_def)

text \<open>The published check value of CRC-32: the checksum of the ASCII digits 1 to 9.\<close>

lemma crc32_check: "crc32 (ascii ''123456789'') 0 = 0xCBF43926"
proof -
  have f8: "(f ^^ 8) x = f (f (f (f (f (f (f (f x)))))))" for f :: "u32 \<Rightarrow> u32" and x
    by (simp add: eval_nat_numeral)
  show ?thesis by (simp add: crc32_def ascii_def crc_byte_def f8 crc_bit_def)
qed

end
