(* ===== verification/Session.thy ===== *)
theory Session
  imports Config Framing Limiters Metrics Store Files Crc32
begin

text \<open>
  \<open>server/src/session.py\<close> and the world its methods run in: the session object, the store,
  limiter and metrics it shares with other connections, the file system, and the bytes
  written to the connection. What the code takes from outside (clocks, random bytes,
  uuids, whether a drain, an SQL statement or a file operation fails) and what third-party
  packages compute (PyCryptodome) are the fields of the parameter record \<open>env\<close>; every read of
  a varying source takes the next value of its sequence.
\<close>

section \<open>The outside\<close>

text \<open>
  An RSA key object is a reference (\<open>rsa_key\<close>); all the code learns of it comes from the
  functions below. \<open>aes_cbc_dec key iv fed chunk\<close> is what a CBC decryption object made from
  \<open>key\<close> and \<open>iv\<close> returns for \<open>chunk\<close> after it has been given the ciphertext \<open>fed\<close>.
\<close>

type_synonym rsa_key = nat

record env =
  mono :: "nat \<Rightarrow> real"
  wall :: "nat \<Rightarrow> pystr"
  uuid4 :: "nat \<Rightarrow> bytes"
  random_bytes :: "nat \<Rightarrow> nat \<Rightarrow> bytes"
  drain_outcome :: "nat \<Rightarrow> exn option"
  sql :: "nat \<Rightarrow> sql_outcome"
  os_fails :: "nat \<Rightarrow> bool"
  isalnum :: "nat \<Rightarrow> bool"
  py_repr :: "pystr \<Rightarrow> pystr"
  rsa_import :: "bytes \<Rightarrow> rsa_key option"
  rsa_has_private :: "rsa_key \<Rightarrow> bool"
  rsa_size_in_bits :: "rsa_key \<Rightarrow> int"
  rsa_e :: "rsa_key \<Rightarrow> int"
  rsa_public_der :: "rsa_key \<Rightarrow> bytes"
  rsa_sign :: "rsa_key \<Rightarrow> bytes \<Rightarrow> bytes"
  oaep_encrypt :: "nat \<Rightarrow> rsa_key \<Rightarrow> bytes \<Rightarrow> bytes res"
  aes_key_ok :: "bytes \<Rightarrow> bytes \<Rightarrow> bool"
  aes_cbc_dec :: "bytes \<Rightarrow> bytes \<Rightarrow> bytes \<Rightarrow> bytes \<Rightarrow> bytes"
  unpad :: "bytes \<Rightarrow> nat \<Rightarrow> bytes option"

section \<open>The session\<close>

record cipher =
  ci_key :: bytes
  ci_iv :: bytes
  ci_fed :: bytes

text \<open>The attributes \<open>reset_transfer_state\<close> resets, in one record; an open file is its inode.\<close>

record transfer =
  transfer_iv :: "bytes option"
  upload_active :: bool
  last_upload_progress_ts :: "real option"
  upload_filename :: "pystr option"
  expected_packet_num :: "int option"
  expected_total_packets :: "int option"
  expected_content_size :: "int option"
  expected_orig_file_size :: "int option"
  received_cipher_bytes :: int
  upload_username :: "pystr option"
  upload_aes_key :: "bytes option"
  upload_client_id_hex :: "pystr option"
  upload_id :: "int option"
  upload_path :: "pystr option"
  upload_crc :: "u32 option"
  upload_decrypt_cipher :: "cipher option"
  upload_tmp_path :: "pystr option"
  upload_tmp_file :: "nat option"
  upload_plain_tail :: bytes
  upload_plain_bytes_written :: int
  upload_crc32_state :: u32

definition no_transfer :: transfer where
  "no_transfer = \<lparr>transfer_iv = None, upload_active = False, last_upload_progress_ts = None,
     upload_filename = None, expected_packet_num = None, expected_total_packets = None,
     expected_content_size = None, expected_orig_file_size = None, received_cipher_bytes = 0,
     upload_username = None, upload_aes_key = None, upload_client_id_hex = None, upload_id = None,
     upload_path = None, upload_crc = None, upload_decrypt_cipher = None, upload_tmp_path = None,
     upload_tmp_file = None, upload_plain_tail = [], upload_plain_bytes_written = 0,
     upload_crc32_state = 0\<rparr>"

record session =
  s_config :: config
  has_writer :: bool
  connection_id :: pystr
  request_id :: "pystr option"
  s_framer :: framer
  connected_at :: real
  last_activity :: real
  bytes_in :: int
  bytes_out :: int
  frames_ok :: int
  frames_bad :: int
  disconnect_reason :: string
  last_client_id :: "bytes option"
  last_version :: "bytes option"
  has_upload_slot :: bool
  handshake_verified :: bool
  client_nonce :: "bytes option"
  server_nonce :: "bytes option"
  security_version :: "int option"
  server_identity_key :: rsa_key
  request_timestamps :: "real list"
  xfer :: transfer

definition session_init :: "config \<Rightarrow> bytes \<Rightarrow> real \<Rightarrow> rsa_key \<Rightarrow> session res" where
  "session_init cfg uuid now key =
     (case framer_init (cfg_max_payload_size cfg) of
        Raise e \<Rightarrow> Raise e
      | Ok f \<Rightarrow> Ok \<lparr>s_config = cfg, has_writer = True, connection_id = bytes_hex uuid, request_id = None,
          s_framer = f, connected_at = now, last_activity = now, bytes_in = 0, bytes_out = 0,
          frames_ok = 0, frames_bad = 0, disconnect_reason = ''unknown'', last_client_id = None,
          last_version = None, has_upload_slot = False, handshake_verified = False,
          client_nonce = None, server_nonce = None, security_version = None,
          server_identity_key = key, request_timestamps = [], xfer = no_transfer\<rparr>)"

record world =
  w_sess :: session
  w_store :: store
  w_limiter :: upload_limiter
  w_metrics :: "runtime_metrics option"
  w_fs :: filesystem
  w_out :: "bytes list"
  w_tick :: nat
  w_conns :: connection_limiter
  w_closed :: bool

type_synonym 'a act = "(world, 'a) eff"

section \<open>Primitive effects\<close>

definition next_of :: "(nat \<Rightarrow> 'a) \<Rightarrow> 'a act" where
  "next_of f = (\<lambda>w. (Ok (f (w_tick w)), w\<lparr>w_tick := Suc (w_tick w)\<rparr>))"

definition upd_sess :: "(session \<Rightarrow> session) \<Rightarrow> unit act" where
  "upd_sess f = upd (\<lambda>w. w\<lparr>w_sess := f (w_sess w)\<rparr>)"

definition upd_xfer :: "(transfer \<Rightarrow> transfer) \<Rightarrow> unit act" where
  "upd_xfer f = upd_sess (\<lambda>s. s\<lparr>xfer := f (xfer s)\<rparr>)"

definition upd_metrics :: "(runtime_metrics \<Rightarrow> runtime_metrics) \<Rightarrow> unit act" where
  "upd_metrics f = upd (\<lambda>w. w\<lparr>w_metrics := map_option f (w_metrics w)\<rparr>)"

definition on_store :: "(store \<Rightarrow> 'a res \<times> store) \<Rightarrow> 'a act" where
  "on_store op = (\<lambda>w. case op (w_store w) of (r, st) \<Rightarrow> (r, w\<lparr>w_store := st\<rparr>))"

definition on_fs :: "env \<Rightarrow> (filesystem \<Rightarrow> 'a res \<times> filesystem) \<Rightarrow> 'a act" where
  "on_fs E op = bnd (next_of (os_fails E)) (\<lambda>fails. if fails then throw OSError
     else (\<lambda>w. case op (w_fs w) of (r, fs) \<Rightarrow> (r, w\<lparr>w_fs := fs\<rparr>)))"

abbreviation cfg :: "world \<Rightarrow> config" where "cfg w \<equiv> s_config (w_sess w)"
abbreviation xf :: "world \<Rightarrow> transfer" where "xf w \<equiv> xfer (w_sess w)"

text \<open>The store's methods as the handlers call them: clock and SQLite outcome from outside.\<close>

definition touch_client :: "env \<Rightarrow> pystr \<Rightarrow> unit act" where
  "touch_client E cid = bnd (next_of (wall E)) (\<lambda>now. bnd (next_of (sql E)) (\<lambda>out.
     bnd (on_store (touch_client_last_seen out now cid)) (\<lambda>_. ret ())))"

definition log_event :: "env \<Rightarrow> log_key \<Rightarrow> string \<Rightarrow> unit act" where
  "log_event E k what = bnd (next_of (wall E)) (\<lambda>now.
     upd (\<lambda>w. w\<lparr>w_store := log_append k (what, now) (w_store w)\<rparr>))"

section \<open>The methods of ClientSession\<close>

definition mark_activity :: "env \<Rightarrow> unit act" where
  "mark_activity E = bnd (next_of (mono E)) (\<lambda>now. upd_sess (\<lambda>s. s\<lparr>last_activity := now\<rparr>))"

definition on_frame_received :: "env \<Rightarrow> int \<Rightarrow> unit act" where
  "on_frame_received E nbytes = block [
     upd_sess (\<lambda>s. s\<lparr>bytes_in := bytes_in s + nbytes\<rparr>),
     mark_activity E]"

definition on_frame_sent :: "env \<Rightarrow> int \<Rightarrow> unit act" where
  "on_frame_sent E nbytes = block [
     upd_sess (\<lambda>s. s\<lparr>bytes_out := bytes_out s + nbytes\<rparr>),
     mark_activity E]"

definition on_frame_ok :: "unit act" where
  "on_frame_ok = upd_sess (\<lambda>s. s\<lparr>frames_ok := frames_ok s + 1\<rparr>)"

definition on_frame_bad :: "string \<Rightarrow> unit act" where
  "on_frame_bad reason = upd_sess (\<lambda>s. s\<lparr>frames_bad := frames_bad s + 1,
     disconnect_reason := (if reason \<noteq> [] then reason else disconnect_reason s)\<rparr>)"

definition mark_upload_progress :: "env \<Rightarrow> unit act" where
  "mark_upload_progress E = block [
     bnd (next_of (mono E)) (\<lambda>now. upd_xfer (\<lambda>x. x\<lparr>last_upload_progress_ts := Some now\<rparr>)),
     mark_activity E]"

text \<open>\<open>writer.write\<close> queues the bytes; \<open>writer.drain\<close> may find the connection gone.\<close>

definition writer_write :: "bytes \<Rightarrow> unit act" where
  "writer_write data = upd (\<lambda>w. w\<lparr>w_out := w_out w @ [data]\<rparr>)"

definition writer_drain :: "env \<Rightarrow> unit act" where
  "writer_drain E = bnd (next_of (drain_outcome E)) (\<lambda>r. case r of None \<Rightarrow> ret () | Some e \<Rightarrow> throw e)"

definition session_send :: "env \<Rightarrow> bytes \<Rightarrow> unit act" where
  "session_send E data =
     (if data = [] then ret ()
      else rd (\<lambda>w. if \<not> has_writer (w_sess w) then ret ()
        else try_except
          (block [writer_write data, writer_drain E, on_frame_sent E (len data)])
          is_connection_lost
          (\<lambda>e. block [upd_sess (\<lambda>s. s\<lparr>disconnect_reason := ''send_error''\<rparr>), throw e])))"

definition release_upload_slot :: "unit act" where
  "release_upload_slot = rd (\<lambda>w. if has_upload_slot (w_sess w) then block [
     upd (\<lambda>w. w\<lparr>w_limiter := upload_release (w_limiter w)\<rparr>),
     upd_sess (\<lambda>s. s\<lparr>has_upload_slot := False\<rparr>),
     rd (\<lambda>w. upd_metrics (set_active_uploads (upload_current_active (w_limiter w))))]
   else ret ())"

definition remove_tmp_file :: "env \<Rightarrow> unit act" where
  "remove_tmp_file E = rd (\<lambda>w. case upload_tmp_path (xf w) of
      None \<Rightarrow> ret ()
    | Some p \<Rightarrow> if entries (w_fs w) p = None then ret ()
        else try_except (on_fs E (fs_remove p)) any_exn (\<lambda>_. ret ()))"

definition reset_transfer_state :: "env \<Rightarrow> unit act" where
  "reset_transfer_state E = block [remove_tmp_file E, upd_xfer (\<lambda>_. no_transfer)]"

definition allow_request_now :: "real \<Rightarrow> session \<Rightarrow> bool \<times> session" where
  "allow_request_now now s =
     (let window_start = now - req_window_s (s_config s);
          kept = dropWhile (\<lambda>t. t < window_start) (request_timestamps s) in
      if len kept \<ge> max_req_per_window (s_config s) then (False, s\<lparr>request_timestamps := kept\<rparr>)
      else (True, s\<lparr>request_timestamps := kept @ [now]\<rparr>))"

definition session_feed :: "bytes \<Rightarrow> bytes list act" where
  "session_feed chunk = (\<lambda>w. case framer_feed (s_framer (w_sess w)) chunk of
     (r, f) \<Rightarrow> (r, w\<lparr>w_sess := (w_sess w)\<lparr>s_framer := f\<rparr>\<rparr>))"

section \<open>The rate of requests\<close>

text \<open>The server loop asks \<open>allow_request_now\<close> for one control request after the other.\<close>

primrec request_run :: "real list \<Rightarrow> session \<Rightarrow> bool list" where
  "request_run [] s = []"
| "request_run (t # ts) s = (case allow_request_now t s of (ok, s') \<Rightarrow> ok # request_run ts s')"

text \<open>
  What it is meant to compute: a request is let through exactly when fewer than \<open>m\<close> of all
  the requests let through before lie in the window of \<open>d\<close> seconds that ends now.
\<close>

primrec sliding_window :: "int \<Rightarrow> real \<Rightarrow> real list \<Rightarrow> real list \<Rightarrow> bool list" where
  "sliding_window m d history [] = []"
| "sliding_window m d history (t # ts) =
     (let ok = len (filter (\<lambda>u. t - d \<le> u) history) < m
      in ok # sliding_window m d (if ok then history @ [t] else history) ts)"

definition allowed :: "real list \<Rightarrow> bool list \<Rightarrow> real list" where
  "allowed ts oks = map fst (filter snd (zip ts oks))"

text \<open>
  \<open>remembers h t s\<close>: the deque of \<open>s\<close> is the history \<open>h\<close> less entries that no window
  ending at \<open>t\<close> or later reaches.
\<close>

definition remembers :: "real list \<Rightarrow> real \<Rightarrow> session \<Rightarrow> bool" where
  "remembers h t s \<longleftrightarrow> sorted h \<and> (\<forall>u \<in> set h. u \<le> t) \<and>
     (\<exists>p. h = p @ request_timestamps s \<and> (\<forall>u \<in> set p. u < t - req_window_s (s_config s)))"

lemma dropWhile_sorted_filter:
  "sorted xs \<Longrightarrow> dropWhile (\<lambda>u. u < c) xs = filter (\<lambda>u. c \<le> u) (xs :: real list)"
proof (induction xs)
  case (Cons a xs)
  show ?case
  proof (cases "a < c")
    case False
    have "filter (\<lambda>u. c \<le> u) (a # xs) = a # xs"
      by (rule filter_True) (use False Cons.prems in auto)
    with False show ?thesis by (simp add: not_less)
  qed (use Cons in simp)
qed simp

lemma remembers_later: "remembers h t s \<Longrightarrow> t \<le> t' \<Longrightarrow> remembers h t' s"
  unfolding remembers_def by force

lemma remembers_kept:
  assumes "remembers h t s"
  shows "dropWhile (\<lambda>u. u < t - req_window_s (s_config s)) (request_timestamps s)
    = filter (\<lambda>u. t - req_window_s (s_config s) \<le> u) h"
proof -
  obtain p where p: "h = p @ request_timestamps s" "\<forall>u \<in> set p. u < t - req_window_s (s_config s)"
    using assms by (auto simp: remembers_def)
  have "sorted (request_timestamps s)" using assms p(1) by (auto simp: remembers_def sorted_append)
  moreover have "filter (\<lambda>u. t - req_window_s (s_config s) \<le> u) p = []" using p(2) by (auto simp: filter_empty_conv)
  ultimately show ?thesis using p(1) by (simp add: dropWhile_sorted_filter)
qed

lemma remembers_step:
  assumes r: "remembers h t s" and a: "allow_request_now t s = (ok, s')"
  shows "remembers (if ok then h @ [t] else h) t s'"
    and "ok \<longleftrightarrow> len (filter (\<lambda>u. t - req_window_s (s_config s) \<le> u) h) < max_req_per_window (s_config s)"
    and "s_config s' = s_config s"
proof -
  let ?c = "t - req_window_s (s_config s)"
  let ?kept = "dropWhile (\<lambda>u. u < ?c) (request_timestamps s)"
  obtain p where p: "h = p @ request_timestamps s" "\<forall>u \<in> set p. u < ?c"
    using r by (auto simp: remembers_def)
  have split: "h = (p @ takeWhile (\<lambda>u. u < ?c) (request_timestamps s)) @ ?kept" using p(1) by simp
  have old: "\<forall>u \<in> set (p @ takeWhile (\<lambda>u. u < ?c) (request_timestamps s)). u < ?c"
    using p(2) by (auto dest: set_takeWhileD)
  show cfg: "s_config s' = s_config s" and
    "ok \<longleftrightarrow> len (filter (\<lambda>u. ?c \<le> u) h) < max_req_per_window (s_config s)"
    using a remembers_kept [OF r] by (auto simp: allow_request_now_def Let_def split: if_splits)
  have ts: "request_timestamps s' = ?kept @ (if ok then [t] else [])"
    using a by (auto simp: allow_request_now_def Let_def split: if_splits)
  have "(if ok then h @ [t] else h) = (p @ takeWhile (\<lambda>u. u < ?c) (request_timestamps s)) @ request_timestamps s'"
    using split ts by simp
  moreover have "sorted (if ok then h @ [t] else h)" "\<forall>u \<in> set (if ok then h @ [t] else h). u \<le> t"
    using r by (auto simp: remembers_def sorted_append)
  ultimately show "remembers (if ok then h @ [t] else h) t s'"
    unfolding remembers_def cfg using old by blast
qed

lemma request_run_reference:
  "remembers h t0 s \<Longrightarrow> sorted (t0 # ts) \<Longrightarrow>
    request_run ts s = sliding_window (max_req_per_window (s_config s)) (req_window_s (s_config s)) h ts"
proof (induction ts arbitrary: h t0 s)
  case (Cons t ts)
  have now: "remembers h t s" by (rule remembers_later [OF Cons.prems(1)]) (use Cons.prems(2) in simp)
  obtain ok s' where a: "allow_request_now t s = (ok, s')" by fastforce
  note step = remembers_step [OF _ a]
  have "request_run ts s' = sliding_window (max_req_per_window (s_config s')) (req_window_s (s_config s'))
      (if ok then h @ [t] else h) ts"
    by (rule Cons.IH [OF step(1) [OF now]]) (use Cons.prems(2) in auto)
  with step(2,3) [OF now] a show ?case by (simp add: Let_def)
qed simp

lemma request_run_fresh:
  assumes "request_timestamps s = []" and "sorted ts"
  shows "request_run ts s = sliding_window (max_req_per_window (s_config s)) (req_window_s (s_config s)) [] ts"
proof (cases ts)
  case (Cons t ts')
  have "remembers [] t s" using assms(1) by (simp add: remembers_def)
  then show ?thesis by (rule request_run_reference) (use assms(2) Cons in auto)
qed simp

text \<open>C19: the rate limiter is exact: for requests at non-decreasing times, \<open>allow_request_now\<close>,
  which forgets old timestamps as it goes, lets a request through exactly when fewer than
  \<open>max_req_per_window\<close> of all the requests it let through before lie in the last
  \<open>req_window_s\<close> seconds.\<close>

theorem rate_limiter_exact:
  assumes "request_timestamps s = []" and "sorted ts"
  shows "request_run ts s = sliding_window (max_req_per_window (s_config s)) (req_window_s (s_config s)) [] ts"
  by (rule request_run_fresh [OF assms])

lemma sliding_window_bound:
  assumes "sorted (h @ ts)" and "0 \<le> m"
    and "\<And>x. len (filter (\<lambda>u. x \<le> u \<and> u \<le> x + d) h) \<le> m"
  shows "len (filter (\<lambda>u. x \<le> u \<and> u \<le> x + d) (h @ allowed ts (sliding_window m d h ts))) \<le> m"
  using assms
proof (induction ts arbitrary: h)
  case (Cons t ts)
  let ?ok = "len (filter (\<lambda>u. t - d \<le> u) h) < m"
  let ?h = "if ?ok then h @ [t] else h"
  have "len (filter (\<lambda>u. y \<le> u \<and> u \<le> y + d) ?h) \<le> m" for y
  proof (cases "?ok \<and> y \<le> t \<and> t \<le> y + d")
    case True
    have "filter (\<lambda>u. y \<le> u \<and> u \<le> y + d) h = filter (\<lambda>u. y \<le> u \<and> u \<le> y + d) (filter (\<lambda>u. t - d \<le> u) h)"
      using True by (auto intro!: filter_cong)
    then have "length (filter (\<lambda>u. y \<le> u \<and> u \<le> y + d) h) \<le> length (filter (\<lambda>u. t - d \<le> u) h)"
      by (metis length_filter_le)
    with True show ?thesis by simp
  qed (use Cons.prems(3) [of y] in auto)
  then have "len (filter (\<lambda>u. x \<le> u \<and> u \<le> x + d) (?h @ allowed ts (sliding_window m d ?h ts))) \<le> m"
    by (intro Cons.IH) (use Cons.prems(1,2) in \<open>auto simp: sorted_append\<close>)
  then show ?case by (auto simp: allowed_def Let_def split: if_splits)
qed (simp add: allowed_def)

lemma session_init_fresh:
  "session_init c uuid now key = Ok s \<Longrightarrow> s_config s = c \<and> has_writer s \<and> \<not> handshake_verified s \<and>
    client_nonce s = None \<and> server_nonce s = None \<and> security_version s = None \<and> server_identity_key s = key \<and>
    \<not> has_upload_slot s \<and> request_timestamps s = [] \<and> xfer s = no_transfer \<and> connected_at s = now \<and> last_activity s = now"
  by (auto simp: session_init_def split: res.splits)

text \<open>A session of the default configuration, for concrete runs.\<close>

definition config_example :: config where
  "config_example = Config_new (lit ''127.0.0.1'') 1256 (lit ''data/seftp_server_sql.db'') (lit ''INFO'')"

definition session_example :: session where
  "session_example = (case session_init config_example (replicate 16 7) 0 0 of Ok s \<Rightarrow> s)"

lemma session_example_simps [simp]:
  "session_init config_example (replicate 16 7) 0 0 = Ok session_example"
  "s_config session_example = config_example"
  "request_timestamps session_example = []"
  "xfer session_example = no_transfer"
  "handshake_verified session_example = False"
  "has_writer session_example = True"
  "has_upload_slot session_example = False"
  "connection_id session_example = bytes_hex (replicate 16 7)"
  "connected_at session_example = 0"
  "last_activity session_example = 0"
  by (simp_all add: session_example_def session_init_def framer_init_def config_example_def Config_new_def)

theorem rate_limiter_exact_witness:
  "request_run [0, 1] session_example = sliding_window 50 5 [] [0, 1]"
  using rate_limiter_exact [of session_example "[0, 1]"] by (simp add: config_example_def Config_new_def)

text \<open>C20: no client gets more through than configured: whichever window of \<open>req_window_s\<close> seconds
  one looks at, at most \<open>max_req_per_window\<close> requests were let through in it.\<close>

theorem rate_limiter_window_bound:
  assumes "request_timestamps s = []" and "sorted ts" and "0 \<le> max_req_per_window (s_config s)"
  shows "len (filter (\<lambda>u. x \<le> u \<and> u \<le> x + req_window_s (s_config s)) (allowed ts (request_run ts s)))
    \<le> max_req_per_window (s_config s)"
  using sliding_window_bound [of "[]" ts] assms by (simp add: request_run_fresh)

theorem rate_limiter_window_bound_witness:
  "len (filter (\<lambda>u. 2 \<le> u \<and> u \<le> 2 + 5) (allowed [1, 2, 3] (request_run [1, 2, 3] session_example))) \<le> 50"
  using rate_limiter_window_bound [of session_example "[1, 2, 3]" 2]
  by (simp add: config_example_def Config_new_def)

section \<open>A concrete world\<close>

text \<open>
  An outside in which nothing fails, for concrete runs: a clock that ticks, a cipher that
  leaves its input alone, padding as PKCS 7 has it.
\<close>

definition pkcs7_unpad :: "bytes \<Rightarrow> nat \<Rightarrow> bytes option" where
  "pkcs7_unpad b n =
     (if b = [] \<or> length b mod n \<noteq> 0 then None
      else let k = unat (last b) in
        if k < 1 \<or> k > n \<or> drop (length b - k) b \<noteq> replicate k (last b) then None
        else Some (take (length b - k) b))"

definition env_example :: env where
  "env_example = \<lparr>mono = real, wall = (\<lambda>_. lit ''now''), uuid4 = (\<lambda>n. replicate 16 (of_nat n)),
     random_bytes = (\<lambda>n k. replicate k (of_nat n)), drain_outcome = (\<lambda>_. None), sql = (\<lambda>_. SqlOk),
     os_fails = (\<lambda>_. False), isalnum = (\<lambda>c. 48 \<le> c \<and> c \<le> 57 \<or> 65 \<le> c \<and> c \<le> 90 \<or> 97 \<le> c \<and> c \<le> 122),
     py_repr = (\<lambda>s. s), rsa_import = (\<lambda>_. Some 0), rsa_has_private = (\<lambda>_. False),
     rsa_size_in_bits = (\<lambda>_. 2048), rsa_e = (\<lambda>_. 65537), rsa_public_der = (\<lambda>_. [48]),
     rsa_sign = (\<lambda>_ _. [7]), oaep_encrypt = (\<lambda>_ _ m. Ok m), aes_key_ok = (\<lambda>_ _. True),
     aes_cbc_dec = (\<lambda>_ _ _ c. c), unpad = pkcs7_unpad\<rparr>"

definition world_example :: world where
  "world_example = \<lparr>w_sess = session_example, w_store = store_example,
     w_limiter = \<lparr>max_concurrent_uploads = 10, active_uploads = 0\<rparr>, w_metrics = Some runtime_metrics_init,
     w_fs = \<lparr>entries = Map.empty, inodes = (\<lambda>_. []), next_inode = 0\<rparr>, w_out = [], w_tick = 0,
     w_conns = \<lparr>max_connections = 10, max_connections_per_ip = 10, active_total = 0, active_by_ip = Map.empty\<rparr>,
     w_closed = False\<rparr>"

lemma env_example_simps [simp]:
  "drain_outcome env_example n = None" "sql env_example n = SqlOk" "os_fails env_example n = False"
  "random_bytes env_example n k = replicate k (of_nat n)" "rsa_public_der env_example j = [48]"
  "rsa_sign env_example j t = [7]" "aes_cbc_dec env_example a b c d = d" "unpad env_example = pkcs7_unpad"
  "aes_key_ok env_example a b" "oaep_encrypt env_example n j a = Ok a" "rsa_import env_example a = Some 0"
  "mono env_example n = real n" "rsa_size_in_bits env_example j = 2048" "rsa_e env_example j = 65537" "rsa_has_private env_example j = False"
  by (simp_all add: env_example_def)

lemma world_example_simps [simp]:
  "w_sess world_example = session_example" "w_store world_example = store_example" "w_out world_example = []"
  "w_limiter world_example = \<lparr>max_concurrent_uploads = 10, active_uploads = 0\<rparr>" "w_tick world_example = 0"
  "w_metrics world_example = Some runtime_metrics_init"
  "w_conns world_example = \<lparr>max_connections = 10, max_connections_per_ip = 10, active_total = 0, active_by_ip = Map.empty\<rparr>"
  "w_fs world_example = \<lparr>entries = Map.empty, inodes = (\<lambda>_. []), next_inode = 0\<rparr>"
  by (simp_all add: world_example_def)

end
