(* ===== verification/Identity.thy ===== *)
theory Identity
  imports Session
begin

text \<open>
  \<open>server/src/server_identity.py\<close>: what the server signs with its identity key. The RSA
  signature over SHA-256 is the parameter \<open>rsa_sign\<close>; the transcripts are built here. The
  facts say that a transcript determines every field it binds and that the two kinds of
  transcript can never be confused.
\<close>

definition TRANSCRIPT_CONTEXT :: bytes where
  "TRANSCRIPT_CONTEXT = ascii ''SEFTP_STAGE7_SERVER_HELLO''"

definition AES_KEY_BINDING_CONTEXT :: bytes where
  "AES_KEY_BINDING_CONTEXT = ascii ''SEFTP_STAGE7_AES_KEY_BINDING''"

definition get_public_key_der :: "env \<Rightarrow> rsa_key \<Rightarrow> bytes" where
  "get_public_key_der E key = rsa_public_der E key"

definition server_hello_transcript :: "int \<Rightarrow> bytes \<Rightarrow> bytes \<Rightarrow> bytes \<Rightarrow> bytes res" where
  "server_hello_transcript sv cn sn der =
     res_bnd (to_bytes 1 sv) (\<lambda>v. Ok (TRANSCRIPT_CONTEXT @ v @ cn @ sn @ der))"

definition sign_server_hello :: "env \<Rightarrow> rsa_key \<Rightarrow> int \<Rightarrow> bytes \<Rightarrow> bytes \<Rightarrow> bytes \<Rightarrow> bytes res" where
  "sign_server_hello E key sv cn sn der =
     res_bnd (server_hello_transcript sv cn sn der) (\<lambda>t. Ok (rsa_sign E key t))"

definition aes_key_binding_transcript :: "int \<Rightarrow> bytes \<Rightarrow> bytes \<Rightarrow> bytes \<Rightarrow> int \<Rightarrow> bytes \<Rightarrow> bytes res" where
  "aes_key_binding_transcript sv cn sn cid code enc =
     res_bnd (to_bytes 1 sv) (\<lambda>v. res_bnd (to_bytes 2 code) (\<lambda>c.
       Ok (AES_KEY_BINDING_CONTEXT @ v @ cn @ sn @ cid @ c @ enc)))"

definition sign_aes_key_binding ::
  "env \<Rightarrow> rsa_key \<Rightarrow> int \<Rightarrow> bytes \<Rightarrow> bytes \<Rightarrow> bytes \<Rightarrow> int \<Rightarrow> bytes \<Rightarrow> bytes res" where
  "sign_aes_key_binding E key sv cn sn cid code enc =
     res_bnd (aes_key_binding_transcript sv cn sn cid code enc) (\<lambda>t. Ok (rsa_sign E key t))"

lemma context_prefixes:
  "take 14 TRANSCRIPT_CONTEXT \<noteq> take 14 AES_KEY_BINDING_CONTEXT"
  "length TRANSCRIPT_CONTEXT = 25" "length AES_KEY_BINDING_CONTEXT = 28"
  by (simp_all add: TRANSCRIPT_CONTEXT_def AES_KEY_BINDING_CONTEXT_def ascii_def)

lemma contexts_diverge: "TRANSCRIPT_CONTEXT @ a \<noteq> AES_KEY_BINDING_CONTEXT @ b"
proof
  assume "TRANSCRIPT_CONTEXT @ a = AES_KEY_BINDING_CONTEXT @ b"
  then have "take 14 (TRANSCRIPT_CONTEXT @ a) = take 14 (AES_KEY_BINDING_CONTEXT @ b)" by simp
  with context_prefixes show False by simp
qed

text \<open>C21: a signature made for a server hello can never pass for an AES key binding or the other
  way round: no hello transcript equals a binding transcript, whatever their fields.\<close>
theorem transcripts_domain_separated:
  "server_hello_transcript sv cn sn der = Ok t \<Longrightarrow>
   aes_key_binding_transcript sv' cn' sn' cid code enc = Ok t' \<Longrightarrow> t \<noteq> t'"
  by (auto simp: server_hello_transcript_def aes_key_binding_transcript_def res_bnd_Ok contexts_diverge)

theorem transcripts_domain_separated_witness:
  "TRANSCRIPT_CONTEXT @ [1] @ zeros 32 @ zeros 32 @ [7] \<noteq>
   AES_KEY_BINDING_CONTEXT @ [1] @ zeros 32 @ zeros 32 @ zeros 16 @ [66, 6] @ [7]"
  by (rule transcripts_domain_separated [of 1 "zeros 32" "zeros 32" "[7]" _ 1 "zeros 32" "zeros 32" "zeros 16" 1602 "[7]"])
    (simp_all add: server_hello_transcript_def aes_key_binding_transcript_def to_bytes_def le_encode_fields)

text \<open>C22: a signed AES key binding commits to every field: with nonces of 32 bytes and ids of 16,
  two bindings with the same transcript have the same security version, nonces, client,
  response code and encrypted key, so a signed key cannot be replayed to another session,
  client or response.\<close>
theorem aes_key_binding_injective:
  assumes "aes_key_binding_transcript sv cn sn cid code enc = Ok t"
    and "aes_key_binding_transcript sv' cn' sn' cid' code' enc' = Ok t"
    and "length cn = 32" "length cn' = 32" "length sn = 32" "length sn' = 32"
    and "length cid = 16" "length cid' = 16"
  shows "sv = sv' \<and> cn = cn' \<and> sn = sn' \<and> cid = cid' \<and> code = code' \<and> enc = enc'"
proof -
  have r: "0 \<le> sv \<and> sv < 256 ^ 1" "0 \<le> sv' \<and> sv' < 256 ^ 1" "0 \<le> code \<and> code < 256 ^ 2" "0 \<le> code' \<and> code' < 256 ^ 2"
    and eq: "le_encode 1 sv @ cn @ sn @ cid @ le_encode 2 code @ enc = le_encode 1 sv' @ cn' @ sn' @ cid' @ le_encode 2 code' @ enc'"
    using assms(1,2) by (auto simp: aes_key_binding_transcript_def res_bnd_Ok to_bytes_Ok)
  from eq have "le_encode 1 sv = le_encode 1 sv'" "cn = cn'" "sn = sn'" "cid = cid'" "le_encode 2 code = le_encode 2 code'" "enc = enc'"
    using assms(3-8) by (simp_all add: append_eq_same_length del: le_encode.simps append_eq_append_conv)
  with r le_encode_inject [of sv 1 sv'] le_encode_inject [of code 2 code'] show ?thesis by simp
qed

theorem aes_key_binding_injective_witness:
  "\<exists>t. aes_key_binding_transcript 1 (zeros 32) (zeros 32) (zeros 16) 1602 [7] = Ok t \<and>
     aes_key_binding_transcript 1 (zeros 32) (zeros 32) (zeros 16) 1605 [7] \<noteq> Ok t"
proof -
  let ?t = "AES_KEY_BINDING_CONTEXT @ le_encode 1 1 @ zeros 32 @ zeros 32 @ zeros 16 @ le_encode 2 1602 @ [7]"
  have t: "aes_key_binding_transcript 1 (zeros 32) (zeros 32) (zeros 16) 1602 [7] = Ok ?t"
    by (simp add: aes_key_binding_transcript_def to_bytes_def)
  have "aes_key_binding_transcript 1 (zeros 32) (zeros 32) (zeros 16) 1605 [7] \<noteq> Ok ?t"
  proof
    assume "aes_key_binding_transcript 1 (zeros 32) (zeros 32) (zeros 16) 1605 [7] = Ok ?t"
    from aes_key_binding_injective [OF t this] show False by simp
  qed
  with t show ?thesis by blast
qed

end
