(* ===== verification/Answers.thy ===== *)
theory Answers
  imports Identity
begin

text \<open>
  \<open>server/src/answers.py\<close>: the responses. Each \<open>answer_N\<close> is the whole coroutine: the frame it
  builds (which may raise before anything is sent), its entries in the store, and the send.
  Calls of the logger have no effect in the model.

  The interface \<open>quiet_rel\<close> collects the relations between the world before and after that
  sending a response respects; the handlers' lemmas rest on it.
\<close>

definition build_bound_aes_key_payload :: "env \<Rightarrow> bytes \<Rightarrow> bytes \<Rightarrow> int \<Rightarrow> session \<Rightarrow> bytes res" where
  "build_bound_aes_key_payload E ct cid code s =
     (if \<not> handshake_verified s then Raise RuntimeError
      else case (security_version s, client_nonce s, server_nonce s) of
        (Some sv, Some cn, Some sn) \<Rightarrow>
          res_bnd (sign_aes_key_binding E (server_identity_key s) sv cn sn cid code ct) (\<lambda>sig.
            if len ct > 65535 then Raise ValueError
            else if len sig > 65535 then Raise ValueError
            else res_bnd (to_bytes 2 (len ct)) (\<lambda>n. res_bnd (to_bytes 2 (len sig)) (\<lambda>m.
              Ok (cid @ n @ ct @ m @ sig))))
      | _ \<Rightarrow> Raise RuntimeError)"

definition message_answer :: "bytes \<Rightarrow> int \<Rightarrow> int \<Rightarrow> bytes \<Rightarrow> bytes res" where
  "message_answer version code payload_size payload =
     (if length version \<noteq> 1 then Raise ValueError
      else if payload_size \<noteq> len payload then Raise ValueError
      else res_bnd (to_bytes 2 code) (\<lambda>c. res_bnd (to_bytes 4 payload_size) (\<lambda>n.
        Ok (version @ c @ n @ payload))))"

definition answer_1600 :: "env \<Rightarrow> bytes \<Rightarrow> bytes \<Rightarrow> unit act" where
  "answer_1600 E cid version = block [
     log_event E (ById cid) ''answer_1600'',
     bnd (lift_res (message_answer version 1600 16 cid)) (session_send E)]"

definition answer_1601 :: "env \<Rightarrow> bytes \<Rightarrow> unit act" where
  "answer_1601 E version =
     bnd (lift_res (message_answer version 1601 0 [])) (session_send E)"

text \<open>\<open>answer_1602\<close> and \<open>answer_1605\<close> differ in the response code and the log entry.\<close>

definition answer_aes_key :: "env \<Rightarrow> int \<Rightarrow> string \<Rightarrow> bytes \<Rightarrow> bytes \<Rightarrow> bytes \<Rightarrow> unit act" where
  "answer_aes_key E code what ct cid version = rd (\<lambda>w.
     bnd (lift_res (build_bound_aes_key_payload E ct cid code (w_sess w))) (\<lambda>payload.
     bnd (lift_res (message_answer version code (len payload) payload)) (\<lambda>message. block [
       touch_client E (bytes_hex cid),
       log_event E (ById cid) what,
       session_send E message])))"

definition answer_1602 :: "env \<Rightarrow> bytes \<Rightarrow> bytes \<Rightarrow> bytes \<Rightarrow> unit act" where
  "answer_1602 E = answer_aes_key E 1602 ''answer_1602''"

definition answer_1605 :: "env \<Rightarrow> bytes \<Rightarrow> bytes \<Rightarrow> bytes \<Rightarrow> unit act" where
  "answer_1605 E = answer_aes_key E 1605 ''answer_1605''"

definition answer_1606 :: "env \<Rightarrow> bytes \<Rightarrow> bytes \<Rightarrow> pystr \<Rightarrow> unit act" where
  "answer_1606 E cid version name =
     bnd (lift_res (message_answer version 1606 16 cid)) (\<lambda>message. block [
       (if cid = zeros 16 then log_event E (ByName name) ''answer_1606''
        else block [log_event E (ById cid) ''answer_1606'', touch_client E (bytes_hex cid)]),
       session_send E message])"

definition answer_1603 :: "env \<Rightarrow> bytes \<Rightarrow> bytes \<Rightarrow> pystr \<Rightarrow> int \<Rightarrow> u32 \<Rightarrow> unit act" where
  "answer_1603 E cid version file_name content_size crc = block [
     touch_client E (bytes_hex cid),
     log_event E (ById cid) ''answer_1603'',
     bnd (lift_res (res_bnd (to_bytes 4 (uint crc)) (\<lambda>checksum.
            res_bnd (to_bytes 4 content_size) (\<lambda>size.
            res_bnd (utf8_encode file_name) (\<lambda>name.
            let payload = cid @ size @ (name @ [0]) @ checksum in
            message_answer version 1603 (len payload) payload)))))
       (session_send E)]"

definition touch_if_known :: "env \<Rightarrow> bytes \<Rightarrow> unit act" where
  "touch_if_known E cid = rd (\<lambda>w. case get_client_by_id (bytes_hex cid) (w_store w) of
      None \<Rightarrow> ret () | Some r \<Rightarrow> touch_client E (client_id_hex r))"

definition answer_1604 :: "env \<Rightarrow> bytes \<Rightarrow> bytes \<Rightarrow> unit act" where
  "answer_1604 E cid version =
     bnd (lift_res (message_answer version 1604 16 cid)) (\<lambda>message. block [
       touch_if_known E cid,
       log_event E (ById cid) ''answer_1604'',
       session_send E message])"

definition answer_1607 :: "env \<Rightarrow> bytes \<Rightarrow> bytes \<Rightarrow> pystr \<Rightarrow> unit act" where
  "answer_1607 E cid version text = block [
     upd_metrics inc_responses_1607,
     bnd (lift_res (res_bnd (utf8_encode text) (\<lambda>t.
            let payload = cid @ t in message_answer version 1607 (len payload) payload)))
       (\<lambda>message. block [
         touch_if_known E cid,
         log_event E (ById cid) ''answer_1607'',
         session_send E message])]"

definition answer_1608 :: "env \<Rightarrow> bytes \<Rightarrow> int \<Rightarrow> bytes \<Rightarrow> bytes \<Rightarrow> bytes \<Rightarrow> unit act" where
  "answer_1608 E version sv sn der sig =
     bnd (lift_res
       (if length sn \<noteq> 32 then Raise ValueError
        else if \<not> (0 \<le> sv \<and> sv \<le> 255) then Raise ValueError
        else if len der > 65535 then Raise ValueError
        else if len sig > 65535 then Raise ValueError
        else res_bnd (to_bytes 1 sv) (\<lambda>v. res_bnd (to_bytes 2 (len der)) (\<lambda>n. res_bnd (to_bytes 2 (len sig)) (\<lambda>m.
          let payload = v @ sn @ n @ der @ m @ sig in
          message_answer version 1608 (len payload) payload)))))
     (session_send E)"

section \<open>Response frames\<close>

text \<open>The fields of a response as a client reads them: version, code, payload size, payload.\<close>

definition answer_code :: "bytes \<Rightarrow> int" where
  "answer_code m = le_decode (take 2 (drop 1 m))"

definition answer_payload :: "bytes \<Rightarrow> bytes" where
  "answer_payload m = drop 7 m"

definition answer_frame :: "bytes \<Rightarrow> bool" where
  "answer_frame m \<longleftrightarrow> 7 \<le> length m \<and> le_decode (take 4 (drop 3 m)) = len (answer_payload m)"

definition plain_answer :: "bytes \<Rightarrow> bool" where
  "plain_answer m \<longleftrightarrow> answer_frame m \<and> answer_code m \<in> {1600, 1601, 1603, 1604, 1606, 1607, 1608}"

lemma message_answer_fields:
  assumes "message_answer version code n payload = Ok m"
  shows "answer_frame m" "answer_code m = code" "answer_payload m = payload" "take 1 m = version"
proof -
  have a: "length version = 1" "n = len payload" "0 \<le> code" "code < 256 ^ 2" "0 \<le> n" "n < 256 ^ 4"
      "m = version @ le_encode 2 code @ le_encode 4 n @ payload"
    using assms by (auto simp: message_answer_def res_bnd_Ok to_bytes_Ok split: if_splits)
  then obtain v where v: "version = [v]" by (auto simp: length_Suc_conv)
  have m: "m = v # le_encode 2 code @ le_encode 4 n @ payload" using a(7) v by simp
  show "answer_payload m = payload" unfolding answer_payload_def m by simp
  moreover show "answer_code m = code" unfolding answer_code_def m using a(3,4) by (simp add: le_decode_encode)
  moreover have "take 4 (drop 3 m) = le_encode 4 n" unfolding m by simp
  ultimately show "answer_frame m"
    unfolding answer_frame_def using a(2,5,6) by (simp add: m le_decode_encode)
  show "take 1 m = version" using m v by simp
qed

lemma plain_answerI:
  "message_answer version code n payload = Ok m \<Longrightarrow> code \<in> {1600, 1601, 1603, 1604, 1606, 1607, 1608} \<Longrightarrow>
    plain_answer m"
  by (simp add: plain_answer_def message_answer_fields)

section \<open>What sending a response may change\<close>

text \<open>\<open>s'\<close> differs from \<open>s\<close> in the bookkeeping of the connection only.\<close>

definition same_core :: "session \<Rightarrow> session \<Rightarrow> bool" where
  "same_core s s' \<longleftrightarrow> s' = s\<lparr>request_id := request_id s', last_activity := last_activity s',
     bytes_in := bytes_in s', bytes_out := bytes_out s', frames_ok := frames_ok s', frames_bad := frames_bad s',
     disconnect_reason := disconnect_reason s', last_client_id := last_client_id s', last_version := last_version s'\<rparr>"

lemma same_core_intros [simp]:
  "same_core s (s\<lparr>last_activity := a\<rparr>)" "same_core s (s\<lparr>bytes_out := b\<rparr>)" "same_core s (s\<lparr>bytes_in := b\<rparr>)"
  "same_core s (s\<lparr>frames_ok := i\<rparr>)" "same_core s (s\<lparr>frames_bad := i, disconnect_reason := d\<rparr>)"
  "same_core s (s\<lparr>disconnect_reason := d\<rparr>)" "same_core s (s\<lparr>request_id := r\<rparr>)"
  "same_core s (s\<lparr>last_client_id := c, last_version := v\<rparr>)"
  by (simp_all add: same_core_def)

lemma same_core_fields:
  assumes "same_core s s'"
  shows "s_config s' = s_config s" "has_writer s' = has_writer s" "connection_id s' = connection_id s"
    "has_upload_slot s' = has_upload_slot s" "handshake_verified s' = handshake_verified s"
    "client_nonce s' = client_nonce s" "server_nonce s' = server_nonce s"
    "security_version s' = security_version s" "server_identity_key s' = server_identity_key s"
    "request_timestamps s' = request_timestamps s" "xfer s' = xfer s" "s_framer s' = s_framer s"
  by (subst assms [unfolded same_core_def], simp)+

locale quiet_rel = change_rel R for R :: "world \<Rightarrow> world \<Rightarrow> bool" +
  fixes E :: env
  assumes quiet_tick: "R w (w\<lparr>w_tick := n\<rparr>)"
    and quiet_metrics: "map_option gauges m = map_option gauges (w_metrics w) \<Longrightarrow> R w (w\<lparr>w_metrics := m\<rparr>)"
    and quiet_log: "R w (w\<lparr>w_store := (w_store w)\<lparr>clients_recent_log := l\<rparr>\<rparr>)"
    and quiet_touch: "R w (w\<lparr>w_store := snd (touch_client_last_seen (sql E n) now cid (w_store w))\<rparr>)"
    and quiet_sess: "same_core (w_sess w) s \<Longrightarrow> R w (w\<lparr>w_sess := s\<rparr>)"
    and quiet_out: "plain_answer data \<Longrightarrow> R w (w\<lparr>w_out := w_out w @ [data]\<rparr>)"
begin

lemma keeps_next_of: "keeps R (next_of f)"
  by (simp add: keeps_def next_of_def quiet_tick)

lemma keeps_upd_metrics: "(\<And>m. gauges (f m) = gauges m) \<Longrightarrow> keeps R (upd_metrics f)"
  by (simp add: keeps_def upd_metrics_def quiet_metrics option.map_comp o_def)

lemmas keeps_counters = keeps_upd_metrics [OF gauges_inc(1)] keeps_upd_metrics [OF gauges_inc(2)]
  keeps_upd_metrics [OF gauges_inc(3)] keeps_upd_metrics [OF gauges_inc(4)]

lemma keeps_upd_sess: "(\<And>s. same_core s (f s)) \<Longrightarrow> keeps R (upd_sess f)"
  by (simp add: keeps_def upd_sess_def quiet_sess)

lemma keeps_on_store: "(\<And>w. R w (w\<lparr>w_store := snd (op (w_store w))\<rparr>)) \<Longrightarrow> keeps R (on_store op)"
  by (simp add: keeps_def on_store_def split_beta)

lemma keeps_next:
  "(\<And>n. keeps R (k (f n))) \<Longrightarrow> keeps R (bnd (next_of f) k)"
  by (rule keepsI) (auto simp: next_of_def bnd_def dest!: keepsD intro: R_trans quiet_tick)

lemma keeps_log_event: "keeps R (log_event E k what)"
  unfolding log_event_def by (intro keeps_rules keeps_next_of keeps_upd) (simp add: log_append_def quiet_log)

lemma keeps_touch_client: "keeps R (touch_client E cid)"
  unfolding touch_client_def
  by (intro keeps_next keeps_next_of keeps_on_store keeps_rules quiet_touch)

lemma keeps_mark_activity: "keeps R (mark_activity E)"
  unfolding mark_activity_def by (intro keeps_rules keeps_next_of keeps_upd_sess) simp

lemma keeps_session_send:
  assumes "plain_answer data"
  shows "keeps R (session_send E data)"
proof -
  have "keeps R (writer_write data)"
    using assms by (simp add: keeps_def writer_write_def quiet_out)
  then show ?thesis
    unfolding session_send_def writer_drain_def on_frame_sent_def block.simps
    by (intro keeps_rules keeps_next_of keeps_upd_sess keeps_mark_activity) simp_all
qed

lemma keeps_touch_if_known: "keeps R (touch_if_known E cid)"
  unfolding touch_if_known_def by (intro keeps_rules keeps_touch_client)

lemmas quiet_rules = keeps_touch_client keeps_touch_if_known keeps_log_event keeps_next_of keeps_counters
  keeps_mark_activity keeps_rules

lemma keeps_answer_1600: "keeps R (answer_1600 E cid version)"
  unfolding answer_1600_def block.simps
  by (intro quiet_rules keeps_session_send) (erule plain_answerI, simp)

lemma keeps_answer_1601: "keeps R (answer_1601 E version)"
  unfolding answer_1601_def by (intro quiet_rules keeps_session_send) (erule plain_answerI, simp)

lemma keeps_answer_1603: "keeps R (answer_1603 E cid version name n crc)"
  unfolding answer_1603_def block.simps Let_def
  by (intro quiet_rules keeps_session_send) (auto simp: res_bnd_Ok elim: plain_answerI)

lemma keeps_answer_1604: "keeps R (answer_1604 E cid version)"
  unfolding answer_1604_def block.simps by (intro quiet_rules keeps_session_send) (erule plain_answerI, simp)

lemma keeps_answer_1606: "keeps R (answer_1606 E cid version name)"
  unfolding answer_1606_def block.simps by (intro quiet_rules keeps_session_send) (erule plain_answerI, simp)

lemma keeps_answer_1607: "keeps R (answer_1607 E cid version t)"
  unfolding answer_1607_def block.simps Let_def
  by (intro quiet_rules keeps_session_send) (auto simp: res_bnd_Ok elim: plain_answerI)

lemma keeps_answer_1608: "keeps R (answer_1608 E version sv sn der sig)"
  unfolding answer_1608_def Let_def
  by (intro quiet_rules keeps_session_send) (auto simp: res_bnd_Ok elim: plain_answerI split: if_splits)

text \<open>Handing an AES key out writes to the connection and touches the client, no more.\<close>

lemma keeps_hand_out:
  assumes "\<And>w m. R w (w\<lparr>w_out := w_out w @ [m]\<rparr>)"
  shows "keeps R (answer_aes_key E code what ct cid version)"
proof -
  have "keeps R (writer_write m)" for m by (simp add: keeps_def writer_write_def assms)
  then show ?thesis
    unfolding answer_aes_key_def session_send_def writer_drain_def on_frame_sent_def block.simps
    by (intro quiet_rules keeps_upd_sess) simp_all
qed

lemmas answer_rules = keeps_answer_1600 keeps_answer_1601 keeps_answer_1603 keeps_answer_1604
  keeps_answer_1606 keeps_answer_1607 keeps_answer_1608 quiet_rules

end

end
