(* ===== verification/Handlers_Auth.thy ===== *)
theory Handlers_Auth
  imports Answers
begin

text \<open>
  The registration, key-exchange, re-login and handshake handlers of
  \<open>server/src/handlers.py\<close>: \<open>request_825\<close>, \<open>request_826\<close>, \<open>request_827\<close>, \<open>request_829\<close>,
  \<open>request_830\<close>, each as the whole coroutine with its early returns as branches.
\<close>

definition is_valid_username :: "env \<Rightarrow> pystr \<Rightarrow> bool" where
  "is_valid_username E name =
     (if \<not> (1 \<le> length name \<and> length name \<le> 64) then False
      else if \<not> isalnum E (hd name) then False
      else list_all (\<lambda>ch. isalnum E ch \<or> ch \<in> set (lit ''._-'')) name)"

section \<open>Registration\<close>

text \<open>Move what was logged under a name before it was registered to the new client id.\<close>

definition adopt_log :: "pystr \<Rightarrow> bytes \<Rightarrow> store \<Rightarrow> store" where
  "adopt_log name cid st = (case clients_recent_log st (ByName name) of
      None \<Rightarrow> st
    | Some past \<Rightarrow> st\<lparr>clients_recent_log := (clients_recent_log st)
        (ById cid \<mapsto> (case clients_recent_log st (ById cid) of None \<Rightarrow> [] | Some es \<Rightarrow> es) @ past,
         ByName name := None)\<rparr>)"

definition request_825 :: "env \<Rightarrow> bytes \<Rightarrow> bytes \<Rightarrow> unit act" where
  "request_825 E payload version = (case utf8_decode (rstrip_nul payload) of
      None \<Rightarrow> throw UnicodeDecodeError
    | Some name \<Rightarrow>
        if \<not> is_valid_username E name then answer_1601 E version
        else rd (\<lambda>w. if \<not> client_exists_by_username name (w_store w) then
            bnd (next_of (uuid4 E)) (\<lambda>uuid. bnd (next_of (wall E)) (\<lambda>now. bnd (next_of (sql E)) (\<lambda>out.
            bnd (on_store (create_client out uuid now name)) (\<lambda>r. case r of
                None \<Rightarrow> throw AttributeError
              | Some record \<Rightarrow> (case bytes_fromhex (client_id_hex record) of
                  None \<Rightarrow> throw ValueError
                | Some cid \<Rightarrow> block [
                    upd (\<lambda>w. w\<lparr>w_store := adopt_log name cid (w_store w)\<rparr>),
                    log_event E (ById cid) ''request_825'',
                    answer_1600 E cid version])))))
          else answer_1601 E version))"

section \<open>Key exchange\<close>

text \<open>The checks of lines 126 to 147; \<open>None\<close> when one of them has already answered.\<close>

definition accept_rsa_key :: "env \<Rightarrow> bytes \<Rightarrow> bytes \<Rightarrow> pystr \<Rightarrow> bytes \<Rightarrow> rsa_key option act" where
  "accept_rsa_key E cid version name der = try_except
     (case rsa_import E der of
        None \<Rightarrow> throw ValueError
      | Some key \<Rightarrow>
          if rsa_has_private E key then bnd (answer_1606 E cid version name) (\<lambda>_. ret None)
          else if rsa_size_in_bits E key \<noteq> 2048 then bnd (answer_1606 E cid version name) (\<lambda>_. ret None)
          else if rsa_e E key < 3 \<or> rsa_e E key mod 2 = 0 then bnd (answer_1606 E cid version name) (\<lambda>_. ret None)
          else ret (Some key))
     any_exn
     (\<lambda>_. bnd (answer_1607 E cid version (lit ''Invalid RSA public key'')) (\<lambda>_. ret None))"

definition fresh_aes_key :: "env \<Rightarrow> pystr \<Rightarrow> bytes act" where
  "fresh_aes_key E cid_hex = bnd (next_of (\<lambda>n. random_bytes E n 32)) (\<lambda>key.
     bnd (next_of (sql E)) (\<lambda>out.
     bnd (on_store (set_client_aes_key out cid_hex (b64encode key))) (\<lambda>_. ret key)))"

text \<open>Lines 149 to 182: which AES key this client gets; \<open>None\<close> when the key was refused.\<close>

definition enrol_key :: "env \<Rightarrow> bytes \<Rightarrow> bytes \<Rightarrow> client_record \<Rightarrow> bytes \<Rightarrow> bytes option act" where
  "enrol_key E cid version record der =
     (case public_key_der record of
        None \<Rightarrow> bnd (next_of (sql E)) (\<lambda>out.
          bnd (on_store (set_client_public_key out (bytes_hex cid) der)) (\<lambda>_.
          bnd (fresh_aes_key E (bytes_hex cid)) (\<lambda>key. ret (Some key))))
      | Some stored \<Rightarrow>
          if der \<noteq> stored then bnd (answer_1607 E cid version (lit ''public key mismatch'')) (\<lambda>_. ret None)
          else (case aes_key_b64 record of
              None \<Rightarrow> bnd (fresh_aes_key E (bytes_hex cid)) (\<lambda>key. ret (Some key))
            | Some stored_aes \<Rightarrow> bnd (lift_res (b64decode False stored_aes)) (\<lambda>key. ret (Some key))))"

text \<open>The key a payload of request 826 carries, as lines 91 to 125 cut it out and decode it.\<close>

definition public_blob :: "bytes \<Rightarrow> bytes" where
  "public_blob payload = bytes_strip (rstrip_nul (drop (nat (find_nul payload) + 1) payload))"

text \<open>Lines 87 to 195: the client is known.\<close>

definition request_826_known :: "env \<Rightarrow> bytes \<Rightarrow> bytes \<Rightarrow> bytes \<Rightarrow> client_record \<Rightarrow> unit act" where
  "request_826_known E cid payload version record =
        bnd (touch_client E (bytes_hex cid)) (\<lambda>_.
        bnd (log_event E (ById cid) ''request_826'') (\<lambda>_.
        let sep = find_nul payload in
        if sep \<le> 0 then answer_1607 E cid version (lit ''bad 826 payload: missing NUL after name'')
        else case utf8_decode (take (nat sep) payload) of
          None \<Rightarrow> answer_1607 E cid version (lit ''bad 826 payload: name is not valid UTF-8'')
        | Some decoded \<Rightarrow> let name = str_strip decoded in
        if name \<noteq> username record then answer_1607 E cid version
            (lit ''name mismatch: got '' @ py_repr E name @ lit '', expected '' @ py_repr E (username record))
        else if \<not> list_all (\<lambda>b. unat b < 128) (public_blob payload)
          then answer_1607 E cid version (lit ''bad 826 payload: public key is not ASCII base64'')
        else case b64decode True (map unat (public_blob payload)) of
          Raise _ \<Rightarrow> answer_1607 E cid version (lit ''bad 826 payload: key is not valid Base64'')
        | Ok der \<Rightarrow>
        bnd (accept_rsa_key E cid version name der) (\<lambda>accepted. case accepted of
          None \<Rightarrow> ret ()
        | Some key_rsa \<Rightarrow>
        bnd (enrol_key E cid version record der) (\<lambda>chosen. case chosen of
          None \<Rightarrow> ret ()
        | Some key \<Rightarrow>
        bnd (bnd (next_of (\<lambda>n. oaep_encrypt E n key_rsa key)) lift_res) (\<lambda>ciphertext.
        answer_1602 E ciphertext cid version)))))"

definition request_826 :: "env \<Rightarrow> bytes \<Rightarrow> bytes \<Rightarrow> bytes \<Rightarrow> unit act" where
  "request_826 E cid payload version = rd (\<lambda>w. case get_client_by_id (bytes_hex cid) (w_store w) of
      None \<Rightarrow> answer_1607 E cid version (lit ''unknown client id'')
    | Some record \<Rightarrow> request_826_known E cid payload version record)"

section \<open>Re-login\<close>

definition request_827 :: "env \<Rightarrow> bytes \<Rightarrow> bytes \<Rightarrow> bytes \<Rightarrow> unit act" where
  "request_827 E cid payload version = (case utf8_decode (rstrip_nul payload) of
      None \<Rightarrow> answer_1606 E (zeros 16) version []
    | Some decoded \<Rightarrow> let name = str_strip decoded in
        rd (\<lambda>w. case get_client_by_username name (w_store w) of
          None \<Rightarrow> block [log_event E (ByName name) ''request_827'', answer_1606 E (zeros 16) version name]
        | Some record \<Rightarrow>
            if client_id_hex record \<noteq> bytes_hex cid
              then block [log_event E (ByName name) ''request_827'', answer_1606 E (zeros 16) version name]
            else case public_key_der record of
              None \<Rightarrow> answer_1606 E cid version name
            | Some [] \<Rightarrow> answer_1606 E cid version name
            | Some stored_key \<Rightarrow>
                bnd (touch_client E (bytes_hex cid)) (\<lambda>_.
                bnd (log_event E (ById cid) ''request_827'') (\<lambda>_. case rsa_import E stored_key of
                  None \<Rightarrow> answer_1606 E cid version name
                | Some pub \<Rightarrow>
                    if rsa_size_in_bits E pub \<noteq> 2048 then answer_1606 E cid version name
                    else bnd (fresh_aes_key E (bytes_hex cid)) (\<lambda>key.
                      bnd (bnd (next_of (\<lambda>n. oaep_encrypt E n pub key)) lift_res) (\<lambda>ciphertext.
                      answer_1605 E ciphertext cid version))))))"

section \<open>The Stage 7 handshake\<close>

definition request_829 :: "env \<Rightarrow> bytes \<Rightarrow> bytes \<Rightarrow> bytes \<Rightarrow> unit act" where
  "request_829 E payload version cid = rd (\<lambda>w. let s = w_sess w in
     if handshake_verified s then answer_1607 E cid version (lit ''bad 829: handshake already completed'')
     else if client_nonce s \<noteq> None \<or> server_nonce s \<noteq> None \<or> security_version s \<noteq> None
       then answer_1607 E cid version (lit ''bad 829: handshake already started'')
     else if length payload \<noteq> 34 then answer_1607 E cid version (lit ''bad 829: invalid payload length'')
     else let sv = uint (payload ! 0); nonce = take 32 (drop 1 payload); flags = uint (payload ! 33) in
     if sv \<noteq> 1 then answer_1607 E cid version (lit ''bad 829: unsupported security version'')
     else if length nonce \<noteq> 32 then answer_1607 E cid version (lit ''bad 829: invalid client nonce'')
     else if flags \<noteq> 0 then answer_1607 E cid version (lit ''bad 829: unsupported flags'')
     else
       bnd (upd_sess (\<lambda>s. s\<lparr>security_version := Some sv, client_nonce := Some nonce\<rparr>)) (\<lambda>_.
       bnd (next_of (\<lambda>n. random_bytes E n 32)) (\<lambda>sn.
       let der = get_public_key_der E (server_identity_key s) in
       bnd (lift_res (sign_server_hello E (server_identity_key s) sv nonce sn der)) (\<lambda>signature.
       bnd (upd_sess (\<lambda>s. s\<lparr>server_nonce := Some sn\<rparr>)) (\<lambda>_.
       answer_1608 E version sv sn der signature)))))"

definition request_830 :: "env \<Rightarrow> bytes \<Rightarrow> bytes \<Rightarrow> bytes \<Rightarrow> unit act" where
  "request_830 E payload version cid = rd (\<lambda>w. let s = w_sess w in
     if payload \<noteq> [] then answer_1607 E cid version (lit ''bad 830: expected empty payload'')
     else if handshake_verified s then answer_1607 E cid version (lit ''bad 830: handshake already completed'')
     else if client_nonce s = None \<or> server_nonce s = None \<or> security_version s = None
       then answer_1607 E cid version (lit ''bad 830: server hello not completed'')
     else upd_sess (\<lambda>s. s\<lparr>handshake_verified := True\<rparr>))"

section \<open>What these handlers may change\<close>

text \<open>The handshake, for a relation that its state changes respect.\<close>

context quiet_rel begin

lemma keeps_request_829:
  assumes "\<And>w c. length c = 32 \<Longrightarrow>
      R w (w\<lparr>w_sess := (w_sess w)\<lparr>security_version := Some 1, client_nonce := Some c\<rparr>\<rparr>)"
    and "\<And>w n. R w (w\<lparr>w_sess := (w_sess w)\<lparr>server_nonce := Some (random_bytes E n 32)\<rparr>\<rparr>)"
  shows "keeps R (request_829 E payload version cid)"
proof -
  have "keeps R (upd_sess (\<lambda>s. s\<lparr>security_version := Some v, client_nonce := Some c\<rparr>))" if "\<not> v \<noteq> 1" "\<not> length c \<noteq> 32" for v c
    using that by (simp add: keeps_def upd_sess_def assms)
  moreover have "keeps R (upd_sess (\<lambda>s. s\<lparr>server_nonce := Some (random_bytes E n 32)\<rparr>))" for n
    by (simp add: keeps_def upd_sess_def assms)
  ultimately show ?thesis unfolding request_829_def Let_def by (intro keeps_next answer_rules)
qed

lemma keeps_request_830:
  assumes "\<And>w. \<not> handshake_verified (w_sess w) \<Longrightarrow> client_nonce (w_sess w) \<noteq> None \<Longrightarrow>
      server_nonce (w_sess w) \<noteq> None \<Longrightarrow> security_version (w_sess w) \<noteq> None \<Longrightarrow>
      R w (w\<lparr>w_sess := (w_sess w)\<lparr>handshake_verified := True\<rparr>\<rparr>)"
  shows "keeps R (request_830 E payload version cid)"
proof (rule keepsI)
  fix w r w' assume "request_830 E payload version cid w = (r, w')"
  then show "R w w'"
    using assms [of w]
    by (auto simp: request_830_def Let_def upd_sess_def dest: keepsD [OF keeps_answer_1607] split: if_splits)
qed

end

text \<open>The relations that, beside sending responses, allow handing an AES key out.\<close>

definition usable_key :: "env \<Rightarrow> bytes \<Rightarrow> bool" where
  "usable_key E der \<longleftrightarrow> (\<exists>key. rsa_import E der = Some key \<and> \<not> rsa_has_private E key \<and> rsa_size_in_bits E key = 2048 \<and>
     3 \<le> rsa_e E key \<and> rsa_e E key mod 2 \<noteq> 0)"

locale key_rel = quiet_rel +
  assumes key_aes: "R w (w\<lparr>w_store := snd (set_client_aes_key (sql E n) chex (b64encode (random_bytes E m 32)) (w_store w))\<rparr>)"
    and key_hand_out: "code = 1602 \<or> code = 1605 \<Longrightarrow> keeps R (answer_aes_key E code what ct cid version)"
begin

lemma keeps_fresh_aes_key: "keeps R (fresh_aes_key E cid)"
  unfolding fresh_aes_key_def by (intro keeps_next keeps_on_store key_aes quiet_rules)

lemma keeps_answer_1602: "keeps R (answer_1602 E ct cid version)"
  by (simp add: answer_1602_def key_hand_out)

lemma keeps_answer_1605: "keeps R (answer_1605 E ct cid version)"
  by (simp add: answer_1605_def key_hand_out)

lemma keeps_accept_rsa_key: "keeps R (accept_rsa_key E cid version name der)"
  unfolding accept_rsa_key_def by (intro answer_rules)

lemma accepted_usable:
  "accept_rsa_key E cid version name der w = (Ok (Some key), w') \<Longrightarrow> usable_key E der"
  by (auto simp: accept_rsa_key_def usable_key_def try_except_def bnd_def split: option.splits if_splits prod.splits res.splits)

lemma keeps_request_826_known:
  assumes "\<And>w n der. public_key_der record = None \<Longrightarrow> b64decode True (map unat (public_blob payload)) = Ok der \<Longrightarrow> usable_key E der \<Longrightarrow>
    R w (w\<lparr>w_store := snd (set_client_public_key (sql E n) (bytes_hex cid) der (w_store w))\<rparr>)"
  shows "keeps R (request_826_known E cid payload version record)"
proof -
  have enrol: "keeps R (enrol_key E cid version record der)"
    if "b64decode True (map unat (public_blob payload)) = Ok der" "usable_key E der" for der
    unfolding enrol_key_def
    by (intro keeps_next keeps_on_store assms [OF _ that] keeps_fresh_aes_key answer_rules)
  have exchange: "keeps R (bnd (accept_rsa_key E cid version name der) (\<lambda>accepted. case accepted of
          None \<Rightarrow> ret ()
        | Some key_rsa \<Rightarrow> bnd (enrol_key E cid version record der) (\<lambda>chosen. case chosen of
          None \<Rightarrow> ret ()
        | Some key \<Rightarrow> bnd (bnd (next_of (\<lambda>n. oaep_encrypt E n key_rsa key)) lift_res) (\<lambda>ciphertext.
            answer_1602 E ciphertext cid version))))"
    if "b64decode True (map unat (public_blob payload)) = Ok der" for name der
    by (intro keeps_bnd_val keeps_accept_rsa_key keeps_case_option keeps_ret enrol that keeps_answer_1602 keeps_next_of keeps_lift_res)
      (simp add: accepted_usable)
  show ?thesis
    unfolding request_826_known_def Let_def
    by (rule keeps_bnd [OF keeps_touch_client], rule keeps_bnd [OF keeps_log_event],
        intro keeps_if keeps_case_option keeps_case_res exchange keeps_answer_1607)
qed

text \<open>Key exchange, for a relation that allows any enrolment.\<close>

lemma keeps_request_826:
  assumes "\<And>w n cid der. R w (w\<lparr>w_store := snd (set_client_public_key (sql E n) cid der (w_store w))\<rparr>)"
  shows "keeps R (request_826 E cid payload version)"
  unfolding request_826_def by (intro answer_rules keeps_request_826_known assms)

lemma keeps_request_827: "keeps R (request_827 E cid payload version)"
  unfolding request_827_def block.simps Let_def
  by (intro keeps_fresh_aes_key keeps_answer_1605 answer_rules)

end

text \<open>And those that allow registering a client as well.\<close>

locale auth_rel = key_rel +
  assumes auth_create: "utf8_decode b = Some name \<Longrightarrow> is_valid_username E name \<Longrightarrow>
    R w (w\<lparr>w_store := snd (create_client (sql E n) (uuid4 E m) now name (w_store w))\<rparr>)"
begin

lemma keeps_adopt_log: "keeps R (upd (\<lambda>w. w\<lparr>w_store := adopt_log name cid (w_store w)\<rparr>))"
proof (rule keeps_upd)
  fix w :: world
  have "\<exists>l. adopt_log name cid (w_store w) = (w_store w)\<lparr>clients_recent_log := l\<rparr>"
  proof (cases "clients_recent_log (w_store w) (ByName name)")
    case None
    then show ?thesis by (intro exI [of _ "clients_recent_log (w_store w)"]) (simp add: adopt_log_def)
  qed (auto simp: adopt_log_def)
  then show "R w (w\<lparr>w_store := adopt_log name cid (w_store w)\<rparr>)" by (auto simp: quiet_log)
qed

lemma keeps_request_825: "keeps R (request_825 E payload version)"
  unfolding request_825_def block.simps
  by (intro keeps_next keeps_adopt_log answer_rules keeps_on_store) (rule auth_create, assumption, simp)

end

end
