(* ===== verification/Handlers_Upload.thy ===== *)
theory Handlers_Upload
  imports Handlers_Auth
begin

text \<open>
  The upload handlers of \<open>server/src/handlers.py\<close>: the encrypted file chunks (\<open>request_828\<close>),
  streamed through CBC decryption, padding removal and a running CRC into a temporary file,
  and the client's verdicts on the checksum (\<open>request_900\<close>, \<open>request_901\<close>, \<open>request_902\<close>).
  \<open>request_828\<close> is cut into the groups of statements the source has: whose upload it is,
  packet 0, the start at packet 1, one chunk of data, the end at the last packet.
\<close>

section \<open>Helpers\<close>

definition AES_BLOCK :: nat where "AES_BLOCK = 16"

definition draw_progress :: "int \<Rightarrow> int \<Rightarrow> unit act" where
  "draw_progress packet_num total_packets =
     (if total_packets = 0 then throw ZeroDivisionError else ret ())"

definition db_fail_upload :: "env \<Rightarrow> string \<Rightarrow> string \<Rightarrow> pystr \<Rightarrow> bool act" where
  "db_fail_upload E reason status now = rd (\<lambda>w. bnd (next_of (sql E)) (\<lambda>out.
     on_store (fail_upload_record out (upload_id (xf w)) reason status now)))"

definition best_effort_fail_upload :: "env \<Rightarrow> string \<Rightarrow> string \<Rightarrow> unit act" where
  "best_effort_fail_upload E reason status = rd (\<lambda>w. if upload_id (xf w) = None then ret ()
     else bnd (next_of (wall E)) (\<lambda>now. bnd (db_fail_upload E reason status now) (\<lambda>_. ret ())))"

definition validate_header :: "config \<Rightarrow> int \<Rightarrow> int \<Rightarrow> int \<Rightarrow> int \<Rightarrow> (string \<times> string) option" where
  "validate_header c packet_num total_packets content_size orig_file_size =
     (if total_packets \<le> 0 then Some (''bad_828_range'', ''bad 828: total_packets not valid'')
      else if packet_num < 0 \<or> packet_num > total_packets then Some (''bad_828_range'', ''bad 828: packet_num out of range'')
      else if content_size \<le> 0 then Some (''bad_828_range'', ''bad 828: content_size not valid'')
      else if orig_file_size \<le> 0 then Some (''bad_828_range'', ''bad 828: orig_file_size not valid'')
      else if total_packets > max_packets c then Some (''bad_828_limits'', ''bad 828: total_packets too large'')
      else if orig_file_size > max_file_size c then Some (''bad_828_limits'', ''bad 828: orig_file_size too large'')
      else if content_size > max_file_size c then Some (''bad_828_limits'', ''bad 828: content_size too large'')
      else None)"

section \<open>Streaming decryption\<close>

definition write_plain_stream :: "env \<Rightarrow> bytes \<Rightarrow> unit act" where
  "write_plain_stream E plain = (if plain = [] then ret ()
     else rd (\<lambda>w. case upload_tmp_file (xf w) of
         None \<Rightarrow> throw AttributeError
       | Some i \<Rightarrow> block [
           on_fs E (\<lambda>fs. (Ok (), fs_write i plain fs)),
           upd_xfer (\<lambda>x. x\<lparr>upload_plain_bytes_written := upload_plain_bytes_written x + len plain,
             upload_crc32_state := crc32 plain (upload_crc32_state x)\<rparr>)]))"

definition cipher_decrypt :: "env \<Rightarrow> bytes \<Rightarrow> bytes act" where
  "cipher_decrypt E chunk = rd (\<lambda>w. case upload_decrypt_cipher (xf w) of
      None \<Rightarrow> throw AttributeError
    | Some c \<Rightarrow> bnd (upd_xfer (\<lambda>x. x\<lparr>upload_decrypt_cipher := Some (c\<lparr>ci_fed := ci_fed c @ chunk\<rparr>)\<rparr>))
        (\<lambda>_. ret (aes_cbc_dec E (ci_key c) (ci_iv c) (ci_fed c) chunk)))"

definition process_streaming_cipher_chunk :: "env \<Rightarrow> bytes \<Rightarrow> bool \<Rightarrow> unit act" where
  "process_streaming_cipher_chunk E chunk is_last =
     (if length chunk = 0 then throw ValueError
      else if length chunk mod AES_BLOCK \<noteq> 0 then throw ValueError
      else bnd (cipher_decrypt E chunk) (\<lambda>plain. rd (\<lambda>w.
        let combined = upload_plain_tail (xf w) @ plain in
        if is_last then (case unpad E combined AES_BLOCK of
            None \<Rightarrow> throw ValueError
          | Some final_plain \<Rightarrow> block [write_plain_stream E final_plain, upd_xfer (\<lambda>x. x\<lparr>upload_plain_tail := []\<rparr>)])
        else if length combined \<le> AES_BLOCK then upd_xfer (\<lambda>x. x\<lparr>upload_plain_tail := combined\<rparr>)
        else let k = length combined - AES_BLOCK in block [
          write_plain_stream E (take k combined),
          upd_xfer (\<lambda>x. x\<lparr>upload_plain_tail := drop k combined\<rparr>)])))"

text \<open>The message of the \<open>ValueError\<close> above, by the check that raised it.\<close>

definition streaming_error :: "bytes \<Rightarrow> string" where
  "streaming_error chunk =
     (if length chunk = 0 then ''empty ciphertext chunk''
      else if length chunk mod AES_BLOCK \<noteq> 0 then ''ciphertext chunk is not block aligned''
      else ''invalid PKCS#7 padding'')"

section \<open>Request 828\<close>

text \<open>The two ways an upload is abandoned: answer 1607, give the slot back, reset.\<close>

definition reject_828 :: "env \<Rightarrow> bytes \<Rightarrow> bytes \<Rightarrow> string \<Rightarrow> unit act" where
  "reject_828 E cid version msg = block [
     answer_1607 E cid version (lit msg), release_upload_slot, reset_transfer_state E]"

definition fail_828 :: "env \<Rightarrow> bytes \<Rightarrow> bytes \<Rightarrow> string \<Rightarrow> string \<Rightarrow> unit act" where
  "fail_828 E cid version why msg = block [
     best_effort_fail_upload E why ''failed'', reject_828 E cid version msg]"

record header_828 =
  content_size :: int
  orig_file_size :: int
  packet_num :: int
  total_packets :: int
  h_file_name :: pystr
  cipher_chunk :: bytes

definition header_ints :: "bytes \<Rightarrow> int \<times> int \<times> int \<times> int" where
  "header_ints p = (le_decode (take 4 p), le_decode (take 4 (drop 4 p)),
     le_decode (take 2 (drop 8 p)), le_decode (take 2 (drop 10 p)))"

text \<open>Lines 385 to 415: whose upload this is. \<open>True\<close> when the handler goes on.\<close>

definition bind_upload_client :: "env \<Rightarrow> bytes \<Rightarrow> bytes \<Rightarrow> bool act" where
  "bind_upload_client E cid version = rd (\<lambda>w. if upload_client_id_hex (xf w) \<noteq> None then ret True
     else case get_client_by_id (bytes_hex cid) (w_store w) of
       None \<Rightarrow> bnd (block [release_upload_slot, reset_transfer_state E]) (\<lambda>_. ret False)
     | Some record \<Rightarrow> (case aes_key_b64 record of
         None \<Rightarrow> bnd (reject_828 E cid version ''bad 828: missing AES key'') (\<lambda>_. ret False)
       | Some key_b64 \<Rightarrow>
           if key_b64 = [] then bnd (reject_828 E cid version ''bad 828: missing AES key'') (\<lambda>_. ret False)
           else (case b64decode False key_b64 of
             Raise _ \<Rightarrow> bnd (reject_828 E cid version ''bad 828: invalid AES key'') (\<lambda>_. ret False)
           | Ok key \<Rightarrow> bnd (upd_xfer (\<lambda>x. x\<lparr>upload_aes_key := Some key, upload_username := Some (username record),
                 upload_client_id_hex := Some (bytes_hex cid)\<rparr>)) (\<lambda>_. ret True))))"

definition is_set :: "bytes option \<Rightarrow> bool" where
  "is_set v \<longleftrightarrow> v \<noteq> None \<and> v \<noteq> Some []"

text \<open>Packet 0: the IV and the sizes every later packet has to repeat.\<close>

definition packet_zero :: "env \<Rightarrow> bytes \<Rightarrow> bytes \<Rightarrow> header_828 \<Rightarrow> unit act" where
  "packet_zero E cid version h = rd (\<lambda>w.
     if upload_active (xf w) \<or> is_set (transfer_iv (xf w))
       then reject_828 E cid version ''bad 828 payload: currently uploading with new upload''
     else if length (cipher_chunk h) < 16
       then reject_828 E cid version ''bad 828 payload: name is not valid UTF-8''
     else upd_xfer (\<lambda>x. x\<lparr>transfer_iv := Some (take 16 (cipher_chunk h)), expected_packet_num := Some 1,
       expected_total_packets := Some (total_packets h), expected_content_size := Some (content_size h),
       expected_orig_file_size := Some (orig_file_size h), received_cipher_bytes := 0\<rparr>))"

text \<open>Lines 489 to 509: an upload slot, unless the session already holds one.\<close>

definition acquire_upload_slot :: "env \<Rightarrow> bytes \<Rightarrow> bytes \<Rightarrow> bool act" where
  "acquire_upload_slot E cid version = rd (\<lambda>w. if has_upload_slot (w_sess w) then ret True
     else (case upload_try_acquire (w_limiter w) of (acquired, l) \<Rightarrow>
       bnd (upd (\<lambda>w. w\<lparr>w_limiter := l\<rparr>)) (\<lambda>_.
       if \<not> acquired then bnd (block [
           upd_metrics inc_rejected_uploads,
           answer_1607 E cid version (lit ''server busy: too many concurrent uploads''),
           reset_transfer_state E]) (\<lambda>_. ret False)
       else bnd (block [
           upd_sess (\<lambda>s. s\<lparr>has_upload_slot := True\<rparr>),
           rd (\<lambda>w. upd_metrics (set_active_uploads (upload_current_active (w_limiter w))))])
         (\<lambda>_. ret True))))"

definition upload_out_path :: "pystr \<Rightarrow> pystr \<Rightarrow> pystr" where
  "upload_out_path cid_hex file_name = path_normpath (path_join (path_join (lit ''data/uploads'') cid_hex) file_name)"

definition upload_temp_path :: "pystr \<Rightarrow> pystr \<Rightarrow> pystr" where
  "upload_temp_path out_path conn_id = out_path @ lit ''.tmp.'' @ conn_id"

text \<open>Lines 510 to 544: the upload record, the temporary file, the decryption state.\<close>

definition start_upload :: "env \<Rightarrow> bytes \<Rightarrow> bytes \<Rightarrow> header_828 \<Rightarrow> bool act" where
  "start_upload E cid version h =
     bnd (block [
       upd_xfer (\<lambda>x. x\<lparr>upload_active := True, upload_filename := Some (h_file_name h)\<rparr>),
       mark_upload_progress E,
       touch_client E (bytes_hex cid)]) (\<lambda>_.
     rd (\<lambda>w. bnd (next_of (wall E)) (\<lambda>now. bnd (next_of (sql E)) (\<lambda>out.
     bnd (on_store (create_upload_record out now (bytes_hex cid) (h_file_name h) (orig_file_size h)
           (case expected_content_size (xf w) of None \<Rightarrow> 0 | Some n \<Rightarrow> n) ''in_progress'')) (\<lambda>uid.
     bnd (upd_xfer (\<lambda>x. x\<lparr>upload_id := uid\<rparr>)) (\<lambda>_.
     if uid = None then bnd (reject_828 E cid version ''bad 828: upload id is None in db'') (\<lambda>_. ret False)
     else let user_dir = path_join (lit ''data/uploads'') (bytes_hex cid);
              out_path = upload_out_path (bytes_hex cid) (h_file_name h);
              tmp_path = upload_temp_path out_path (connection_id (w_sess w)) in
     bnd (on_fs E (fs_makedirs user_dir)) (\<lambda>_.
     bnd (upd_xfer (\<lambda>x. x\<lparr>upload_path := Some out_path, upload_tmp_path := Some tmp_path\<rparr>)) (\<lambda>_.
     bnd (on_fs E (fs_open_wb tmp_path)) (\<lambda>handle.
     bnd (upd_xfer (\<lambda>x. x\<lparr>upload_tmp_file := Some handle\<rparr>)) (\<lambda>_.
     (case (upload_aes_key (xf w), transfer_iv (xf w)) of
        (Some key, Some iv) \<Rightarrow>
          if \<not> aes_key_ok E key iv then throw ValueError
          else bnd (block [
            upd_xfer (\<lambda>x. x\<lparr>upload_decrypt_cipher := Some \<lparr>ci_key = key, ci_iv = iv, ci_fed = []\<rparr>,
              upload_plain_tail := [], upload_plain_bytes_written := 0, upload_crc32_state := 0\<rparr>),
            log_event E (ById cid) ''request_828'']) (\<lambda>_. ret True)
      | _ \<Rightarrow> throw TypeError)))))))))))"

text \<open>Lines 583 to 638: the last packet has been decrypted.\<close>

definition finish_upload :: "env \<Rightarrow> bytes \<Rightarrow> bytes \<Rightarrow> header_828 \<Rightarrow> unit act" where
  "finish_upload E cid version h = rd (\<lambda>w.
     if Some (received_cipher_bytes (xf w)) \<noteq> expected_content_size (xf w)
       then fail_828 E cid version ''received_cipher_bytes != expected_content_size''
              ''bad 828: received_cipher_bytes != expected_content_size''
     else bnd (touch_client E (bytes_hex cid)) (\<lambda>_.
     case (upload_tmp_file (xf w), upload_tmp_path (xf w), upload_path (xf w)) of
       (Some _, Some tmp_path, Some out_path) \<Rightarrow>
         bnd (on_fs E (\<lambda>fs. (Ok (), fs))) (\<lambda>_.
         bnd (upd_xfer (\<lambda>x. x\<lparr>upload_tmp_file := None\<rparr>)) (\<lambda>_.
         if upload_plain_bytes_written (xf w) \<noteq> orig_file_size h
           then fail_828 E cid version ''plaintext size mismatch'' ''bad 828: plaintext size mismatch''
         else bnd (on_fs E (fs_replace tmp_path out_path)) (\<lambda>_.
           bnd (upd_xfer (\<lambda>x. x\<lparr>upload_tmp_path := None, upload_crc := Some (upload_crc32_state (xf w))\<rparr>)) (\<lambda>_.
           answer_1603 E cid version (h_file_name h) (content_size h) (upload_crc32_state (xf w))))))
     | _ \<Rightarrow> fail_828 E cid version ''streaming upload file state is missing'' ''bad 828: streaming upload state missing''))"

text \<open>Lines 545 to 638: one chunk of ciphertext.\<close>

definition receive_chunk :: "env \<Rightarrow> bytes \<Rightarrow> bytes \<Rightarrow> header_828 \<Rightarrow> unit act" where
  "receive_chunk E cid version h =
     bnd (draw_progress (packet_num h) (total_packets h)) (\<lambda>_.
     rd (\<lambda>w. case (expected_content_size (xf w), expected_packet_num (xf w)) of
       (Some expected_size, Some expected_num) \<Rightarrow>
         if received_cipher_bytes (xf w) + len (cipher_chunk h) > expected_size
           then fail_828 E cid version ''content_size will overflow'' ''bad 828: content_size will overflow''
         else if packet_num h \<noteq> expected_num
           then fail_828 E cid version ''out of order packet_num'' ''bad 828: out of order''
         else bnd (mark_upload_progress E) (\<lambda>_.
           bnd (try_except
             (bnd (process_streaming_cipher_chunk E (cipher_chunk h) (packet_num h = total_packets h)) (\<lambda>_. ret True))
             is_ValueError
             (\<lambda>e. bnd (fail_828 E cid version (''streaming decrypt failed: '' @ streaming_error (cipher_chunk h))
                     ''bad 828: streaming decrypt failed'') (\<lambda>_. ret False)))
           (\<lambda>decrypted. if \<not> decrypted then ret ()
            else bnd (upd_xfer (\<lambda>x. x\<lparr>expected_packet_num := Some (expected_num + 1),
                received_cipher_bytes := received_cipher_bytes x + len (cipher_chunk h)\<rparr>)) (\<lambda>_.
              if packet_num h = total_packets h then finish_upload E cid version h else ret ())))
     | _ \<Rightarrow> throw TypeError))"

definition data_packet :: "env \<Rightarrow> bytes \<Rightarrow> bytes \<Rightarrow> header_828 \<Rightarrow> unit act" where
  "data_packet E cid version h = rd (\<lambda>w.
     if \<not> is_set (transfer_iv (xf w))
       then fail_828 E cid version ''missing IV packet'' ''bad 828: missing IV packet''
     else if expected_packet_num (xf w) = None \<or> expected_packet_num (xf w) = Some 0
       then fail_828 E cid version ''expected_packet_num is None'' ''bad 828: expected packet num is not initialize''
     else if Some (total_packets h) \<noteq> expected_total_packets (xf w)
       then fail_828 E cid version ''total_packets != expected_total_packets'' ''bad 828:total_packets != expected_total_packets''
     else if Some (content_size h) \<noteq> expected_content_size (xf w) \<or> Some (orig_file_size h) \<noteq> expected_orig_file_size (xf w)
       then fail_828 E cid version ''content_size or orig_file_size not as expected'' ''bad 828: content_size or orig_file_size not as expected''
     else if len (cipher_chunk h) > max_chunk_size (cfg w)
       then fail_828 E cid version ''cipher_chunk bigger than the max'' ''bad 828: cipher_chunk bigger than the max''
     else if packet_num h = 1 then
       bnd (acquire_upload_slot E cid version) (\<lambda>acquired. if \<not> acquired then ret ()
       else bnd (start_upload E cid version h) (\<lambda>started. if \<not> started then ret ()
       else receive_chunk E cid version h))
     else receive_chunk E cid version h)"

definition request_828 :: "env \<Rightarrow> bytes \<Rightarrow> bytes \<Rightarrow> bytes \<Rightarrow> unit act" where
  "request_828 E payload version cid =
     (case header_ints payload of (content, orig, pnum, ptotal) \<Rightarrow>
      let rest = drop 12 payload; sep = find_nul rest in
      if sep = - 1 then block [release_upload_slot, reset_transfer_state E]
      else case utf8_decode (take (nat sep) rest) of
        None \<Rightarrow> reject_828 E cid version ''bad 828 payload: name is not valid UTF-8''
      | Some name \<Rightarrow>
        let h = \<lparr>content_size = content, orig_file_size = orig, packet_num = pnum, total_packets = ptotal,
                 h_file_name = path_basename name, cipher_chunk = drop (nat sep + 1) rest\<rparr> in
        bnd (bind_upload_client E cid version) (\<lambda>bound. if \<not> bound then ret ()
        else rd (\<lambda>w. if upload_client_id_hex (xf w) \<noteq> Some (bytes_hex cid)
          then reject_828 E cid version ''bad 828: client mismatch during upload''
        else case validate_header (cfg w) pnum ptotal content orig of
          Some (reason, msg) \<Rightarrow> block [
            try_except (answer_1607 E cid version (lit msg)) any_exn (\<lambda>_. ret ()),
            release_upload_slot, reset_transfer_state E]
        | None \<Rightarrow> if pnum = 0 then packet_zero E cid version h else data_packet E cid version h)))"

section \<open>The client's verdict\<close>

definition request_900 :: "env \<Rightarrow> bytes \<Rightarrow> bytes \<Rightarrow> bytes \<Rightarrow> unit act" where
  "request_900 E payload version cid = (case utf8_decode payload of
      None \<Rightarrow> throw UnicodeDecodeError
    | Some decoded \<Rightarrow> let file_name = str_rstrip_nul decoded in
      bnd (touch_client E (bytes_hex cid)) (\<lambda>_.
      bnd (log_event E (ById cid) ''request_900'') (\<lambda>_. rd (\<lambda>w.
      case (upload_id (xf w), upload_path (xf w), upload_crc (xf w)) of
        (Some uid, Some path, Some crc) \<Rightarrow>
          if upload_filename (xf w) \<noteq> Some file_name
            then reject_828 E cid version ''bad 900: session upload attributes are invalid''
          else bnd (next_of (wall E)) (\<lambda>now. bnd (next_of (sql E)) (\<lambda>out.
            bnd (on_store (complete_upload_record out (Some uid) path (uint crc) now)) (\<lambda>done.
            if \<not> done then reject_828 E cid version ''bad 900: complete upload record problem in db''
            else block [answer_1604 E cid version, release_upload_slot, reset_transfer_state E])))
      | _ \<Rightarrow> reject_828 E cid version ''bad 900: session upload attributes are invalid''))))"

definition request_901 :: "env \<Rightarrow> bytes \<Rightarrow> bytes \<Rightarrow> bytes \<Rightarrow> unit act" where
  "request_901 E payload version cid = (case utf8_decode payload of
      None \<Rightarrow> throw UnicodeDecodeError
    | Some decoded \<Rightarrow> let file_name = str_rstrip_nul decoded in
      bnd (touch_client E (bytes_hex cid)) (\<lambda>_. bnd (next_of (wall E)) (\<lambda>now. rd (\<lambda>w.
      if upload_filename (xf w) \<noteq> Some file_name
        then reject_828 E cid version ''bad 901: session upload name is invalid''
      else bnd (db_fail_upload E ''CRC mismatch'' ''crc_mismatch'' now) (\<lambda>done.
        if \<not> done then reject_828 E cid version ''bad 901: fail_upload_record problem in db''
        else block [release_upload_slot, reset_transfer_state E,
          upd (\<lambda>w. w\<lparr>w_store := log_append (ById cid) (''request_901'', now) (w_store w)\<rparr>)])))))"

definition request_902 :: "env \<Rightarrow> bytes \<Rightarrow> bytes \<Rightarrow> bytes \<Rightarrow> unit act" where
  "request_902 E payload version cid = (case utf8_decode payload of
      None \<Rightarrow> throw UnicodeDecodeError
    | Some decoded \<Rightarrow> let file_name = str_rstrip_nul decoded in
      bnd (touch_client E (bytes_hex cid)) (\<lambda>_. bnd (next_of (wall E)) (\<lambda>now. rd (\<lambda>w.
      if upload_filename (xf w) \<noteq> Some file_name
        then reject_828 E cid version ''bad 902: session upload name is invalid''
      else bnd (db_fail_upload E ''invalid CRC on the 4th time'' ''failed'' now) (\<lambda>done.
        if \<not> done then reject_828 E cid version ''bad 902: fail_upload_record problem in db''
        else block [
          upd (\<lambda>w. w\<lparr>w_store := log_append (ById cid) (''request_902'', now) (w_store w)\<rparr>),
          answer_1604 E cid version, release_upload_slot, reset_transfer_state E])))))"

section \<open>What these handlers may change\<close>

text \<open>Relations that do not look at slots, files or the transfer state.\<close>

context quiet_rel
begin

lemma keeps_slots_free:
  assumes "\<And>w b. R w (w\<lparr>w_sess := (w_sess w)\<lparr>has_upload_slot := b\<rparr>\<rparr>)" and "\<And>w l. R w (w\<lparr>w_limiter := l\<rparr>)"
    and "\<And>w x. R w (w\<lparr>w_sess := (w_sess w)\<lparr>xfer := x\<rparr>\<rparr>)" and "\<And>w fs. R w (w\<lparr>w_fs := fs\<rparr>)" and "\<And>w m. R w (w\<lparr>w_metrics := m\<rparr>)"
  shows "keeps R (acquire_upload_slot E cid version)" "keeps R release_upload_slot"
proof -
  have 1: "keeps R (upd_sess (\<lambda>s. s\<lparr>has_upload_slot := b\<rparr>))" "keeps R (upd_metrics g)" "keeps R (upd (\<lambda>w. w\<lparr>w_limiter := f w\<rparr>))"
      "keeps R (upd_xfer h)" for b f g h
    by (simp_all add: keeps_def upd_sess_def upd_xfer_def upd_metrics_def assms)
  have 2: "keeps R (on_fs E op)" for op
    unfolding on_fs_def by (intro quiet_rules) (simp add: keeps_def split_beta assms(4))
  show "keeps R (acquire_upload_slot E cid version)" "keeps R release_upload_slot"
    unfolding acquire_upload_slot_def release_upload_slot_def reset_transfer_state_def remove_tmp_file_def block.simps
    by (intro 1 2 answer_rules)+
qed

end

text \<open>
  The relations that, beside sending responses, allow every change of the transfer state and
  of the files, the statements on the \<open>Uploads\<close> table, and taking and giving back an upload slot.
\<close>

locale upload_rel = quiet_rel +
  assumes upload_xfer: "R w (w\<lparr>w_sess := (w_sess w)\<lparr>xfer := x\<rparr>\<rparr>)"
    and upload_fs: "R w (w\<lparr>w_fs := fs\<rparr>)"
    and upload_create: "R w (w\<lparr>w_store := snd (create_upload_record (sql E n) now chex name osize csize status (w_store w))\<rparr>)"
    and upload_complete: "R w (w\<lparr>w_store := snd (complete_upload_record (sql E n) uid path crc now (w_store w))\<rparr>)"
    and upload_fail: "R w (w\<lparr>w_store := snd (fail_upload_record (sql E n) uid reason status now (w_store w))\<rparr>)"
    and upload_acquire: "keeps R (acquire_upload_slot E cid version)"
    and upload_release: "keeps R release_upload_slot"
begin

lemma keeps_upd_xfer: "keeps R (upd_xfer f)"
  by (simp add: keeps_def upd_xfer_def upd_sess_def upload_xfer)

lemma keeps_on_fs: "keeps R (on_fs E op)"
  unfolding on_fs_def by (intro quiet_rules) (simp add: keeps_def upload_fs split_beta)

lemma keeps_mark_upload_progress: "keeps R (mark_upload_progress E)"
  unfolding mark_upload_progress_def block.simps by (intro keeps_upd_xfer quiet_rules)

lemma keeps_reset_transfer_state: "keeps R (reset_transfer_state E)"
  unfolding reset_transfer_state_def remove_tmp_file_def block.simps
  by (intro keeps_upd_xfer keeps_on_fs quiet_rules)

lemma keeps_reject_828: "keeps R (reject_828 E cid version msg)"
  unfolding reject_828_def block.simps
  by (intro keeps_reset_transfer_state upload_release answer_rules)

lemma keeps_db_fail_upload: "keeps R (db_fail_upload E reason status now)"
  unfolding db_fail_upload_def by (intro keeps_next keeps_on_store upload_fail quiet_rules)

lemma keeps_fail_828: "keeps R (fail_828 E cid version why msg)"
  unfolding fail_828_def best_effort_fail_upload_def block.simps
  by (intro keeps_reject_828 keeps_db_fail_upload quiet_rules)

lemmas upload_rules = keeps_upd_xfer keeps_on_fs keeps_mark_upload_progress keeps_reset_transfer_state
  keeps_reject_828 keeps_fail_828 upload_release upload_acquire answer_rules

lemma keeps_bind_upload_client: "keeps R (bind_upload_client E cid version)"
  unfolding bind_upload_client_def block.simps by (intro upload_rules)

lemma keeps_packet_zero: "keeps R (packet_zero E cid version h)"
  unfolding packet_zero_def by (intro upload_rules)

lemma keeps_start_upload: "keeps R (start_upload E cid version h)"
  unfolding start_upload_def block.simps Let_def
  by (intro keeps_next keeps_on_store upload_create upload_rules)

lemma keeps_process_chunk: "keeps R (process_streaming_cipher_chunk E chunk is_last)"
  unfolding process_streaming_cipher_chunk_def cipher_decrypt_def write_plain_stream_def block.simps Let_def
  by (intro upload_rules)

lemma keeps_finish_upload: "keeps R (finish_upload E cid version h)"
  unfolding finish_upload_def by (intro upload_rules)

lemma keeps_receive_chunk: "keeps R (receive_chunk E cid version h)"
  unfolding receive_chunk_def draw_progress_def by (intro keeps_process_chunk keeps_finish_upload upload_rules)

lemma keeps_data_packet: "keeps R (data_packet E cid version h)"
  unfolding data_packet_def by (intro keeps_start_upload keeps_receive_chunk upload_rules)

lemma keeps_request_828: "keeps R (request_828 E payload version cid)"
  unfolding request_828_def block.simps Let_def
  by (intro keeps_bind_upload_client keeps_packet_zero keeps_data_packet upload_rules)

lemma keeps_request_900: "keeps R (request_900 E payload version cid)"
  unfolding request_900_def block.simps Let_def
  by (intro keeps_next keeps_on_store upload_complete upload_rules)

lemma keeps_log_now: "keeps R (upd (\<lambda>w. w\<lparr>w_store := log_append k e (w_store w)\<rparr>))"
  by (rule keeps_upd) (simp add: log_append_def quiet_log)

lemma keeps_request_901: "keeps R (request_901 E payload version cid)"
  unfolding request_901_def block.simps Let_def by (intro keeps_log_now keeps_db_fail_upload upload_rules)

lemma keeps_request_902: "keeps R (request_902 E payload version cid)"
  unfolding request_902_def block.simps Let_def by (intro keeps_log_now keeps_db_fail_upload upload_rules)

end

end
