(* ===== verification/Router.thy ===== *)
theory Router
  imports Handlers_Upload
begin

text \<open>
  \<open>server/src/router.py\<close>: parsing a frame and dispatching it, with the handshake gate in front
  of every application request and the exception handling around every handler.
\<close>

definition HANDSHAKE_CODES :: "int list" where "HANDSHAKE_CODES = [829, 830]"

definition dispatch :: "env \<Rightarrow> int \<Rightarrow> bytes \<Rightarrow> bytes \<Rightarrow> bytes \<Rightarrow> unit act" where
  "dispatch E code cid version payload = rd (\<lambda>w.
     if \<not> handshake_verified (w_sess w) \<and> code \<notin> set HANDSHAKE_CODES
       then answer_1607 E cid version (lit ''stage7 handshake required'')
     else if handshake_verified (w_sess w) \<and> code \<in> set HANDSHAKE_CODES
       then answer_1607 E cid version (lit ''stage7 handshake already completed'')
     else if code = 825 then request_825 E payload version
     else if code = 827 then request_827 E cid payload version
     else if code = 826 then request_826 E cid payload version
     else if code = 828 then request_828 E payload version cid
     else if code = 829 then request_829 E payload version cid
     else if code = 830 then request_830 E payload version cid
     else if code = 900 then request_900 E payload version cid
     else if code = 901 then request_901 E payload version cid
     else if code = 902 then request_902 E payload version cid
     else block [
       on_frame_bad ''unknown_code'',
       answer_1607 E cid version (lit ''protocol error: unknown code''),
       rd (\<lambda>w. if upload_active (xf w) then reset_transfer_state E else ret ())])"

text \<open>The body of the \<open>try\<close>.\<close>

definition handle_frame_body :: "env \<Rightarrow> bytes \<Rightarrow> bytes \<Rightarrow> bytes \<Rightarrow> unit act" where
  "handle_frame_body E frame cid version =
     (if length frame < 23 then block [
        on_frame_bad ''short_frame_missing_header'',
        answer_1607 E cid version (lit ''protocol error: missing request header''),
        reset_transfer_state E]
      else let code = le_decode (take 2 (drop 17 frame)); payload_size = le_decode (take 4 (drop 19 frame)) in
      if len frame < 23 + payload_size then block [
        on_frame_bad ''short_frame_payload_truncated'',
        answer_1607 E cid version (lit ''protocol error: truncated payload''),
        reset_transfer_state E]
      else block [
        on_frame_ok,
        dispatch E code cid version (take (nat payload_size) (drop 23 frame))])"

text \<open>The \<open>except Exception\<close> clause.\<close>

definition handler_failed :: "env \<Rightarrow> bytes \<Rightarrow> bytes \<Rightarrow> exn \<Rightarrow> unit act" where
  "handler_failed E cid version e =
     bnd (on_frame_bad ''handle_frame_exception'') (\<lambda>_. rd (\<lambda>w.
     if disconnect_reason (w_sess w) = ''send_error'' then throw e
     else try_finally
       (try_except (answer_1607 E cid version (lit ''server error: internal handler failure''))
          any_exn (\<lambda>_. ret ()))
       (rd (\<lambda>w. if upload_active (xf w) then reset_transfer_state E else ret ()))))"

definition handle_frame :: "env \<Rightarrow> bytes \<Rightarrow> unit act" where
  "handle_frame E frame =
     bnd (next_of (uuid4 E)) (\<lambda>u.
     bnd (upd_sess (\<lambda>s. s\<lparr>request_id := Some (bytes_hex u)\<rparr>)) (\<lambda>_.
     if length frame < 17 then on_frame_bad ''short_frame_lt_17''
     else let cid = take 16 frame; version = take 1 (drop 16 frame) in
       bnd (upd_sess (\<lambda>s. s\<lparr>last_client_id := Some cid, last_version := Some version\<rparr>)) (\<lambda>_.
       try_finally
         (try_except (handle_frame_body E frame cid version) any_exn (handler_failed E cid version))
         (upd_sess (\<lambda>s. s\<lparr>request_id := Some (lit ''-'')\<rparr>)))))"

section \<open>What serving a frame may change\<close>

text \<open>
  The interface the server's invariants are proved over: a relation that every handler
  respects is respected by serving a frame, whatever the frame holds and whatever fails.
\<close>

locale dispatch_rel = auth_rel +
  assumes serve_826: "keeps R (request_826 E cid payload version)"
    and serve_828: "keeps R (request_828 E payload version cid)"
    and serve_829: "keeps R (request_829 E payload version cid)"
    and serve_830: "keeps R (request_830 E payload version cid)"
    and serve_900: "keeps R (request_900 E payload version cid)"
    and serve_901: "keeps R (request_901 E payload version cid)"
    and serve_902: "keeps R (request_902 E payload version cid)"
    and serve_reset: "keeps R (reset_transfer_state E)"
begin

lemma keeps_on_frame_bad: "keeps R (on_frame_bad reason)"
  unfolding on_frame_bad_def by (intro keeps_upd_sess) simp

lemma keeps_dispatch: "keeps R (dispatch E code cid version payload)"
  unfolding dispatch_def block.simps
  by (intro keeps_on_frame_bad serve_826 serve_828 serve_829 serve_830 serve_900 serve_901 serve_902 serve_reset
      keeps_request_825 keeps_request_827 answer_rules)

lemma keeps_handle_frame: "keeps R (handle_frame E frame)"
  unfolding handle_frame_def handle_frame_body_def handler_failed_def on_frame_ok_def block.simps Let_def
  by (intro keeps_on_frame_bad keeps_dispatch serve_reset keeps_upd_sess answer_rules; simp)

end

text \<open>The relations that do not look into the transfer state need only be checked where slots and keys change.\<close>

locale serving_rel = auth_rel + upload_rel +
  assumes key_826: "keeps R (request_826 E cid payload version)"
    and hello_829: "keeps R (request_829 E payload version cid)"
    and ack_830: "keeps R (request_830 E payload version cid)"

sublocale serving_rel \<subseteq> dispatch_rel
  by unfold_locales (rule key_826 hello_829 ack_830 keeps_request_828 keeps_request_900 keeps_request_901 keeps_request_902
      keeps_reset_transfer_state)+

end
