(* ===== verification/Server_Loop.thy ===== *)
theory Server_Loop
  imports Router
begin

text \<open>
  The connection handler of \<open>server/server_async.py\<close>: admission, the loop that reads from the
  connection and serves the frames, its timeouts and its rate limit, and the cleanup on
  every way out. What a read of the connection gives is an argument: bytes (none at the end
  of the stream), the timeout of \<open>wait_for\<close>, an exception, or the cancellation of the task.
\<close>

section \<open>Frames and the rate limit\<close>

definition CONTROL_PLANE_RATE_LIMITED_CODES :: "int list" where
  "CONTROL_PLANE_RATE_LIMITED_CODES = [825, 826, 827, 829, 830, 900, 901, 902]"

definition parse_frame_identity :: "bytes \<Rightarrow> bytes option \<times> bytes option \<times> int option" where
  "parse_frame_identity frame =
     (if length frame < 19 then (None, None, None)
      else (Some (take 16 frame), Some (take 1 (drop 16 frame)), Some (le_decode (take 2 (drop 17 frame)))))"

definition is_control_plane_rate_limited :: "int option \<Rightarrow> bool" where
  "is_control_plane_rate_limited code =
     (case code of None \<Rightarrow> False | Some c \<Rightarrow> c \<in> set CONTROL_PLANE_RATE_LIMITED_CODES)"

text \<open>\<open>v or d\<close> for bytes.\<close>

definition bytes_or :: "bytes option \<Rightarrow> bytes \<Rightarrow> bytes" where
  "bytes_or v d = (case v of None \<Rightarrow> d | Some b \<Rightarrow> if b = [] then d else b)"

definition set_reason :: "string \<Rightarrow> unit act" where
  "set_reason reason = upd_sess (\<lambda>s. s\<lparr>disconnect_reason := reason\<rparr>)"

definition ask_rate_limiter :: "real \<Rightarrow> bool act" where
  "ask_rate_limiter now = (\<lambda>w. case allow_request_now now (w_sess w) of (ok, s) \<Rightarrow> (Ok ok, w\<lparr>w_sess := s\<rparr>))"

definition rate_limit_hit :: "env \<Rightarrow> bytes option \<Rightarrow> bytes option \<Rightarrow> unit act" where
  "rate_limit_hit E cid version = block [
     set_reason ''request_rate_limited'',
     upd_metrics inc_rate_limited_requests,
     try_except (answer_1607 E (bytes_or cid (zeros 16)) (bytes_or version (zeros 1)) (lit ''request rate limit exceeded''))
       any_exn (\<lambda>_. ret ())]"

text \<open>The loop over the frames of one read; \<open>True\<close> when the rate limit ended it.\<close>

primrec handle_frames :: "env \<Rightarrow> bytes list \<Rightarrow> bool act" where
  "handle_frames E [] = ret False"
| "handle_frames E (frame # frames) =
     bnd (next_of (mono E)) (\<lambda>now. case parse_frame_identity frame of (cid, version, code) \<Rightarrow>
     bnd (if is_control_plane_rate_limited code then ask_rate_limiter now else ret True) (\<lambda>admitted.
     if \<not> admitted then bnd (rate_limit_hit E cid version) (\<lambda>_. ret True)
     else bnd (handle_frame E frame) (\<lambda>_. handle_frames E frames)))"

section \<open>The loop of a connection\<close>

datatype read_event = Chunk bytes | ReadTimeout | ReadRaises exn | ReadCancelled

text \<open>Where the loop stands after an iteration: in it, left by \<open>break\<close>, or cancelled.\<close>

datatype ctl = Go | Leave | Cancel

definition leave_with :: "string \<Rightarrow> ctl act" where
  "leave_with reason = bnd (set_reason reason) (\<lambda>_. ret Leave)"

text \<open>The handshake deadline at the head of the loop; \<open>True\<close> when the loop goes on to read.\<close>

definition loop_head :: "env \<Rightarrow> bool act" where
  "loop_head E = bnd (next_of (mono E)) (\<lambda>now. rd (\<lambda>w.
     if \<not> handshake_verified (w_sess w) \<and> now - connected_at (w_sess w) \<ge> handshake_timeout_s (cfg w)
       then bnd (set_reason ''handshake_timeout'') (\<lambda>_. ret False)
     else ret True))"

text \<open>\<open>session.last_upload_progress_ts or session.connected_at\<close>: a time of 0.0 counts as unset.\<close>

definition last_progress :: "session \<Rightarrow> real" where
  "last_progress s = (case last_upload_progress_ts (xfer s) of
      None \<Rightarrow> connected_at s | Some t \<Rightarrow> if t = 0 then connected_at s else t)"

definition upload_timed_out :: "env \<Rightarrow> ctl act" where
  "upload_timed_out E = bnd (set_reason ''upload_timeout'') (\<lambda>_. rd (\<lambda>w.
     bnd (case (last_client_id (w_sess w), last_version (w_sess w)) of
            (Some cid, Some version) \<Rightarrow>
              try_except (answer_1607 E cid version (lit ''upload inactivity timeout'')) any_exn (\<lambda>_. ret ())
          | _ \<Rightarrow> ret ()) (\<lambda>_.
     bnd (reset_transfer_state E) (\<lambda>_. ret Leave))))"

definition read_timed_out :: "env \<Rightarrow> ctl act" where
  "read_timed_out E = bnd (next_of (mono E)) (\<lambda>now. rd (\<lambda>w.
     if upload_active (xf w) then
       (if now - last_progress (w_sess w) \<ge> upload_inactivity_timeout_s (cfg w) then upload_timed_out E else ret Go)
     else (if now - last_activity (w_sess w) \<ge> idle_timeout_s (cfg w) then leave_with ''idle_timeout'' else ret Go)))"

definition chunk_read :: "env \<Rightarrow> bytes \<Rightarrow> ctl act" where
  "chunk_read E chunk =
     (if chunk = [] then leave_with ''eof''
      else bnd (on_frame_received E (len chunk)) (\<lambda>_.
        bnd (session_feed chunk) (\<lambda>frames.
        bnd (handle_frames E frames) (\<lambda>rate_limited. ret (if rate_limited then Leave else Go)))))"

definition loop_iteration :: "env \<Rightarrow> read_event \<Rightarrow> ctl act" where
  "loop_iteration E ev = bnd (loop_head E) (\<lambda>go. if \<not> go then ret Leave else case ev of
      Chunk chunk \<Rightarrow> chunk_read E chunk
    | ReadTimeout \<Rightarrow> read_timed_out E
    | ReadRaises e \<Rightarrow> throw e
    | ReadCancelled \<Rightarrow> ret Cancel)"

text \<open>The \<open>while\<close>, for the reads \<open>evs\<close>: \<open>Go\<close> when it has served them all and waits for the next one.\<close>

primrec client_loop :: "env \<Rightarrow> read_event list \<Rightarrow> ctl act" where
  "client_loop E [] = ret Go"
| "client_loop E (ev # evs) = bnd (loop_iteration E ev) (\<lambda>c. if c = Go then client_loop E evs else ret c)"

text \<open>The \<open>except\<close> clauses.\<close>

definition loop_guard :: "ctl act \<Rightarrow> ctl act" where
  "loop_guard m = bnd
     (try_except m any_exn (\<lambda>e. leave_with (if is_connection_lost e then ''reset'' else ''server_exception'')))
     (\<lambda>c. if c = Cancel then bnd (set_reason ''cancelled'') (\<lambda>_. ret c) else ret c)"

section \<open>Admission and cleanup\<close>

definition accept_connection :: "pystr \<Rightarrow> bool act" where
  "accept_connection ip = rd (\<lambda>w. case connection_try_acquire ip (w_conns w) of ((admitted, reason), l) \<Rightarrow>
     bnd (upd (\<lambda>w. w\<lparr>w_conns := l\<rparr>)) (\<lambda>_.
     if \<not> admitted then
       bnd (block [upd_metrics inc_rejected_connections, set_reason ''connection_rejected'']) (\<lambda>_. ret False)
     else bnd (rd (\<lambda>w. upd_metrics (set_active_connections (fst (connection_current_active (w_conns w)))))) (\<lambda>_. ret True)))"

text \<open>The \<open>finally\<close> clause; \<open>acquired\<close> is \<open>connection_acquired\<close>. An exception of closing the writer is dropped.\<close>

definition cleanup :: "env \<Rightarrow> pystr \<Rightarrow> bool \<Rightarrow> unit act" where
  "cleanup E ip acquired = block [
     rd (\<lambda>w. if upload_active (xf w) then reset_transfer_state E else ret ()),
     bnd (next_of (mono E)) (\<lambda>_. ret ()),
     rd (\<lambda>w. if has_upload_slot (w_sess w) then release_upload_slot else ret ()),
     if acquired then block [
       upd (\<lambda>w. w\<lparr>w_conns := connection_release ip (w_conns w)\<rparr>),
       rd (\<lambda>w. upd_metrics (set_active_connections (fst (connection_current_active (w_conns w)))))]
     else ret (),
     upd (\<lambda>w. w\<lparr>w_closed := True\<rparr>)]"

text \<open>
  \<open>handle_client\<close> for the reads \<open>evs\<close>, on the world of a session that has just been made:
  \<open>Go\<close> while the connection is open and waits for more.
\<close>

definition handle_client :: "env \<Rightarrow> pystr \<Rightarrow> read_event list \<Rightarrow> ctl act" where
  "handle_client E ip evs = bnd (accept_connection ip) (\<lambda>acquired.
     if \<not> acquired then bnd (cleanup E ip False) (\<lambda>_. ret Leave)
     else bnd (loop_guard (client_loop E evs)) (\<lambda>c.
       if c = Go then ret Go else bnd (cleanup E ip True) (\<lambda>_. ret c)))"

section \<open>What serving a connection may change\<close>

text \<open>
  The interface of invariants over whole connections: the relations of \<open>dispatch_rel\<close> that
  also ignore the framer's buffer and the request timestamps.
\<close>

locale loop_rel = dispatch_rel +
  assumes loop_framer: "R w (w\<lparr>w_sess := (w_sess w)\<lparr>s_framer := f\<rparr>\<rparr>)"
    and loop_requests: "R w (w\<lparr>w_sess := (w_sess w)\<lparr>request_timestamps := ts\<rparr>\<rparr>)"
begin

lemma keeps_set_reason: "keeps R (set_reason reason)"
  unfolding set_reason_def by (intro keeps_upd_sess) simp

lemma keeps_ask: "keeps R (ask_rate_limiter now)"
  by (auto simp: keeps_def ask_rate_limiter_def allow_request_now_def Let_def loop_requests)

lemma keeps_feed: "keeps R (session_feed chunk)"
  by (auto simp: keeps_def session_feed_def loop_framer split: prod.splits)

lemma keeps_received: "keeps R (on_frame_received E n)"
  unfolding on_frame_received_def block.simps by (intro keeps_upd_sess quiet_rules) simp

lemmas loop_rules = keeps_set_reason keeps_ask keeps_feed keeps_received keeps_handle_frame serve_reset answer_rules

lemma keeps_handle_frames: "keeps R (handle_frames E frames)"
proof (induction frames)
  case Nil
  show ?case unfolding handle_frames.simps by (intro loop_rules)
next
  case (Cons f fs)
  show ?case unfolding handle_frames.simps rate_limit_hit_def block.simps by (intro Cons.IH loop_rules)
qed

lemma keeps_loop_iteration: "keeps R (loop_iteration E ev)"
  unfolding loop_iteration_def loop_head_def chunk_read_def read_timed_out_def upload_timed_out_def leave_with_def
  by (cases ev; simp only: read_event.case; intro keeps_handle_frames loop_rules)

lemma keeps_loop_guard: "keeps R m \<Longrightarrow> keeps R (loop_guard m)"
  unfolding loop_guard_def leave_with_def by (intro loop_rules)

lemma keeps_client_loop: "keeps R (client_loop E evs)"
  by (induction evs; unfold client_loop.simps) (intro keeps_loop_iteration keeps_rules, assumption?)+

end

end
