(* ===== verification/Slot_Accounting.thy ===== *)
theory Slot_Accounting
  imports Router
begin

text \<open>
  Upload slots across the request handlers: taking a slot at packet 1 and giving it back on
  every way out of an upload keep the shared counter equal to the number of connections that
  hold a slot. \<open>others w\<close> is what the counter says beside this connection's own slot.
\<close>

definition others :: "world \<Rightarrow> int" where
  "others w = active_uploads (w_limiter w) - (if has_upload_slot (w_sess w) then 1 else 0)"

definition slots_ok :: "world \<Rightarrow> bool" where
  "slots_ok w \<longleftrightarrow> 0 \<le> others w \<and> active_uploads (w_limiter w) \<le> max_concurrent_uploads (w_limiter w)"

definition slots_kept :: "world \<Rightarrow> world \<Rightarrow> bool" where
  "slots_kept w w' \<longleftrightarrow> max_concurrent_uploads (w_limiter w') = max_concurrent_uploads (w_limiter w) \<and>
     (slots_ok w \<longrightarrow> slots_ok w' \<and> others w' = others w)"

lemma slots_frame:
  "w_limiter w' = w_limiter w \<Longrightarrow> has_upload_slot (w_sess w') = has_upload_slot (w_sess w) \<Longrightarrow> slots_kept w w'"
  by (simp add: slots_kept_def slots_ok_def others_def)

lemma slots_trans: "slots_kept w v \<Longrightarrow> slots_kept v u \<Longrightarrow> slots_kept w u"
  by (simp add: slots_kept_def)

interpretation slots: quiet_rel slots_kept E for E
  by unfold_locales (simp_all add: slots_frame same_core_fields, rule slots_trans)

interpretation slots_auth: auth_rel slots_kept E for E
  by unfold_locales (simp_all add: slots_frame slots.keeps_hand_out)

text \<open>The two handlers of a slot: the counter and the flag move together.\<close>

lemma keeps_release: "keeps slots_kept release_upload_slot"
proof (rule keepsI)
  fix w r w' assume "release_upload_slot w = (r, w')"
  then show "slots_kept w w'"
    by (auto simp: release_upload_slot_def upd_sess_def upd_metrics_def slots_kept_def slots_ok_def others_def
        upload_release_def split: if_splits)
qed

lemma keeps_acquire: "keeps slots_kept (acquire_upload_slot E cid version)"
proof (rule keepsI)
  fix w r w' assume run: "acquire_upload_slot E cid version w = (r, w')"
  have refused: "keeps slots_kept (bnd (block [upd_metrics inc_rejected_uploads,
      answer_1607 E cid version (lit ''server busy: too many concurrent uploads''), reset_transfer_state E]) (\<lambda>_. ret False))"
  proof -
    have 3: "keeps slots_kept (upd_xfer f)" for f
      by (simp add: keeps_def upd_xfer_def upd_sess_def slots_frame)
    have 4: "keeps slots_kept (on_fs E op)" for op
      unfolding on_fs_def by (intro slots.quiet_rules) (simp add: keeps_def split_beta slots_frame)
    show ?thesis
      unfolding reset_transfer_state_def remove_tmp_file_def block.simps by (intro 3 4 slots.answer_rules)
  qed
  show "slots_kept w w'"
  proof (cases "has_upload_slot (w_sess w) \<or> active_uploads (w_limiter w) < max_concurrent_uploads (w_limiter w)")
    case True
    with run show ?thesis
      by (auto simp: acquire_upload_slot_def upload_try_acquire_def upd_sess_def upd_metrics_def slots_kept_def
          slots_ok_def others_def bnd_assoc split: if_splits)
  next
    case False
    with run have "bnd (block [upd_metrics inc_rejected_uploads,
      answer_1607 E cid version (lit ''server busy: too many concurrent uploads''), reset_transfer_state E]) (\<lambda>_. ret False) w = (r, w')"
      by (simp add: acquire_upload_slot_def upload_try_acquire_def)
    then show ?thesis by (rule keepsD [OF refused])
  qed
qed

interpretation slots_serve: serving_rel slots_kept E for E
proof unfold_locales
  show "keeps slots_kept (request_826 E cid payload version)" for cid payload version
    by (rule slots_auth.keeps_request_826) (simp add: slots_frame)
  show "keeps slots_kept (request_829 E payload version cid)" for cid payload version
    by (rule slots.keeps_request_829) (simp_all add: slots_frame)
  show "keeps slots_kept (request_830 E payload version cid)" for cid payload version
    by (rule slots.keeps_request_830) (simp add: slots_frame)
qed (simp_all add: slots_frame keeps_release keeps_acquire)

text \<open>No upload slot is lost or forged: serving a frame, whatever it holds and whatever fails,
  leaves the slots of all other connections as they were and keeps the counter within the
  configured maximum; the counter moves exactly with this connection's own slot.\<close>

lemma served_slots_accounted:
  assumes "handle_frame E frame w = (r, w')" and "slots_ok w"
  shows "slots_ok w' \<and> others w' = others w \<and>
    active_uploads (w_limiter w') = others w + (if has_upload_slot (w_sess w') then 1 else 0) \<and>
    active_uploads (w_limiter w') \<le> max_concurrent_uploads (w_limiter w)"
proof -
  have "slots_kept w w'" by (rule keepsD [OF slots_serve.keeps_handle_frame assms(1)])
  with assms(2) have "slots_ok w'" "others w' = others w"
      "max_concurrent_uploads (w_limiter w') = max_concurrent_uploads (w_limiter w)"
    by (simp_all add: slots_kept_def)
  then show ?thesis by (auto simp: slots_ok_def others_def)
qed

end
