(* ===== verification/Response_Safety.thy ===== *)
theory Response_Safety
  imports Router
begin

text \<open>
  What the server says to a client: every message is a well-formed response, and an AES key
  leaves the server only inside a response that the identity key has signed for the nonces of
  this very connection's handshake, and only after that handshake.
\<close>

section \<open>The relation\<close>

text \<open>Once verified, a connection stays verified and keeps the handshake it was verified with.\<close>

definition hs_stable :: "session \<Rightarrow> session \<Rightarrow> bool" where
  "hs_stable s s' \<longleftrightarrow> server_identity_key s' = server_identity_key s \<and>
     (handshake_verified s \<longrightarrow> handshake_verified s' \<and> security_version s' = security_version s \<and>
        client_nonce s' = client_nonce s \<and> server_nonce s' = server_nonce s)"

text \<open>A response 1602 or 1605 whose signature binds the encrypted key to the handshake of \<open>s\<close>.\<close>

definition bound_aes_answer :: "env \<Rightarrow> session \<Rightarrow> bytes \<Rightarrow> bool" where
  "bound_aes_answer E s m \<longleftrightarrow> answer_frame m \<and> (answer_code m = 1602 \<or> answer_code m = 1605) \<and>
     handshake_verified s \<and>
     (\<exists>sv cn sn cid ct t. security_version s = Some sv \<and> client_nonce s = Some cn \<and> server_nonce s = Some sn \<and>
        aes_key_binding_transcript sv cn sn cid (answer_code m) ct = Ok t \<and>
        (let sig = rsa_sign E (server_identity_key s) t in
         answer_payload m = cid @ le_encode 2 (len ct) @ ct @ le_encode 2 (len sig) @ sig))"

definition answers_since :: "env \<Rightarrow> world \<Rightarrow> world \<Rightarrow> bool" where
  "answers_since E w w' \<longleftrightarrow> hs_stable (w_sess w) (w_sess w') \<and>
     (\<exists>ms. w_out w' = w_out w @ ms \<and> (\<forall>m \<in> set ms. plain_answer m \<or> bound_aes_answer E (w_sess w') m))"

text \<open>The same before the handshake, when its state may still change.\<close>

definition answers_before :: "env \<Rightarrow> world \<Rightarrow> world \<Rightarrow> bool" where
  "answers_before E w w' \<longleftrightarrow>
     (\<not> handshake_verified (w_sess w) \<longrightarrow> \<not> handshake_verified (w_sess w') \<and> answers_since E w w')"

lemma hs_stable_refl [simp]: "hs_stable s s"
  by (simp add: hs_stable_def)

lemma hs_stable_trans: "hs_stable s t \<Longrightarrow> hs_stable t u \<Longrightarrow> hs_stable s u"
  by (auto simp: hs_stable_def)

lemma bound_stable: "hs_stable s s' \<Longrightarrow> bound_aes_answer E s m \<Longrightarrow> bound_aes_answer E s' m"
  unfolding hs_stable_def bound_aes_answer_def by auto

lemma answers_since_refl: "answers_since E w w"
  by (simp add: answers_since_def)

lemma answers_since_trans:
  assumes "answers_since E w v" and "answers_since E v u"
  shows "answers_since E w u"
proof -
  obtain ms where ms: "w_out v = w_out w @ ms" "\<forall>m \<in> set ms. plain_answer m \<or> bound_aes_answer E (w_sess v) m"
    using assms(1) by (auto simp: answers_since_def)
  obtain ns where ns: "w_out u = w_out v @ ns" "\<forall>m \<in> set ns. plain_answer m \<or> bound_aes_answer E (w_sess u) m"
    using assms(2) by (auto simp: answers_since_def)
  have hs: "hs_stable (w_sess w) (w_sess v)" "hs_stable (w_sess v) (w_sess u)"
    using assms by (simp_all add: answers_since_def)
  have "w_out u = w_out w @ (ms @ ns)" using ms(1) ns(1) by simp
  moreover have "\<forall>m \<in> set (ms @ ns). plain_answer m \<or> bound_aes_answer E (w_sess u) m"
    using ms(2) ns(2) bound_stable [OF hs(2)] by auto
  ultimately show ?thesis unfolding answers_since_def using hs_stable_trans [OF hs] by blast
qed

lemma answers_same_out: "w_out w' = w_out w \<Longrightarrow> hs_stable (w_sess w) (w_sess w') \<Longrightarrow> answers_since E w w'"
  by (simp add: answers_since_def)

lemma answers_frame [simp]:
  "answers_since E w (w\<lparr>w_tick := n\<rparr>)" "answers_since E w (w\<lparr>w_metrics := m\<rparr>)"
  "answers_since E w (w\<lparr>w_store := st\<rparr>)" "answers_since E w (w\<lparr>w_limiter := l\<rparr>)"
  "answers_since E w (w\<lparr>w_fs := fs\<rparr>)" "answers_since E w (w\<lparr>w_sess := (w_sess w)\<lparr>xfer := x\<rparr>\<rparr>)"
  "answers_since E w (w\<lparr>w_sess := (w_sess w)\<lparr>has_upload_slot := b\<rparr>\<rparr>)"
  "plain_answer data \<Longrightarrow> answers_since E w (w\<lparr>w_out := w_out w @ [data]\<rparr>)"
  "same_core (w_sess w) s \<Longrightarrow> answers_since E w (w\<lparr>w_sess := s\<rparr>)"
  "\<not> handshake_verified (w_sess w) \<Longrightarrow> answers_since E w (w\<lparr>w_sess := (w_sess w)\<lparr>handshake_verified := v\<rparr>\<rparr>)"
  by (simp_all add: answers_since_def hs_stable_def same_core_fields)

interpretation answers: quiet_rel "answers_since E" E for E
  by unfold_locales (simp_all add: answers_since_refl, rule answers_since_trans)

interpretation answers_pre: quiet_rel "answers_before E" E for E
  by unfold_locales
    (auto simp: answers_before_def same_core_fields answers_since_refl elim: answers_since_trans)

section \<open>Handing out an AES key\<close>

lemma bound_payload_signed:
  assumes "build_bound_aes_key_payload E ct cid code s = Ok payload"
    and "message_answer version code n payload = Ok m" and "code = 1602 \<or> code = 1605"
  shows "bound_aes_answer E s m"
proof -
  obtain sv cn sn t where "handshake_verified s" "security_version s = Some sv" "client_nonce s = Some cn"
      "server_nonce s = Some sn" "aes_key_binding_transcript sv cn sn cid code ct = Ok t"
      "let sig = rsa_sign E (server_identity_key s) t in
         payload = cid @ le_encode 2 (len ct) @ ct @ le_encode 2 (len sig) @ sig"
    using assms(1)
    by (auto simp: build_bound_aes_key_payload_def sign_aes_key_binding_def res_bnd_Ok to_bytes_Ok
        split: if_splits option.splits)
  with message_answer_fields [OF assms(2)] assms(3) show ?thesis
    unfolding bound_aes_answer_def by auto
qed

text \<open>Touching the client and logging leave the session and what has been sent alone.\<close>

definition same_talk :: "world \<Rightarrow> world \<Rightarrow> bool" where
  "same_talk w w' \<longleftrightarrow> w_sess w' = w_sess w \<and> w_out w' = w_out w"

interpretation talk: change_rel same_talk
  by unfold_locales (auto simp: same_talk_def)

lemma touch_and_log_same_talk: "keeps same_talk (touch_client E c)" "keeps same_talk (log_event E k what)"
  unfolding touch_client_def log_event_def
  by (auto simp: keeps_def same_talk_def bnd_def next_of_def on_store_def split: res.splits prod.splits)

lemma send_bound:
  assumes "bound_aes_answer E (w_sess w) m"
  shows "answers_since E w (snd (session_send E m w))"
proof -
  let ?v = "w\<lparr>w_out := w_out w @ [m]\<rparr>"
  have 1: "answers_since E w ?v" using assms by (simp add: answers_since_def)
  have "keeps (answers_since E) (try_except (block [writer_drain E, on_frame_sent E (len m)]) is_connection_lost
      (\<lambda>e. block [upd_sess (\<lambda>s. s\<lparr>disconnect_reason := ''send_error''\<rparr>), throw e]))"
    unfolding writer_drain_def on_frame_sent_def block.simps
    by (intro answers.quiet_rules answers.keeps_upd_sess) simp_all
  then have 2: "answers_since E ?v (snd (try_except (block [writer_drain E, on_frame_sent E (len m)]) is_connection_lost
      (\<lambda>e. block [upd_sess (\<lambda>s. s\<lparr>disconnect_reason := ''send_error''\<rparr>), throw e]) ?v))"
    by (simp add: keeps_def)
  have "session_send E m w = (if m = [] \<or> \<not> has_writer (w_sess w) then (Ok (), w)
      else try_except (block [writer_drain E, on_frame_sent E (len m)]) is_connection_lost
        (\<lambda>e. block [upd_sess (\<lambda>s. s\<lparr>disconnect_reason := ''send_error''\<rparr>), throw e]) ?v)"
    by (simp add: session_send_def try_except_def writer_write_def)
  with answers_since_trans [OF 1 2] show ?thesis by (simp add: answers_since_refl)
qed

lemma keeps_answer_aes_key:
  assumes "code = 1602 \<or> code = 1605"
  shows "keeps (answers_since E) (answer_aes_key E code what ct cid version)"
proof (rule keepsI)
  fix w r w' assume run: "answer_aes_key E code what ct cid version w = (r, w')"
  show "answers_since E w w'"
  proof (cases "res_bnd (build_bound_aes_key_payload E ct cid code (w_sess w)) (\<lambda>p. message_answer version code (len p) p)")
    case (Raise e)
    with run show ?thesis
      by (auto simp: answer_aes_key_def answers_since_refl split: res.splits)
  next
    case (Ok m)
    then obtain p where p: "build_bound_aes_key_payload E ct cid code (w_sess w) = Ok p"
        "message_answer version code (len p) p = Ok m"
      by (auto simp: res_bnd_Ok)
    note bound = bound_payload_signed [OF p assms]
    have run': "bnd (block [touch_client E (bytes_hex cid), log_event E (ById cid) what]) (\<lambda>_. session_send E m) w = (r, w')"
      using run p by (simp add: answer_aes_key_def bnd_assoc)
    have quiet: "keeps same_talk (block [touch_client E (bytes_hex cid), log_event E (ById cid) what])"
      unfolding block.simps by (intro talk.keeps_rules touch_and_log_same_talk)
    have quiet_step: "answers_since E w v" if "same_talk w v" for v
      using that by (simp add: same_talk_def answers_since_def)
    from run' show ?thesis
    proof (cases rule: bnd_cases)
      case (ok x v)
      then have "same_talk w v" using keepsD [OF quiet] by blast
      with ok(2) send_bound [of E v m] bound quiet_step [of v] show ?thesis
        by (auto simp: same_talk_def intro: answers_since_trans)
    qed (use keepsD [OF quiet] quiet_step in blast)
  qed
qed

section \<open>Serving a frame\<close>

lemma keeps_829: "keeps (answers_since E) (request_829 E payload version cid)"
proof (rule keepsI)
  fix w r w' assume run: "request_829 E payload version cid w = (r, w')"
  show "answers_since E w w'"
  proof (cases "handshake_verified (w_sess w)")
    case True
    with run show ?thesis
      by (auto simp: request_829_def Let_def dest: keepsD [OF answers.keeps_answer_1607])
  next
    case False
    have "keeps (answers_before E) (request_829 E payload version cid)"
      by (rule answers_pre.keeps_request_829) (simp_all add: answers_before_def answers_same_out hs_stable_def)
    from keepsD [OF this run] False show ?thesis by (simp add: answers_before_def)
  qed
qed

interpretation answers_auth: auth_rel "answers_since E" E for E
  by unfold_locales (simp_all add: keeps_answer_aes_key)

lemma keeps_slots:
  "keeps (answers_since E) (acquire_upload_slot E cid version)" "keeps (answers_since E) release_upload_slot"
  by (simp_all add: answers.keeps_slots_free)

interpretation answers_serve: serving_rel "answers_since E" E for E
proof unfold_locales
  show "keeps (answers_since E) (request_826 E cid payload version)" for cid payload version
    by (rule answers_auth.keeps_request_826) simp
  show "keeps (answers_since E) (request_830 E payload version cid)" for cid payload version
    by (rule answers.keeps_request_830) simp
qed (simp_all add: keeps_slots keeps_829)

text \<open>Whatever a frame holds and whatever fails while it is served, everything the server sends
  in return is a well-formed response, and an AES key is only ever sent in a response 1602 or
  1605 that carries the identity key's signature over the nonces of the completed handshake
  of this connection, the client id, the response code and the encrypted key.\<close>

lemma served_answers_signed:
  assumes "handle_frame E frame w = (r, w')"
  shows "\<exists>ms. w_out w' = w_out w @ ms \<and>
    (\<forall>m \<in> set ms. answer_frame m \<and> (plain_answer m \<or> bound_aes_answer E (w_sess w') m))"
  using keepsD [OF answers_serve.keeps_handle_frame assms]
  by (auto simp: answers_since_def plain_answer_def bound_aes_answer_def)

text \<open>A verified connection stays verified: no frame undoes the handshake or changes the nonces
  and the identity it was completed with.\<close>

lemma served_handshake_stable:
  assumes "handle_frame E frame w = (r, w')" and "handshake_verified (w_sess w)"
  shows "handshake_verified (w_sess w') \<and> security_version (w_sess w') = security_version (w_sess w) \<and>
    client_nonce (w_sess w') = client_nonce (w_sess w) \<and> server_nonce (w_sess w') = server_nonce (w_sess w) \<and>
    server_identity_key (w_sess w') = server_identity_key (w_sess w)"
  using keepsD [OF answers_serve.keeps_handle_frame assms(1)] assms(2)
  by (simp add: answers_since_def hs_stable_def)


end
