(* ===== verification/Key_Binding.thy ===== *)
theory Key_Binding
  imports Router
begin

text \<open>
  Who a client is, across the request handlers: the directory of clients only grows, its
  invariant holds after every frame, and the public key a client has enrolled is never
  replaced (trust on first use). All of it as long as no \<open>commit\<close> fails.
\<close>

section \<open>The relation\<close>

text \<open>Every client of \<open>T\<close> is still in \<open>T'\<close>, under the same id and name, with the key it had enrolled.\<close>

definition clients_kept :: "client_record list \<Rightarrow> client_record list \<Rightarrow> bool" where
  "clients_kept T T' \<longleftrightarrow> (\<forall>r \<in> set T. \<exists>r' \<in> set T'. client_id_hex r' = client_id_hex r \<and> username r' = username r \<and>
     created_at r' = created_at r \<and> (public_key_der r \<noteq> None \<longrightarrow> public_key_der r' = public_key_der r))"

definition commits :: "env \<Rightarrow> bool" where
  "commits E \<longleftrightarrow> (\<forall>n. sql E n \<noteq> CommitFails)"

definition bindings_kept :: "env \<Rightarrow> world \<Rightarrow> world \<Rightarrow> bool" where
  "bindings_kept E w w' \<longleftrightarrow> (commits E \<longrightarrow> store_inv (w_store w) \<longrightarrow>
     store_inv (w_store w') \<and> sqlite_connected (w_store w') = sqlite_connected (w_store w) \<and>
     clients_kept (clients_table (w_store w)) (clients_table (w_store w')))"

text \<open>The same, as long as the rows with id \<open>c\<close> have a key in \<open>K\<close>, which they then keep.\<close>

definition rows_have :: "pystr \<Rightarrow> bytes option set \<Rightarrow> client_record list \<Rightarrow> bool" where
  "rows_have c K T \<longleftrightarrow> (\<forall>r \<in> set T. client_id_hex r = c \<longrightarrow> public_key_der r \<in> K)"

definition bindings_among :: "pystr \<Rightarrow> bytes option set \<Rightarrow> env \<Rightarrow> world \<Rightarrow> world \<Rightarrow> bool" where
  "bindings_among c K E w w' \<longleftrightarrow> (rows_have c K (clients_table (w_store w)) \<longrightarrow>
     rows_have c K (clients_table (w_store w')) \<and> bindings_kept E w w')"

lemma clients_kept_refl [simp]: "clients_kept T T"
  unfolding clients_kept_def by blast

lemma clients_kept_trans: "clients_kept T U \<Longrightarrow> clients_kept U V \<Longrightarrow> clients_kept T V"
  unfolding clients_kept_def by metis

lemma clients_kept_append [simp]: "clients_kept T (T @ rs)"
  unfolding clients_kept_def by fastforce

lemma clients_kept_upd_row:
  assumes "keeps_keys f" and "\<And>r. created_at (f r) = created_at r"
    and "\<And>r. r \<in> set T \<Longrightarrow> client_id_hex r = c \<Longrightarrow> public_key_der r \<noteq> None \<Longrightarrow> public_key_der (f r) = public_key_der r"
  shows "clients_kept T (map (upd_row c f) T)"
  unfolding clients_kept_def
proof
  fix r assume "r \<in> set T"
  with assms show "\<exists>r' \<in> set (map (upd_row c f) T). client_id_hex r' = client_id_hex r \<and> username r' = username r \<and>
      created_at r' = created_at r \<and> (public_key_der r \<noteq> None \<longrightarrow> public_key_der r' = public_key_der r)"
    by (intro bexI [of _ "upd_row c f r"]) (auto simp: upd_row_def keeps_keys_def)
qed

section \<open>The store operations\<close>

lemma update_client_table:
  "clients_table (snd (update_client out c f st)) \<in> {clients_table st, map (upd_row c f) (clients_table st)}"
proof -
  have u: "(\<lambda>row. if client_id_hex row = c then f row else row) = upd_row c f" by (auto simp: upd_row_def)
  show ?thesis by (simp add: update_client_def u Let_def split: option.split)
qed

lemma create_client_table: "\<exists>rs. clients_table (snd (create_client out uuid now name st)) = clients_table st @ rs"
  by (simp add: create_client_def Let_def)

lemma upload_ops_clients [simp]:
  "clients_table (snd (create_upload_record out now c fn os cs status st)) = clients_table st"
  "clients_table (snd (complete_upload_record out i p crc now st)) = clients_table st"
  "clients_table (snd (fail_upload_record out i reason status now st)) = clients_table st"
  by (simp_all add: create_upload_record_def complete_upload_record_def fail_upload_record_def update_upload_def Let_def)

lemma store_ops_connected [simp]:
  "sqlite_connected (snd (update_client out c f st)) = sqlite_connected st"
  "sqlite_connected (snd (create_client out uuid now name st)) = sqlite_connected st"
  "sqlite_connected (snd (create_upload_record out now c fn os cs status st)) = sqlite_connected st"
  "sqlite_connected (snd (update_upload out i g st)) = sqlite_connected st"
  by (simp_all add: update_client_def create_client_def create_upload_record_def update_upload_def Let_def split: option.split)

lemma bindings_update:
  assumes "keeps_keys f" and "\<And>r. created_at (f r) = created_at r"
    and "\<And>r. r \<in> set (clients_table (w_store w)) \<Longrightarrow> client_id_hex r = c \<Longrightarrow> public_key_der r \<noteq> None \<Longrightarrow>
      public_key_der (f r) = public_key_der r"
  shows "bindings_kept E w (w\<lparr>w_store := snd (update_client (sql E n) c f (w_store w))\<rparr>)"
proof -
  have "clients_kept (clients_table (w_store w)) (clients_table (snd (update_client (sql E n) c f (w_store w))))"
    using update_client_table [of "sql E n" c f "w_store w"] clients_kept_upd_row [OF assms, where T = "clients_table (w_store w)"]
    by auto
  then show ?thesis
    using assms(1) by (auto simp: bindings_kept_def commits_def intro: update_client_inv)
qed

lemma bindings_create: "bindings_kept E w (w\<lparr>w_store := snd (create_client (sql E n) uuid now name (w_store w))\<rparr>)"
  using create_client_table [of "sql E n" uuid now name "w_store w"]
  by (auto simp: bindings_kept_def commits_def intro: create_client_inv)

lemma bindings_uploads:
  "bindings_kept E w (w\<lparr>w_store := snd (create_upload_record (sql E n) now c fn os cs status (w_store w))\<rparr>)"
  "bindings_kept E w (w\<lparr>w_store := snd (complete_upload_record (sql E n) i p crc now (w_store w))\<rparr>)"
  "bindings_kept E w (w\<lparr>w_store := snd (fail_upload_record (sql E n) i reason status now (w_store w))\<rparr>)"
  by (auto simp: bindings_kept_def commits_def intro: create_upload_record_inv)
    (simp_all add: complete_upload_record_def fail_upload_record_def update_upload_inv)

lemma rows_have_update:
  "rows_have c K T \<Longrightarrow> keeps_keys f \<Longrightarrow> (\<And>r. client_id_hex r = c \<Longrightarrow> public_key_der r \<in> K \<Longrightarrow> public_key_der (f r) \<in> K) \<Longrightarrow>
    rows_have c K (map (upd_row c' f) T)"
  by (auto simp: rows_have_def upd_row_def keeps_keys_def)

lemma rows_have_update_client:
  "rows_have c K (clients_table st) \<Longrightarrow> keeps_keys f \<Longrightarrow>
    (\<And>r. client_id_hex r = c \<Longrightarrow> public_key_der r \<in> K \<Longrightarrow> public_key_der (f r) \<in> K) \<Longrightarrow>
    rows_have c K (clients_table (snd (update_client out c' f st)))"
  using update_client_table [of out c' f st] rows_have_update by auto

section \<open>Quiet steps\<close>

lemma bindings_same_store [simp]: "w_store w' = w_store w \<Longrightarrow> bindings_kept E w w'"
  by (simp add: bindings_kept_def)

lemma bindings_log [simp]: "bindings_kept E w (w\<lparr>w_store := (w_store w)\<lparr>clients_recent_log := l\<rparr>\<rparr>)"
  by (simp add: bindings_kept_def store_inv_def db_ok_def indexed_def)

lemma bindings_trans: "bindings_kept E w v \<Longrightarrow> bindings_kept E v u \<Longrightarrow> bindings_kept E w u"
  unfolding bindings_kept_def by (meson clients_kept_trans)

lemma bindings_touch: "bindings_kept E w (w\<lparr>w_store := snd (touch_client_last_seen (sql E n) now c (w_store w))\<rparr>)"
  unfolding touch_client_last_seen_def by (rule bindings_update) simp_all

lemma bindings_aes: "bindings_kept E w (w\<lparr>w_store := snd (set_client_aes_key (sql E n) c k (w_store w))\<rparr>)"
  unfolding set_client_aes_key_def by (rule bindings_update) simp_all

interpretation bindings: quiet_rel "bindings_kept E" E for E
  by unfold_locales (simp_all add: bindings_touch, rule bindings_trans)

interpretation among: quiet_rel "bindings_among c K E" E for c K E
proof unfold_locales
  show "bindings_among c K E w u" if "bindings_among c K E w v" "bindings_among c K E v u" for w v u
    using that bindings_trans unfolding bindings_among_def by blast
  show "bindings_among c K E w (w\<lparr>w_store := snd (touch_client_last_seen (sql E n) now c' (w_store w))\<rparr>)" for w n now c'
    using bindings_touch by (auto simp: bindings_among_def touch_client_last_seen_def intro: rows_have_update_client)
qed (simp_all add: bindings_among_def)

interpretation bindings_auth: auth_rel "bindings_kept E" E for E
  by unfold_locales (simp_all add: bindings.keeps_hand_out bindings_aes bindings_create)

interpretation among_keys: key_rel "bindings_among c K E" E for c K E
proof unfold_locales
  show "bindings_among c K E w (w\<lparr>w_store := snd (set_client_aes_key (sql E n) c' k (w_store w))\<rparr>)" for w n c' k
    using bindings_aes by (auto simp: bindings_among_def set_client_aes_key_def intro: rows_have_update_client)
qed (simp_all add: among.keeps_hand_out bindings_among_def)

section \<open>Enrolment\<close>

text \<open>A key is stored for a client only where the client had none, or had that very key.\<close>

lemma enrol_among:
  "bindings_among c {None, Some der} E w (w\<lparr>w_store := snd (set_client_public_key (sql E n) c der (w_store w))\<rparr>)"
proof -
  have "rows_have c {None, Some der} (clients_table (w_store w)) \<Longrightarrow>
      bindings_kept E w (w\<lparr>w_store := snd (update_client (sql E n) c (\<lambda>r. r\<lparr>public_key_der := Some der\<rparr>) (w_store w))\<rparr>)"
    by (rule bindings_update) (auto simp: rows_have_def)
  then show ?thesis
    by (auto simp: bindings_among_def set_client_public_key_def intro: rows_have_update_client)
qed

lemma keeps_826: "keeps (bindings_kept E) (request_826 E cid payload version)"
proof (rule keepsI)
  fix w r w' assume run: "request_826 E cid payload version w = (r, w')"
  show "bindings_kept E w w'"
  proof (cases "get_client_by_id (bytes_hex cid) (w_store w)")
    case None
    with run show ?thesis by (auto simp: request_826_def dest: keepsD [OF bindings.keeps_answer_1607])
  next
    case (Some found)
    then have run': "request_826_known E cid payload version found w = (r, w')"
      using run by (simp add: request_826_def)
    show ?thesis
    proof (cases "public_key_der found")
      case None
      obtain der where der: "\<And>d. b64decode True (map unat (public_blob payload)) = Ok d \<Longrightarrow> d = der"
        by (cases "b64decode True (map unat (public_blob payload))") auto
      have "keeps (bindings_among (bytes_hex cid) {None, Some der} E) (request_826_known E cid payload version found)"
        by (rule among_keys.keeps_request_826_known) (use der enrol_among in blast)
      from keepsD [OF this run'] have "rows_have (bytes_hex cid) {None, Some der} (clients_table (w_store w)) \<Longrightarrow> ?thesis"
        by (simp add: bindings_among_def)
      moreover have "rows_have (bytes_hex cid) {None, Some der} (clients_table (w_store w))" if "store_inv (w_store w)"
      proof -
        have conn: "sqlite_connected (w_store w)" using Some by (auto simp: get_client_by_id_def split: if_splits)
        have "found \<in> set (clients_table (w_store w))" "client_id_hex found = bytes_hex cid"
          using Some get_client_by_id_iff [OF that conn] by auto
        moreover have "db_ok (w_store w)" using that by (simp add: store_inv_def)
        ultimately have "q = found" if "q \<in> set (clients_table (w_store w))" "client_id_hex q = bytes_hex cid" for q
          using that row_unique by auto
        with None show ?thesis by (auto simp: rows_have_def)
      qed
      ultimately show ?thesis by (cases "store_inv (w_store w)") (auto simp: bindings_kept_def)
    next
      case (Some k)
      have "keeps (bindings_kept E) (request_826_known E cid payload version found)"
        by (rule bindings_auth.keeps_request_826_known) (simp add: Some)
      from keepsD [OF this run'] show ?thesis .
    qed
  qed
qed

section \<open>Serving a frame\<close>

interpretation bindings_serve: serving_rel "bindings_kept E" E for E
proof unfold_locales
  show "keeps (bindings_kept E) (request_829 E payload version cid)" for payload version cid
    by (rule bindings.keeps_request_829) simp_all
  show "keeps (bindings_kept E) (request_830 E payload version cid)" for payload version cid
    by (rule bindings.keeps_request_830) simp
qed (simp_all add: keeps_826 bindings_uploads bindings.keeps_slots_free)

text \<open>Trust on first use: as long as no commit fails, serving any frame keeps the directory
  coherent (the index answers what the table holds, ids and names are unique), forgets no
  client, and never replaces a public key a client has enrolled.\<close>

lemma served_key_binding:
  assumes "handle_frame E frame w = (r, w')" and "commits E" and "store_inv (w_store w)"
    and "sqlite_connected (w_store w)" and "get_client_by_id c (w_store w) = Some rec"
  shows "store_inv (w_store w') \<and>
    (\<exists>rec'. get_client_by_id c (w_store w') = Some rec' \<and> username rec' = username rec \<and>
       (public_key_der rec \<noteq> None \<longrightarrow> public_key_der rec' = public_key_der rec))"
proof -
  have "bindings_kept E w w'" by (rule keepsD [OF bindings_serve.keeps_handle_frame assms(1)])
  then have inv: "store_inv (w_store w')" "sqlite_connected (w_store w')" and kept: "clients_kept (clients_table (w_store w)) (clients_table (w_store w'))"
    using assms(2-4) by (simp_all add: bindings_kept_def)
  have "rec \<in> set (clients_table (w_store w))" "client_id_hex rec = c"
    using assms(3-5) by (simp_all add: get_client_by_id_iff)
  with kept obtain rec' where "rec' \<in> set (clients_table (w_store w'))" "client_id_hex rec' = c"
      "username rec' = username rec" "public_key_der rec \<noteq> None \<longrightarrow> public_key_der rec' = public_key_der rec"
    unfolding clients_kept_def by metis
  with inv show ?thesis by (auto simp: get_client_by_id_iff)
qed

end
