(* ===== verification/Handshake.thy ===== *)
theory Handshake
  imports Router
begin

text \<open>
  The handshake in front of the protocol. The states of a connection as a machine of three
  phases, which serving a frame refines; what an unverified connection cannot touch;
  and that serving a frame always returns.
\<close>

section \<open>The phases\<close>

datatype phase = Fresh | HelloSent | Verified

definition phase :: "session \<Rightarrow> phase" where
  "phase s = (if handshake_verified s then Verified
     else if client_nonce s \<noteq> None \<and> server_nonce s \<noteq> None \<and> security_version s \<noteq> None then HelloSent
     else Fresh)"

text \<open>What a request with a given code may do to the phase.\<close>

inductive hs_step :: "int \<Rightarrow> phase \<Rightarrow> phase \<Rightarrow> bool" where
  stay: "hs_step code p p"
| hello: "hs_step 829 Fresh HelloSent"
| ack: "hs_step 830 HelloSent Verified"

inductive_cases hs_stepE: "hs_step code p q"
inductive_simps hs_step_simps: "hs_step code p q"

definition frame_code :: "bytes \<Rightarrow> int" where
  "frame_code frame = le_decode (take 2 (drop 17 frame))"

definition phase_rel :: "int \<Rightarrow> world \<Rightarrow> world \<Rightarrow> bool" where
  "phase_rel code w w' \<longleftrightarrow> hs_step code (phase (w_sess w)) (phase (w_sess w'))"

lemma phase_rel_same: "phase (w_sess w') = phase (w_sess w) \<Longrightarrow> phase_rel code w w'"
  by (simp add: phase_rel_def hs_step.stay)

lemma phase_same_core: "same_core s s' \<Longrightarrow> phase s' = phase s"
  by (simp add: phase_def same_core_fields)

lemma phase_xfer [simp]: "phase (s\<lparr>xfer := x\<rparr>) = phase s" "phase (s\<lparr>has_upload_slot := b\<rparr>) = phase s"
  by (simp_all add: phase_def)

interpretation ph: quiet_rel "phase_rel code" E for code E
proof unfold_locales
  show "phase_rel code w u" if "phase_rel code w v" "phase_rel code v u" for w v u
    using that by (auto simp: phase_rel_def hs_step_simps)
qed (simp_all add: phase_rel_same phase_same_core)

interpretation ph_auth: auth_rel "phase_rel code" E for code E
  by unfold_locales (simp_all add: phase_rel_same ph.keeps_hand_out)

interpretation ph_upload: upload_rel "phase_rel code" E for code E
  by unfold_locales (simp_all add: phase_rel_same ph.keeps_slots_free)

lemma keeps_phase_829: "keeps (phase_rel 829) (request_829 E payload version cid)"
  by (rule ph.keeps_request_829) (auto simp: phase_rel_def phase_def hs_step_simps)

lemma keeps_phase_830: "keeps (phase_rel 830) (request_830 E payload version cid)"
  by (rule ph.keeps_request_830) (auto simp: phase_rel_def phase_def hs_step_simps)

lemma keeps_phase_bad: "keeps (phase_rel code) (on_frame_bad reason)"
  unfolding on_frame_bad_def by (intro ph.keeps_upd_sess) simp

lemma keeps_phase_dispatch: "keeps (phase_rel code) (dispatch E code cid version payload)"
proof -
  have 829: "keeps (phase_rel code) (request_829 E payload version cid)" if "code = 829"
    using keeps_phase_829 that by simp
  have 830: "keeps (phase_rel code) (request_830 E payload version cid)" if "code = 830"
    using keeps_phase_830 that by simp
  have 826: "keeps (phase_rel code) (request_826 E cid payload version)"
    by (rule ph_auth.keeps_request_826) (simp add: phase_rel_same)
  show ?thesis
    unfolding dispatch_def block.simps
    by (intro keeps_phase_bad 829 830 826 ph_auth.keeps_request_825 ph_auth.keeps_request_827
        ph_upload.keeps_request_828 ph_upload.keeps_request_900 ph_upload.keeps_request_901
        ph_upload.keeps_request_902 ph_upload.upload_rules)
qed

lemma keeps_phase_handle_frame: "keeps (phase_rel (frame_code frame)) (handle_frame E frame)"
  unfolding handle_frame_def handle_frame_body_def handler_failed_def on_frame_ok_def block.simps Let_def
    frame_code_def [symmetric]
  by (intro keeps_phase_bad keeps_phase_dispatch ph.keeps_upd_sess ph_upload.upload_rules; simp)

text \<open>C9: the handshake is a machine of three phases: a frame moves a fresh connection to
  hello-sent only with code 829, and a connection that has got its hello to verified only
  with code 830; no other frame, malformed or failing ones included, changes the phase, and
  no phase is skipped or undone.\<close>

theorem served_handshake_refines:
  assumes "handle_frame E frame w = (r, w')"
  shows "hs_step (frame_code frame) (phase (w_sess w)) (phase (w_sess w'))"
  using keepsD [OF keeps_phase_handle_frame assms] by (simp add: phase_rel_def)

text \<open>A hello as a client sends it, for concrete runs.\<close>

definition hello_frame :: bytes where
  "hello_frame = zeros 16 @ [1] @ le_encode 2 829 @ le_encode 4 34 @ [1] @ zeros 32 @ [0]"

lemma hello_frame_code [simp]: "frame_code hello_frame = 829"
  by (simp add: frame_code_def hello_frame_def le_decode_encode)

theorem served_handshake_refines_witness:
  "hs_step 829 (phase (w_sess world_example)) (phase (w_sess (snd (handle_frame env_example hello_frame world_example))))"
  using served_handshake_refines [OF surjective_pairing, where E = env_example and frame = hello_frame and w = world_example] by simp

section \<open>Before the handshake\<close>

text \<open>The store but for the last-seen times of the clients and the log of recent events.\<close>

definition strip_seen :: "client_record \<Rightarrow> client_record" where
  "strip_seen r = r\<lparr>last_seen := []\<rparr>"

definition unseen :: "store \<Rightarrow> store" where
  "unseen st = st\<lparr>clients_table := map strip_seen (clients_table st), heap := (\<lambda>r. map_option strip_seen (heap st r)),
     clients_recent_log := Map.empty\<rparr>"

lemma strip_seen_touched: "strip_seen (r\<lparr>last_seen := now\<rparr>) = strip_seen r"
  by (simp add: strip_seen_def)

lemma strip_seen_heap:
  "(\<lambda>r. map_option strip_seen ((h(x := map_option (\<lambda>r. r\<lparr>last_seen := now\<rparr>) (h x))) r)) = (\<lambda>r. map_option strip_seen (h r))"
  by (rule ext) (simp add: option.map_comp o_def strip_seen_touched)

lemma unseen_touch: "unseen (snd (touch_client_last_seen out now c st)) = unseen st"
proof -
  have t: "map strip_seen (map (\<lambda>row. if hit row then row\<lparr>last_seen := now\<rparr> else row) rows) = map strip_seen rows" for hit rows
    by (simp add: strip_seen_touched)
  show ?thesis
    unfolding unseen_def touch_client_last_seen_def update_client_def Let_def
    by (auto simp: t strip_seen_heap simp del: map_map fun_upd_apply split: option.split)
qed

lemma unseen_log: "unseen (log_append k e st) = unseen st"
  by (simp add: unseen_def log_append_def)

text \<open>Sending writes to the connection and its bookkeeping; a response 1607 also counts, touches the client it names and
  logs.\<close>

lemma session_send_effect:
  assumes "session_send E data w = (r, w')"
  shows "\<exists>s out n. w' = w\<lparr>w_sess := s, w_out := out, w_tick := n\<rparr> \<and> same_core (w_sess w) s \<and>
    disconnect_reason s \<in> {disconnect_reason (w_sess w), ''send_error''} \<and> (out = w_out w \<or> out = w_out w @ [data])"
proof (cases "data = [] \<or> \<not> has_writer (w_sess w)")
  case True
  then have "w' = w" using assms by (cases "data = []") (simp_all add: session_send_def)
  then show ?thesis by (intro exI [of _ "w_sess w"] exI [of _ "w_out w"] exI [of _ "w_tick w"]) (simp add: same_core_def)
next
  case False
  with assms show ?thesis
    by (cases w) (auto simp: session_send_def try_except_def writer_write_def writer_drain_def next_of_def bnd_def on_frame_sent_def
        mark_activity_def upd_sess_def same_core_def split: option.splits if_splits)
qed

lemma touch_if_known_effect:
  assumes "touch_if_known E cid w = (r, w')"
  shows "\<exists>st n. w' = w\<lparr>w_store := st, w_tick := n\<rparr> \<and> unseen st = unseen (w_store w)"
proof (cases "get_client_by_id (bytes_hex cid) (w_store w)")
  case None
  then have "w' = w" using assms by (simp add: touch_if_known_def)
  then show ?thesis by (intro exI [of _ "w_store w"] exI [of _ "w_tick w"]) simp
next
  case (Some c)
  let ?t = "touch_client_last_seen (sql E (Suc (w_tick w))) (wall E (w_tick w)) (client_id_hex c) (w_store w)"
  have "w' = w\<lparr>w_store := snd ?t, w_tick := Suc (Suc (w_tick w))\<rparr>"
    using assms Some by (cases ?t; cases "fst ?t") (auto simp: touch_if_known_def touch_client_def next_of_def bnd_def on_store_def)
  then show ?thesis using unseen_touch by blast
qed

lemma answer_1607_effect:
  assumes "answer_1607 E cid version text w = (r, w')"
  shows "\<exists>st s out n. w' = w\<lparr>w_store := st, w_metrics := map_option inc_responses_1607 (w_metrics w), w_sess := s, w_out := out, w_tick := n\<rparr> \<and>
    unseen st = unseen (w_store w) \<and> same_core (w_sess w) s \<and> disconnect_reason s \<in> {disconnect_reason (w_sess w), ''send_error''} \<and>
    (out = w_out w \<or> (\<exists>m. out = w_out w @ [m] \<and> answer_frame m \<and> answer_code m = 1607))"
proof -
  define w0 where "w0 = w\<lparr>w_metrics := map_option inc_responses_1607 (w_metrics w)\<rparr>"
  let ?m = "res_bnd (utf8_encode text) (\<lambda>t. let payload = cid @ t in message_answer version 1607 (len payload) payload)"
  have run: "bnd (lift_res ?m) (\<lambda>m. bnd (touch_if_known E cid) (\<lambda>_. bnd (log_event E (ById cid) ''answer_1607'') (\<lambda>_. session_send E m))) w0 = (r, w')"
    using assms by (simp add: answer_1607_def w0_def upd_metrics_def)
  let ?after = "\<lambda>w'. \<exists>st s out n. w' = w0\<lparr>w_store := st, w_sess := s, w_out := out, w_tick := n\<rparr> \<and> unseen st = unseen (w_store w0) \<and>
      same_core (w_sess w0) s \<and> disconnect_reason s \<in> {disconnect_reason (w_sess w0), ''send_error''} \<and>
      (out = w_out w0 \<or> (\<exists>m. out = w_out w0 @ [m] \<and> answer_frame m \<and> answer_code m = 1607))"
  have still: "?after (w0\<lparr>w_store := st, w_tick := n\<rparr>)" if "unseen st = unseen (w_store w0)" for st n
    by (rule exI [of _ st], rule exI [of _ "w_sess w0"], rule exI [of _ "w_out w0"], rule exI [of _ n]) (simp add: that same_core_def)
  have "?after w'"
  proof (cases ?m)
    case (Raise e)
    then have "w' = w0" using run by simp
    then show ?thesis using still [of "w_store w0" "w_tick w0"] by simp
  next
    case (Ok m)
    then have frame: "answer_frame m" "answer_code m = 1607" by (auto simp: res_bnd_Ok Let_def dest: message_answer_fields)
    obtain r1 w1 where t: "touch_if_known E cid w0 = (r1, w1)" by fastforce
    from touch_if_known_effect [OF t] obtain st n where w1: "w1 = w0\<lparr>w_store := st, w_tick := n\<rparr>" "unseen st = unseen (w_store w0)" by blast
    show ?thesis
    proof (cases r1)
      case (Raise e)
      then have "w' = w1" using run Ok t by (simp add: bnd_def)
      then show ?thesis using still [OF w1(2), of n] w1(1) by simp
    next
      case (Ok x)
      define w2 where "w2 = w1\<lparr>w_tick := Suc n, w_store := log_append (ById cid) (''answer_1607'', wall E n) st\<rparr>"
      have "session_send E m w2 = (r, w')"
        using run \<open>?m = Ok m\<close> t Ok by (simp add: bnd_def log_event_def next_of_def w2_def w1)
      from session_send_effect [OF this] obtain s out k where w': "w' = w2\<lparr>w_sess := s, w_out := out, w_tick := k\<rparr>"
          "same_core (w_sess w2) s" "disconnect_reason s \<in> {disconnect_reason (w_sess w2), ''send_error''}" "out = w_out w2 \<or> out = w_out w2 @ [m]"
        by blast
      show ?thesis
        by (rule exI [of _ "w_store w2"], rule exI [of _ s], rule exI [of _ out], rule exI [of _ k])
          (use w' frame in \<open>auto simp: w2_def w1 unseen_log\<close>)
    qed
  qed
  then obtain st s out n where "w' = w0\<lparr>w_store := st, w_sess := s, w_out := out, w_tick := n\<rparr>" "unseen st = unseen (w_store w0)"
      "same_core (w_sess w0) s" "disconnect_reason s \<in> {disconnect_reason (w_sess w0), ''send_error''}"
      "out = w_out w0 \<or> (\<exists>m. out = w_out w0 @ [m] \<and> answer_frame m \<and> answer_code m = 1607)" by blast
  then show ?thesis by (intro exI [of _ st] exI [of _ s] exI [of _ out] exI [of _ n]) (simp add: w0_def)
qed

text \<open>What stays as it is: the store (but for last-seen times and the recent log), the files, both limiters, the upload slot and
  the gauges.\<close>

definition untouched :: "world \<Rightarrow> world \<Rightarrow> bool" where
  "untouched w w' \<longleftrightarrow> unseen (w_store w') = unseen (w_store w) \<and> w_fs w' = w_fs w \<and> w_limiter w' = w_limiter w \<and>
     w_conns w' = w_conns w \<and> w_closed w' = w_closed w \<and> has_upload_slot (w_sess w') = has_upload_slot (w_sess w) \<and>
     map_option gauges (w_metrics w') = map_option gauges (w_metrics w)"

text \<open>What is said: responses with one of the codes \<open>C\<close>.\<close>

definition said :: "int set \<Rightarrow> world \<Rightarrow> world \<Rightarrow> bool" where
  "said C w w' \<longleftrightarrow> (\<exists>ms. w_out w' = w_out w @ ms \<and> (\<forall>m \<in> set ms. answer_frame m \<and> answer_code m \<in> C))"

lemma said_same: "w_out w' = w_out w \<Longrightarrow> said C w w'"
  by (simp add: said_def)

lemma said_one: "w_out w' = w_out w @ [m] \<Longrightarrow> answer_frame m \<Longrightarrow> answer_code m \<in> C \<Longrightarrow> said C w w'"
  by (simp add: said_def)

lemma said_trans: "said C w v \<Longrightarrow> said C v u \<Longrightarrow> said C w u"
  unfolding said_def by fastforce

definition gate_shut :: "session \<Rightarrow> bool" where
  "gate_shut s \<longleftrightarrow> \<not> handshake_verified s \<and> xfer s = no_transfer"

definition gated :: "world \<Rightarrow> world \<Rightarrow> bool" where
  "gated w w' \<longleftrightarrow> (gate_shut (w_sess w) \<longrightarrow> gate_shut (w_sess w') \<and> untouched w w' \<and> said {1607, 1608} w w')"

interpretation gate: change_rel gated
proof
  show "gated w u" if "gated w v" "gated v u" for w v u
    using that by (auto simp: gated_def untouched_def intro: said_trans)
qed (simp add: gated_def untouched_def said_same)

lemma gauges_1607 [simp]: "map_option gauges (map_option inc_responses_1607 m) = map_option gauges m"
  by (simp add: option.map_comp o_def gauges_inc)

lemma keeps_gate_1607: "keeps gated (answer_1607 E cid version t)"
proof (rule keepsI)
  fix w r w' assume "answer_1607 E cid version t w = (r, w')"
  from answer_1607_effect [OF this] show "gated w w'"
    by (auto simp: gated_def untouched_def gate_shut_def same_core_fields intro: said_same said_one)
qed

lemma keeps_gate_1608: "keeps gated (answer_1608 E version sv sn der sig)"
proof -
  have "keeps gated (session_send E m)" if "answer_frame m" "answer_code m = 1608" for m
  proof (rule keepsI)
    fix w r w' assume "session_send E m w = (r, w')"
    from session_send_effect [OF this] that show "gated w w'"
      by (auto simp: gated_def untouched_def gate_shut_def same_core_fields intro: said_same said_one)
  qed
  then show ?thesis unfolding answer_1608_def
    by (intro gate.keeps_bnd_lift) (auto simp: res_bnd_Ok Let_def dest: message_answer_fields split: if_splits)
qed

lemma keeps_gate_sess:
  assumes "\<And>s. xfer (f s) = xfer s \<and> handshake_verified (f s) = handshake_verified s \<and> has_upload_slot (f s) = has_upload_slot s"
  shows "keeps gated (upd_sess f)"
  using assms by (simp add: keeps_def upd_sess_def gated_def untouched_def gate_shut_def said_same)

lemma keeps_gate_next: "keeps gated (next_of f)"
  by (simp add: keeps_def next_of_def gated_def untouched_def said_same)

lemma keeps_gate_reset: "keeps gated (reset_transfer_state E)"
proof (rule keepsI)
  fix w r w' assume "reset_transfer_state E w = (r, w')"
  then show "gated w w'"
    by (auto simp: gated_def gate_shut_def untouched_def reset_transfer_state_def remove_tmp_file_def
        upd_xfer_def upd_sess_def no_transfer_def said_same)
qed

lemmas gate_rules = keeps_gate_1607 keeps_gate_1608 keeps_gate_next keeps_gate_reset gate.keeps_rules

lemma keeps_gate_829: "keeps gated (request_829 E payload version cid)"
  unfolding request_829_def Let_def by (intro gate_rules keeps_gate_sess) simp_all

lemma keeps_gate_dispatch:
  assumes "code \<noteq> 830"
  shows "keeps gated (dispatch E code cid version payload)"
proof (rule keepsI)
  fix w r w' assume run: "dispatch E code cid version payload w = (r, w')"
  show "gated w w'"
  proof (cases "gate_shut (w_sess w)")
    case True
    then have shut: "\<not> handshake_verified (w_sess w)" by (simp add: gate_shut_def)
    show ?thesis
    proof (cases "code = 829")
      case True
      with shut run have "request_829 E payload version cid w = (r, w')"
        by (simp add: dispatch_def HANDSHAKE_CODES_def)
      then show ?thesis by (rule keepsD [OF keeps_gate_829])
    next
      case False
      with shut run assms have "answer_1607 E cid version (lit ''stage7 handshake required'') w = (r, w')"
        by (simp add: dispatch_def HANDSHAKE_CODES_def)
      then show ?thesis by (rule keepsD [OF keeps_gate_1607])
    qed
  qed (simp add: gated_def)
qed

lemma keeps_gate_handle_frame:
  assumes "frame_code frame \<noteq> 830"
  shows "keeps gated (handle_frame E frame)"
proof -
  have bad: "keeps gated (on_frame_bad reason)" for reason
    unfolding on_frame_bad_def by (intro keeps_gate_sess) simp
  show ?thesis
    unfolding handle_frame_def handle_frame_body_def handler_failed_def on_frame_ok_def block.simps Let_def
      frame_code_def [symmetric]
    by (intro bad keeps_gate_dispatch [OF assms] keeps_gate_sess gate_rules; simp)
qed

text \<open>Frames served one after the other on a connection.\<close>

definition serve_frames :: "env \<Rightarrow> bytes list \<Rightarrow> world \<Rightarrow> world" where
  "serve_frames E frames w = foldl (\<lambda>w frame. snd (handle_frame E frame w)) w frames"

lemma serve_frames_gated:
  "\<forall>frame \<in> set frames. frame_code frame \<noteq> 830 \<Longrightarrow> gated w (serve_frames E frames w)"
proof (induction frames arbitrary: w)
  case (Cons frame frames)
  have "gated w (snd (handle_frame E frame w))"
    using keeps_gate_handle_frame [of frame E] Cons.prems by (simp add: keeps_def)
  moreover have "gated (snd (handle_frame E frame w)) (serve_frames E (frame # frames) w)"
    using Cons by (simp add: serve_frames_def)
  ultimately show ?case by (rule gate.R_trans)
qed (simp add: serve_frames_def gate.R_refl)

text \<open>C12: nothing is served before the handshake: on a new connection, whatever frames arrive, as long as none of them is an
  acknowledgement (code 830), the store (but for the last-seen time of a client that a frame names and the log of recent events), the
  files, both limiters, the upload slot and the gauges stay exactly as they are, no transfer is started, and
  nothing is sent but refusals (1607) and server hellos (1608).\<close>

theorem nothing_before_handshake:
  assumes "session_init c uuid now key = Ok (w_sess w)"
    and "\<forall>frame \<in> set frames. frame_code frame \<noteq> 830"
  shows "untouched w (serve_frames E frames w) \<and> xfer (w_sess (serve_frames E frames w)) = no_transfer \<and>
    \<not> handshake_verified (w_sess (serve_frames E frames w)) \<and>
    (\<exists>ms. w_out (serve_frames E frames w) = w_out w @ ms \<and> (\<forall>m \<in> set ms. answer_frame m \<and> answer_code m \<in> {1607, 1608}))"
proof -
  have "gate_shut (w_sess w)"
    using session_init_fresh [OF assms(1)] by (simp add: gate_shut_def)
  with serve_frames_gated [OF assms(2), of w E] show ?thesis by (simp add: gated_def gate_shut_def said_def)
qed

theorem nothing_before_handshake_witness:
  "untouched world_example (serve_frames env_example [hello_frame] world_example) \<and>
   \<not> handshake_verified (w_sess (serve_frames env_example [hello_frame] world_example))"
  using nothing_before_handshake [of config_example "replicate 16 7" 0 0 world_example "[hello_frame]" env_example]
  by simp

section \<open>Serving a frame returns\<close>

definition returns :: "(world, unit) eff \<Rightarrow> bool" where
  "returns m \<longleftrightarrow> (\<forall>w. \<exists>w'. m w = (Ok (), w'))"

lemma returns_basic:
  "returns (ret ())" "returns (upd f)" "returns (upd_sess g)" "returns (upd_xfer h)"
  by (simp_all add: returns_def upd_sess_def upd_xfer_def)

lemma returns_rd: "(\<And>w. returns (f w)) \<Longrightarrow> returns (rd f)"
  by (simp add: returns_def)

lemma returns_bnd: "returns m \<Longrightarrow> returns n \<Longrightarrow> returns (bnd m (\<lambda>_. n))"
  unfolding returns_def bnd_def by (metis (no_types, lifting) case_prod_conv res.simps(5))

lemma returns_catch: "(\<And>e. returns (h e)) \<Longrightarrow> returns (try_except m any_exn h)"
  unfolding returns_def try_except_def by (simp split: prod.split res.split)

lemma returns_finally: "returns m \<Longrightarrow> returns f \<Longrightarrow> returns (try_finally m f)"
  unfolding returns_def try_finally_def by (metis (no_types, lifting) case_prod_conv res.simps(5))

lemma returns_if: "returns m \<Longrightarrow> returns n \<Longrightarrow> returns (if c then m else n)"
  by simp

lemma returns_reset: "returns (reset_transfer_state E)"
proof -
  have "returns (case p of None \<Rightarrow> ret () | Some q \<Rightarrow> if c q then ret () else try_except (m q) any_exn (\<lambda>_. ret ()))" for p c m
    by (cases p) (auto intro!: returns_basic returns_catch)
  then have "returns (remove_tmp_file E)" unfolding remove_tmp_file_def by (intro returns_rd)
  then show ?thesis unfolding reset_transfer_state_def block.simps by (intro returns_bnd returns_basic)
qed

lemma returns_handler_failed: "returns (handler_failed E cid version e)"
proof -
  let ?answer = "try_finally
       (try_except (answer_1607 E cid version (lit ''server error: internal handler failure'')) any_exn (\<lambda>_. ret ()))
       (rd (\<lambda>w. if upload_active (xf w) then reset_transfer_state E else ret ()))"
  have "returns ?answer"
    by (intro returns_finally returns_catch returns_rd returns_if returns_reset returns_basic)
  moreover have "handler_failed E cid version e w = ?answer (snd (on_frame_bad ''handle_frame_exception'' w))" for w
    by (simp add: handler_failed_def on_frame_bad_def upd_sess_def)
  ultimately show ?thesis by (simp add: returns_def)
qed

lemma returns_handle_frame: "returns (handle_frame E frame)"
proof -
  have "returns (try_finally
         (try_except (handle_frame_body E frame cid version) any_exn (handler_failed E cid version))
         (upd_sess (\<lambda>s. s\<lparr>request_id := Some (lit ''-'')\<rparr>)))" for cid version
    by (intro returns_finally returns_catch returns_handler_failed returns_basic)
  then show ?thesis
    by (simp add: handle_frame_def next_of_def upd_sess_def bnd_def on_frame_bad_def returns_def Let_def)
qed

text \<open>So serving a frame returns also when a response could not be sent: \<open>on_frame_bad\<close> has replaced the reason \<open>send_error\<close>
  that the test for raising the exception again looks for.\<close>

section \<open>Sending over a connection that is up\<close>

lemma session_send_ok:
  assumes "data \<noteq> []" and "has_writer (w_sess w)" and "drain_outcome E (w_tick w) = None"
  shows "session_send E data w = (Ok (), w\<lparr>w_out := w_out w @ [data], w_tick := w_tick w + 2,
    w_sess := (w_sess w)\<lparr>bytes_out := bytes_out (w_sess w) + len data, last_activity := mono E (w_tick w + 1)\<rparr>\<rparr>)"
  using assms
  by (simp add: session_send_def try_except_def writer_write_def writer_drain_def next_of_def bnd_def
      on_frame_sent_def mark_activity_def upd_sess_def)

lemma message_answer_ok:
  "length version = 1 \<Longrightarrow> 0 \<le> code \<Longrightarrow> code < 65536 \<Longrightarrow> len payload < 4294967296 \<Longrightarrow>
    message_answer version code (len payload) payload = Ok (version @ le_encode 2 code @ le_encode 4 (len payload) @ payload)"
  by (simp add: message_answer_def to_bytes_def)

end
