(* ===== verification/Connection.thy ===== *)
theory Connection
  imports Server_Loop Slot_Accounting Response_Safety Key_Binding Handshake
begin

text \<open>
  Whole connections: the invariants of serving one frame hold for everything a connection
  does, \<open>handle_client\<close> gives back what it took on every way out, refuses connections over
  the limit without serving them, and drops peers that are silent, never complete the
  handshake or send requests too fast.
\<close>

section \<open>The invariants of serving, for a connection\<close>

interpretation slots_loop: loop_rel slots_kept E for E
  by unfold_locales (simp_all add: slots_frame)

interpretation answers_loop: loop_rel "answers_since E" E for E
  by unfold_locales (simp_all add: answers_same_out hs_stable_def)

interpretation bindings_loop: loop_rel "bindings_kept E" E for E
  by unfold_locales simp_all

text \<open>
  What only admission and cleanup change: the connection limiter, its gauge and the writer.
  The upload gauge follows the upload limiter.
\<close>

definition gauged :: "world \<Rightarrow> bool" where
  "gauged w \<longleftrightarrow> (\<forall>m. w_metrics w = Some m \<longrightarrow> snd (gauges m) = active_uploads (w_limiter w))"

abbreviation conn_gauge :: "world \<Rightarrow> int option" where
  "conn_gauge w \<equiv> map_option (fst \<circ> gauges) (w_metrics w)"

definition conn_kept :: "world \<Rightarrow> world \<Rightarrow> bool" where
  "conn_kept w w' \<longleftrightarrow> w_conns w' = w_conns w \<and> w_closed w' = w_closed w \<and> conn_gauge w' = conn_gauge w \<and>
     cfg w' = cfg w \<and> connected_at (w_sess w') = connected_at (w_sess w) \<and> (gauged w \<longrightarrow> gauged w')"

lemma conn_frame:
  "w_conns w' = w_conns w \<Longrightarrow> w_closed w' = w_closed w \<Longrightarrow> w_metrics w' = w_metrics w \<Longrightarrow> cfg w' = cfg w \<Longrightarrow>
    connected_at (w_sess w') = connected_at (w_sess w) \<Longrightarrow> w_limiter w' = w_limiter w \<Longrightarrow> conn_kept w w'"
  by (simp add: conn_kept_def gauged_def)

lemma conn_trans: "conn_kept w v \<Longrightarrow> conn_kept v u \<Longrightarrow> conn_kept w u"
  by (simp add: conn_kept_def)

lemma same_core_connected: "same_core s s' \<Longrightarrow> connected_at s' = connected_at s"
  by (subst same_core_def [THEN iffD1], assumption) simp

lemma conn_metrics:
  "map_option gauges m = map_option gauges (w_metrics w) \<Longrightarrow> conn_kept w (w\<lparr>w_metrics := m\<rparr>)"
  by (cases m; cases "w_metrics w") (auto simp: conn_kept_def gauged_def)

interpretation conn: quiet_rel conn_kept E for E
  by unfold_locales (simp_all add: conn_frame conn_metrics same_core_fields same_core_connected, rule conn_trans)

interpretation conn_auth: auth_rel conn_kept E for E
  by unfold_locales (simp_all add: conn_frame conn.keeps_hand_out)

lemma keeps_conn_release: "keeps conn_kept release_upload_slot"
proof (rule keepsI)
  fix w r w' assume "release_upload_slot w = (r, w')"
  then show "conn_kept w w'"
    by (cases "w_metrics w")
      (auto simp: release_upload_slot_def upd_sess_def upd_metrics_def conn_kept_def gauged_def upload_current_active_def
        split: if_splits)
qed

lemma keeps_conn_acquire: "keeps conn_kept (acquire_upload_slot E cid version)"
proof (rule keepsI)
  fix w r w' assume run: "acquire_upload_slot E cid version w = (r, w')"
  let ?refuse = "bnd (block [upd_metrics inc_rejected_uploads,
      answer_1607 E cid version (lit ''server busy: too many concurrent uploads''), reset_transfer_state E]) (\<lambda>_. ret False)"
  have x: "keeps conn_kept (upd_xfer f)" for f by (simp add: keeps_def upd_xfer_def upd_sess_def conn_frame)
  have o: "keeps conn_kept (on_fs E op)" for op
    unfolding on_fs_def by (intro conn.quiet_rules) (simp add: keeps_def split_beta conn_frame)
  have refused: "keeps conn_kept ?refuse"
    unfolding reset_transfer_state_def remove_tmp_file_def block.simps by (intro x o conn.answer_rules)
  show "conn_kept w w'"
  proof (cases "has_upload_slot (w_sess w) \<or> active_uploads (w_limiter w) < max_concurrent_uploads (w_limiter w)")
    case True
    with run show ?thesis
      by (cases "w_metrics w")
        (auto simp: acquire_upload_slot_def upload_try_acquire_def upd_sess_def upd_metrics_def conn_kept_def gauged_def
          upload_current_active_def bnd_assoc split: if_splits)
  next
    case False
    with run have "?refuse w = (r, w')" by (simp add: acquire_upload_slot_def upload_try_acquire_def)
    then show ?thesis by (rule keepsD [OF refused])
  qed
qed

interpretation conn_serve: serving_rel conn_kept E for E
proof unfold_locales
  show "keeps conn_kept (request_826 E cid payload version)" for cid payload version
    by (rule conn_auth.keeps_request_826) (simp add: conn_frame)
  show "keeps conn_kept (request_829 E payload version cid)" for cid payload version
    by (rule conn.keeps_request_829) (simp_all add: conn_frame)
  show "keeps conn_kept (request_830 E payload version cid)" for cid payload version
    by (rule conn.keeps_request_830) (simp add: conn_frame)
qed (simp_all add: conn_frame keeps_conn_release keeps_conn_acquire)

interpretation conn_loop: loop_rel conn_kept E for E
  by unfold_locales (simp_all add: conn_frame)

section \<open>Admission and cleanup, step by step\<close>

lemma reset_run:
  "\<exists>n fs. reset_transfer_state E w =
    (Ok (), w\<lparr>w_tick := n, w_fs := fs, w_sess := (w_sess w)\<lparr>xfer := no_transfer\<rparr>\<rparr>)"
proof -
  have "\<exists>n fs. remove_tmp_file E w = (Ok (), w\<lparr>w_tick := n, w_fs := fs\<rparr>)"
  proof (cases "upload_tmp_path (xf w)")
    case None
    then show ?thesis by (intro exI [of _ "w_tick w"] exI [of _ "w_fs w"]) (simp add: remove_tmp_file_def)
  next
    case (Some q)
    show ?thesis
    proof (cases "entries (w_fs w) q = None \<or> os_fails E (w_tick w)")
      case True
      with Some show ?thesis
        by (intro exI [of _ "if entries (w_fs w) q = None then w_tick w else Suc (w_tick w)"] exI [of _ "w_fs w"])
          (auto simp: remove_tmp_file_def try_except_def on_fs_def next_of_def bnd_def)
    next
      case False
      with Some show ?thesis
        by (intro exI [of _ "Suc (w_tick w)"] exI [of _ "snd (fs_remove q (w_fs w))"])
          (auto simp: remove_tmp_file_def try_except_def on_fs_def next_of_def bnd_def split: prod.splits res.splits)
    qed
  qed
  then obtain n fs where "remove_tmp_file E w = (Ok (), w\<lparr>w_tick := n, w_fs := fs\<rparr>)" by blast
  then show ?thesis
    by (intro exI [of _ n] exI [of _ fs]) (simp add: reset_transfer_state_def bnd_def upd_xfer_def upd_sess_def)
qed

lemma accept_run:
  "accept_connection ip w = (case connection_try_acquire ip (w_conns w) of ((admitted, reason), l) \<Rightarrow>
     if admitted then (Ok True, w\<lparr>w_conns := l, w_metrics := map_option (set_active_connections (active_total l)) (w_metrics w)\<rparr>)
     else (Ok False, w\<lparr>w_conns := l, w_metrics := map_option inc_rejected_connections (w_metrics w),
       w_sess := (w_sess w)\<lparr>disconnect_reason := ''connection_rejected''\<rparr>\<rparr>))"
  by (auto simp: accept_connection_def upd_metrics_def set_reason_def upd_sess_def connection_current_active_def
      bnd_assoc split: prod.splits)

text \<open>Everything the cleanup does, in one assignment; \<open>n\<close> and \<open>fs\<close> depend on the temporary file.\<close>

definition cleaned :: "pystr \<Rightarrow> bool \<Rightarrow> nat \<Rightarrow> filesystem \<Rightarrow> world \<Rightarrow> world" where
  "cleaned ip acquired n fs w =
     (let l = (if acquired then connection_release ip (w_conns w) else w_conns w);
          u = (if has_upload_slot (w_sess w) then upload_release (w_limiter w) else w_limiter w);
          g = (if has_upload_slot (w_sess w) then set_active_uploads (active_uploads u) else id) in
      w\<lparr>w_tick := n, w_fs := fs, w_conns := l, w_limiter := u, w_closed := True,
        w_metrics := map_option ((if acquired then set_active_connections (active_total l) else id) \<circ> g) (w_metrics w),
        w_sess := (w_sess w)\<lparr>xfer := (if upload_active (xf w) then no_transfer else xf w), has_upload_slot := False\<rparr>\<rparr>)"

lemma cleanup_run: "\<exists>n fs. cleanup E ip acquired w = (Ok (), cleaned ip acquired n fs w)"
proof -
  obtain n fs where r: "reset_transfer_state E w = (Ok (), w\<lparr>w_tick := n, w_fs := fs, w_sess := (w_sess w)\<lparr>xfer := no_transfer\<rparr>\<rparr>)"
    using reset_run by blast
  have flag: "(w_sess w)\<lparr>xfer := x, has_upload_slot := False\<rparr> = (w_sess w)\<lparr>xfer := x\<rparr>" if "\<not> has_upload_slot (w_sess w)" for x
    using that by (cases "w_sess w") simp
  have same: "w\<lparr>w_tick := t, w_fs := f, w_closed := True, w_metrics := w_metrics w, w_sess := s\<rparr>
      = w\<lparr>w_tick := t, w_fs := f, w_closed := True, w_sess := s\<rparr>" for t f s
    by (cases w) simp
  note defs = cleanup_def cleaned_def Let_def next_of_def release_upload_slot_def upd_sess_def upd_metrics_def
    upload_current_active_def connection_current_active_def bnd_assoc option.map_comp
  show ?thesis
  proof (cases "upload_active (xf w)")
    case True
    have "cleanup E ip acquired w = (Ok (), cleaned ip acquired (Suc n) fs w)"
      using True r by (cases acquired; cases "has_upload_slot (w_sess w)") (simp_all add: defs bnd_def o_def flag same option.map_id)
    then show ?thesis by blast
  next
    case False
    have "cleanup E ip acquired w = (Ok (), cleaned ip acquired (Suc (w_tick w)) (w_fs w) w)"
      using False by (cases acquired; cases "has_upload_slot (w_sess w)") (simp_all add: defs bnd_def o_def flag same option.map_id)
    then show ?thesis by blast
  qed
qed

lemma cleanup_no_raise [simp]: "cleanup E ip acquired w \<noteq> (Raise e, v)"
  using cleanup_run [of E ip acquired w] by auto

lemma loop_guard_returns: "\<exists>c w'. loop_guard m w = (Ok c, w')"
  by (cases "m w"; cases "fst (m w)")
    (auto simp: loop_guard_def leave_with_def set_reason_def upd_sess_def try_except_def bnd_def)

lemma guarded_loop_keeps:
  assumes "loop_guard (client_loop E evs) w = (r, w')"
  shows "slots_kept w w'" "conn_kept w w'" "answers_since E w w'" "bindings_kept E w w'"
  using assms
  by (auto intro: keepsD [OF slots_loop.keeps_loop_guard [OF slots_loop.keeps_client_loop]]
      keepsD [OF conn_loop.keeps_loop_guard [OF conn_loop.keeps_client_loop]]
      keepsD [OF answers_loop.keeps_loop_guard [OF answers_loop.keeps_client_loop]]
      keepsD [OF bindings_loop.keeps_loop_guard [OF bindings_loop.keeps_client_loop]])

text \<open>The three ways of \<open>handle_client\<close>: refused, over, still open.\<close>

lemma handle_client_cases:
  assumes "handle_client E ip evs w = (r, w')"
  obtains (refused) w1 n fs where "accept_connection ip w = (Ok False, w1)" "r = Ok Leave" "w' = cleaned ip False n fs w1"
  | (over) w1 w2 c n fs where "accept_connection ip w = (Ok True, w1)" "loop_guard (client_loop E evs) w1 = (Ok c, w2)"
      "c \<noteq> Go" "r = Ok c" "w' = cleaned ip True n fs w2"
  | (still_open) w1 where "accept_connection ip w = (Ok True, w1)" "loop_guard (client_loop E evs) w1 = (Ok Go, w')" "r = Ok Go"
proof -
  have "\<exists>a w1. accept_connection ip w = (Ok a, w1)" unfolding accept_run by (simp split: prod.split) blast
  then obtain a w1 where a: "accept_connection ip w = (Ok a, w1)" by blast
  obtain c w2 where l: "loop_guard (client_loop E evs) w1 = (Ok c, w2)" using loop_guard_returns by blast
  obtain n fs where f: "cleanup E ip False w1 = (Ok (), cleaned ip False n fs w1)" using cleanup_run by blast
  obtain n' fs' where t: "cleanup E ip True w2 = (Ok (), cleaned ip True n' fs' w2)" using cleanup_run by blast
  show thesis
  proof (cases a)
    case False
    then have "r = Ok Leave" "w' = cleaned ip False n fs w1" using assms a f by (simp_all add: handle_client_def bnd_def)
    then show thesis using refused [of w1 n fs] a False by simp
  next
    case True
    then have h: "handle_client E ip evs w = (if c = Go then (Ok Go, w2) else (Ok c, cleaned ip True n' fs' w2))"
      using a l t by (simp add: handle_client_def bnd_def)
    show thesis
    proof (cases "c = Go")
      case True
      then show thesis using still_open a l h assms \<open>a\<close> by simp
    next
      case False
      then show thesis using over a l h assms \<open>a\<close> by simp
    qed
  qed
qed

section \<open>Properties\<close>

text \<open>C13: a connection gives back what it took: however the connection of a client ends (end of stream,
  a timeout, an exception, a cancellation, too many requests, or being refused at once), the
  handler returns, the connection limiter is as it was before, the upload counter is what it
  was, no upload is in progress any more and the writer is closed.\<close>

theorem connection_gives_back:
  assumes "handle_client E ip evs w = (r, w')" and "r \<noteq> Ok Go"
    and "connection_ok m p (w_conns w)" and "slots_ok w" and "\<not> has_upload_slot (w_sess w)"
  shows "is_Ok r \<and> w_conns w' = w_conns w \<and> active_uploads (w_limiter w') = active_uploads (w_limiter w) \<and>
    \<not> has_upload_slot (w_sess w') \<and> \<not> upload_active (xf w') \<and> w_closed w'"
proof -
  have cl: "\<not> has_upload_slot (w_sess (cleaned ip a n fs v))" "\<not> upload_active (xf (cleaned ip a n fs v))"
      "w_closed (cleaned ip a n fs v)" for a n fs v
    by (simp_all add: cleaned_def Let_def no_transfer_def)
  show ?thesis using assms(1)
  proof (cases rule: handle_client_cases)
    case (refused w1 n fs)
    then show ?thesis using assms(5) cl
      by (auto simp: accept_run cleaned_def Let_def connection_try_acquire_def split: if_splits)
  next
    case (over w1 w2 c n fs)
    note k = guarded_loop_keeps [OF over(2)]
    have w1: "w_conns w1 = snd (connection_acquire ip (w_conns w))" "fst (connection_acquire ip (w_conns w))"
        "w_limiter w1 = w_limiter w" "w_sess w1 = w_sess w"
      using over(1) by (auto simp: accept_run split: prod.splits if_splits)
    have "connection_release ip (w_conns w1) = w_conns w"
      using conn_acquire_release [OF assms(3)] w1(1,2) by simp
    then have "w_conns w' = w_conns w" using over(5) k(2) by (simp add: cleaned_def Let_def conn_kept_def)
    moreover have "slots_ok w1" "others w1 = others w" using assms(4) w1(3,4) by (simp_all add: slots_ok_def others_def)
    then have "slots_ok w2" "others w2 = active_uploads (w_limiter w)"
      using k(1) assms(5) by (simp_all add: slots_kept_def others_def)
    then have "active_uploads (w_limiter w') = active_uploads (w_limiter w)"
      unfolding over(5) by (auto simp: cleaned_def Let_def slots_ok_def others_def upload_release_def split: if_splits)
    ultimately show ?thesis using over(4,5) cl by simp
  qed (use assms(2) in simp)
qed

theorem connection_gives_back_witness:
  "w_conns (snd (handle_client env_example [9] [Chunk []] world_example)) = w_conns world_example"
proof -
  have "fst (handle_client env_example [9] [Chunk []] world_example) = Ok Leave"
    by (auto simp: handle_client_def accept_run connection_try_acquire_def dict_get_def bnd_def loop_guard_def leave_with_def
        set_reason_def upd_sess_def try_except_def loop_iteration_def loop_head_def next_of_def chunk_read_def
        config_example_def Config_new_def split: prod.splits res.splits)
  then show ?thesis
    using connection_gives_back [OF surjective_pairing, of env_example "[9]" "[Chunk []]" world_example 10 10]
    by (simp add: connection_ok_def slots_ok_def others_def)
qed

text \<open>C32: a refused connection is not served: when the server is full, or the peer's address has all its connections, then
  whatever the peer sends the handler leaves at once and the only changes are these: the refusal is counted, the session notes the reason, the
  writer is closed (and the clock has been read once). Nothing is sent, and store, files, both limiters, the gauges and
  the transfer state are what they were.\<close>

theorem connection_refused:
  assumes "handle_client E ip evs w = (r, w')" and "session_init c uuid now key = Ok (w_sess w)"
    and "max_connections (w_conns w) \<le> active_total (w_conns w) \<or>
      max_connections_per_ip (w_conns w) \<le> dict_get (active_by_ip (w_conns w)) ip 0"
  shows "r = Ok Leave \<and> w' = w\<lparr>w_metrics := map_option inc_rejected_connections (w_metrics w),
    w_sess := (w_sess w)\<lparr>disconnect_reason := ''connection_rejected''\<rparr>, w_closed := True, w_tick := Suc (w_tick w)\<rparr>"
proof -
  have fresh: "\<not> has_upload_slot (w_sess w)" "\<not> upload_active (xf w)"
    using session_init_fresh [OF assms(2)] by (simp_all add: no_transfer_def)
  define w1 where "w1 = w\<lparr>w_metrics := map_option inc_rejected_connections (w_metrics w),
       w_sess := (w_sess w)\<lparr>disconnect_reason := ''connection_rejected''\<rparr>\<rparr>"
  have "w\<lparr>w_conns := w_conns w\<rparr> = w" by simp
  then have "accept_connection ip w = (Ok False, w1)"
    using assms(3) by (auto simp: accept_run connection_try_acquire_def w1_def)
  moreover have "cleanup E ip False w1 = (Ok (), w1\<lparr>w_tick := Suc (w_tick w1), w_closed := True\<rparr>)"
    using fresh by (simp add: cleanup_def w1_def next_of_def bnd_def)
  ultimately show ?thesis using assms(1) by (auto simp: handle_client_def bnd_def w1_def)
qed

theorem connection_refused_witness:
  "\<exists>w'. handle_client env_example [9] [Chunk [1]] (world_example\<lparr>w_conns := \<lparr>max_connections = 1, max_connections_per_ip = 1,
     active_total = 1, active_by_ip = [[8] \<mapsto> 1]\<rparr>\<rparr>) = (Ok Leave, w') \<and>
     w_out w' = [] \<and> w_fs w' = w_fs world_example"
  using connection_refused [OF surjective_pairing, where E = env_example and ip = "[9]" and evs = "[Chunk [1]]" and c = config_example
      and uuid = "replicate 16 7" and now = 0 and key = 0 and w = "world_example\<lparr>w_conns := \<lparr>max_connections = 1,
      max_connections_per_ip = 1, active_total = 1, active_by_ip = [[8] \<mapsto> 1]\<rparr>\<rparr>"]
  by (intro exI) (auto simp: prod_eq_iff)

text \<open>Everything a connection is ever sent: over the whole life of a connection every message is a
  well-formed response, and an AES key only leaves in a response signed for the handshake
  this connection completed.\<close>

lemma connection_answers_signed:
  assumes "handle_client E ip evs w = (r, w')" and "w_out w = []"
  shows "\<forall>m \<in> set (w_out w'). answer_frame m \<and> (plain_answer m \<or> bound_aes_answer E (w_sess w') m)"
proof -
  have cl: "answers_since E v (cleaned ip a n fs v)" for a n fs v
    by (rule answers_same_out) (simp_all add: cleaned_def Let_def hs_stable_def)
  have ac: "answers_since E w w1" if "accept_connection ip w = (b, w1)" for b w1
    by (rule answers_same_out) (use that in \<open>auto simp: accept_run hs_stable_def split: prod.splits if_splits\<close>)
  have "answers_since E w w'" using assms(1)
  proof (cases rule: handle_client_cases)
    case (refused w1 n fs)
    then show ?thesis using ac cl answers_since_trans by blast
  next
    case (over w1 w2 c n fs)
    then show ?thesis using ac [OF over(1)] guarded_loop_keeps(3) [OF over(2)] cl answers_since_trans by blast
  next
    case (still_open w1)
    then show ?thesis using ac [OF still_open(1)] guarded_loop_keeps(3) [OF still_open(2)] answers_since_trans by blast
  qed
  then show ?thesis using assms(2) by (auto simp: answers_since_def plain_answer_def bound_aes_answer_def)
qed

section \<open>Time\<close>

text \<open>When a session that receives nothing is given up.\<close>

definition give_up_at :: "world \<Rightarrow> real" where
  "give_up_at w = (if upload_active (xf w) then last_progress (w_sess w) + upload_inactivity_timeout_s (cfg w)
     else last_activity (w_sess w) + idle_timeout_s (cfg w))"

lemma upload_timed_out_leaves: "\<exists>w'. upload_timed_out E w = (Ok Leave, w')"
proof -
  let ?v = "w\<lparr>w_sess := (w_sess w)\<lparr>disconnect_reason := ''upload_timeout''\<rparr>\<rparr>"
  let ?answer = "case (last_client_id (w_sess ?v), last_version (w_sess ?v)) of
      (Some cid, Some version) \<Rightarrow> try_except (answer_1607 E cid version (lit ''upload inactivity timeout'')) any_exn (\<lambda>_. ret ())
    | _ \<Rightarrow> ret ()"
  have "returns ?answer" by (auto simp: returns_basic split: option.split intro: returns_catch)
  then obtain v' where "?answer ?v = (Ok (), v')" by (meson returns_def)
  moreover obtain w' where "reset_transfer_state E v' = (Ok (), w')" using reset_run by blast
  ultimately have "upload_timed_out E w = (Ok Leave, w')"
    unfolding upload_timed_out_def set_reason_def upd_sess_def bnd_simps rd_apply by (simp add: bnd_def)
  then show ?thesis ..
qed

lemma silent_iteration:
  "loop_iteration E ReadTimeout w = (Ok Go, w\<lparr>w_tick := Suc (Suc (w_tick w))\<rparr>) \<and> mono E (Suc (w_tick w)) < give_up_at w \<or>
   (\<exists>w'. loop_iteration E ReadTimeout w = (Ok Leave, w'))"
proof (cases "\<not> handshake_verified (w_sess w) \<and> mono E (w_tick w) - connected_at (w_sess w) \<ge> handshake_timeout_s (cfg w)")
  case True
  then show ?thesis by (simp add: loop_iteration_def loop_head_def next_of_def bnd_def set_reason_def upd_sess_def)
next
  case False
  then have h: "loop_iteration E ReadTimeout w = read_timed_out E (w\<lparr>w_tick := Suc (w_tick w)\<rparr>)"
    by (auto simp: loop_iteration_def loop_head_def next_of_def bnd_def)
  show ?thesis
    unfolding h using upload_timed_out_leaves [of E]
    by (auto simp: read_timed_out_def next_of_def bnd_def leave_with_def set_reason_def upd_sess_def give_up_at_def)
qed

lemma silence_ends:
  assumes clock: "\<And>i j. i \<le> j \<Longrightarrow> mono E i \<le> mono E j"
  shows "0 < N \<Longrightarrow> give_up_at w \<le> mono E (w_tick w) + real N * d \<Longrightarrow>
    \<forall>k. mono E (w_tick w + 2 * k) + d \<le> mono E (Suc (w_tick w + 2 * k)) \<Longrightarrow>
    \<exists>w'. client_loop E (replicate N ReadTimeout) w = (Ok Leave, w')"
proof (induction N arbitrary: w)
  case (Suc n)
  let ?v = "w\<lparr>w_tick := Suc (Suc (w_tick w))\<rparr>"
  have first: "mono E (w_tick w) + d \<le> mono E (Suc (w_tick w))" using Suc.prems(3) [THEN spec, of 0] by simp
  show ?case
  proof (cases "\<exists>w'. loop_iteration E ReadTimeout w = (Ok Leave, w')")
    case True
    then show ?thesis by (auto simp: bnd_def)
  next
    case False
    then have go: "loop_iteration E ReadTimeout w = (Ok Go, ?v)" and early: "mono E (Suc (w_tick w)) < give_up_at w"
      using silent_iteration [of E w] by blast+
    have "n \<noteq> 0" using Suc.prems(2) first early by (cases n) auto
    moreover have "give_up_at ?v = give_up_at w" by (simp add: give_up_at_def)
    then have "give_up_at ?v \<le> mono E (w_tick ?v) + real n * d"
      using Suc.prems(2) first clock [of "Suc (w_tick w)" "Suc (Suc (w_tick w))"] by (simp add: algebra_simps)
    moreover have "\<forall>k. mono E (w_tick ?v + 2 * k) + d \<le> mono E (Suc (w_tick ?v + 2 * k))"
      using Suc.prems(3) [THEN spec, of "Suc k" for k] by simp
    ultimately obtain w' where "client_loop E (replicate n ReadTimeout) ?v = (Ok Leave, w')" using Suc.IH by blast
    then show ?thesis using go by (simp add: bnd_def)
  qed
qed simp

text \<open>C16: a silent peer is dropped: when the clock does not go back and every read that times out takes
  its timeout, a connection on which nothing arrives is left by the loop after at most as
  many reads as make up the idle timeout (or, in an upload, the inactivity timeout).\<close>

theorem silent_peer_dropped:
  assumes "\<And>i j. i \<le> j \<Longrightarrow> mono E i \<le> mono E j"
    and "\<And>k. mono E (w_tick w + 2 * k) + read_timeout_s (cfg w) \<le> mono E (Suc (w_tick w + 2 * k))"
    and "last_activity (w_sess w) \<le> mono E (w_tick w)" and "last_progress (w_sess w) \<le> mono E (w_tick w)"
    and "0 < N" and "idle_timeout_s (cfg w) \<le> real N * read_timeout_s (cfg w)"
    and "upload_inactivity_timeout_s (cfg w) \<le> real N * read_timeout_s (cfg w)"
  shows "\<exists>w'. client_loop E (replicate N ReadTimeout) w = (Ok Leave, w')"
proof (rule silence_ends [OF assms(1) assms(5)])
  show "give_up_at w \<le> mono E (w_tick w) + real N * read_timeout_s (cfg w)"
    using assms(3,4,6,7) by (auto simp: give_up_at_def)
qed (use assms(2) in auto)

theorem silent_peer_dropped_witness:
  "\<exists>w'. client_loop (env_example\<lparr>mono := \<lambda>n. 10 * real n\<rparr>) (replicate 6 ReadTimeout)
     (world_example\<lparr>w_sess := session_example\<lparr>handshake_verified := True\<rparr>\<rparr>) = (Ok Leave, w')"
  using silent_peer_dropped [of "env_example\<lparr>mono := \<lambda>n. 10 * real n\<rparr>" "world_example\<lparr>w_sess := session_example\<lparr>handshake_verified := True\<rparr>\<rparr>" 6]
  by (simp add: config_example_def Config_new_def last_progress_def no_transfer_def)

text \<open>C31: the handshake has a deadline: from \<open>handshake_timeout_s\<close> seconds after the connection on, an
  iteration that finds the handshake incomplete leaves the loop without looking at what has
  arrived, so nothing is served and nothing is sent.\<close>

theorem handshake_deadline:
  assumes "\<not> handshake_verified (w_sess w)" and "handshake_timeout_s (cfg w) \<le> mono E (w_tick w) - connected_at (w_sess w)"
  shows "\<exists>w'. loop_guard (client_loop E (ev # evs)) w = (Ok Leave, w') \<and> w_out w' = w_out w \<and> w_store w' = w_store w \<and>
    disconnect_reason (w_sess w') = ''handshake_timeout''"
  using assms by (simp add: loop_guard_def try_except_def loop_iteration_def loop_head_def next_of_def bnd_def set_reason_def upd_sess_def)

theorem handshake_deadline_witness:
  "\<exists>w'. loop_guard (client_loop env_example [Chunk [1]]) (world_example\<lparr>w_tick := 5\<rparr>) = (Ok Leave, w') \<and> w_out w' = []"
  using handshake_deadline [of "world_example\<lparr>w_tick := 5\<rparr>" env_example "Chunk [1]" "[]"]
  by (auto simp: config_example_def Config_new_def)





end
