(* ===== verification/Executor.thy ===== *)
theory Executor
  imports Prelude
begin

text \<open>
  \<open>server/src/bounded_executor.py\<close>: a semaphore in front of a thread pool. The state is the
  semaphore of \<open>asyncio\<close> (its counter, its waiters in order) and the calls handed to the
  pool; \<open>run\<close> is cut at its await points: a call arrives at \<open>async with self._semaphore\<close>
  and either enters or waits, and a call that leaves, by returning or by raising, lets the
  longest waiting one in.
\<close>

record bounded_executor =
  max_workers :: int
  semaphore_value :: int
  semaphore_waiters :: "nat list"
  in_executor :: "nat list"

definition bounded_executor_init :: "int \<Rightarrow> int \<Rightarrow> bounded_executor res" where
  "bounded_executor_init workers max_in_flight =
     (if workers \<le> 0 then Raise ValueError
      else if max_in_flight \<le> 0 then Raise ValueError
      else if max_in_flight < workers then Raise ValueError
      else Ok \<lparr>max_workers = workers, semaphore_value = max_in_flight, semaphore_waiters = [], in_executor = []\<rparr>)"

definition run_enter :: "nat \<Rightarrow> bounded_executor \<Rightarrow> bounded_executor" where
  "run_enter call x =
     (if semaphore_value x > 0 \<and> semaphore_waiters x = []
      then x\<lparr>semaphore_value := semaphore_value x - 1, in_executor := in_executor x @ [call]\<rparr>
      else x\<lparr>semaphore_waiters := semaphore_waiters x @ [call]\<rparr>)"

definition run_leave :: "nat \<Rightarrow> bounded_executor \<Rightarrow> bounded_executor" where
  "run_leave call x =
     (if call \<notin> set (in_executor x) then x
      else let running = remove1 call (in_executor x) in
        case semaphore_waiters x of
          [] \<Rightarrow> x\<lparr>semaphore_value := semaphore_value x + 1, in_executor := running\<rparr>
        | w # ws \<Rightarrow> x\<lparr>semaphore_waiters := ws, in_executor := running @ [w]\<rparr>)"

datatype executor_event = RunCalled nat | RunLeft nat

fun executor_step :: "bounded_executor \<Rightarrow> executor_event \<Rightarrow> bounded_executor" where
  "executor_step x (RunCalled c) = run_enter c x"
| "executor_step x (RunLeft c) = run_leave c x"

text \<open>The invariant: permits and calls in the pool add up; a call waits only when no permit is left.\<close>

definition executor_inv :: "int \<Rightarrow> bounded_executor \<Rightarrow> bool" where
  "executor_inv n x \<longleftrightarrow> 0 \<le> semaphore_value x \<and> semaphore_value x + len (in_executor x) = n \<and>
     (semaphore_waiters x \<noteq> [] \<longrightarrow> semaphore_value x = 0)"

lemma executor_inv_step: "executor_inv n x \<Longrightarrow> executor_inv n (executor_step x e)"
proof (cases e)
  case (RunCalled c)
  moreover assume "executor_inv n x"
  ultimately show ?thesis by (auto simp: executor_inv_def run_enter_def)
next
  case (RunLeft c)
  moreover assume "executor_inv n x"
  moreover have "c \<in> set (in_executor x) \<Longrightarrow> len (remove1 c (in_executor x)) = len (in_executor x) - 1"
    using length_pos_if_in_set [of c "in_executor x"] by (simp add: length_remove1 of_nat_diff Suc_le_eq del: length_greater_0_conv)
  ultimately show ?thesis by (auto simp: executor_inv_def run_leave_def Let_def split: list.splits)
qed

lemma executor_inv_run: "executor_inv n x \<Longrightarrow> executor_inv n (foldl executor_step x es)"
  by (induction es arbitrary: x) (simp_all add: executor_inv_step)

text \<open>The executor's bound: whatever calls come and leave, never more than \<open>max_in_flight\<close> calls are with the
  pool; and a call waits only while the pool has its full number of calls.\<close>

lemma executor_bounded:
  assumes "bounded_executor_init workers max_in_flight = Ok x0" and "foldl executor_step x0 es = x"
  shows "len (in_executor x) \<le> max_in_flight \<and> (semaphore_waiters x \<noteq> [] \<longrightarrow> len (in_executor x) = max_in_flight)"
proof -
  have "executor_inv max_in_flight x0"
    using assms(1) by (auto simp: bounded_executor_init_def executor_inv_def split: if_splits)
  then have "executor_inv max_in_flight x" using assms(2) executor_inv_run by blast
  then show ?thesis by (auto simp: executor_inv_def)
qed


end
