(* ===== verification/Identity_File.thy ===== *)
theory Identity_File
  imports Identity Session
begin

text \<open>
  The server's long-term identity (\<open>load_or_create_server_identity\<close> of
  \<open>server/src/server_identity.py\<close>): the private key is read from its file, or generated and
  written there, and the file is made readable for its owner only. PyCryptodome's key
  generation and PEM export are arguments; the paths are relative to the working directory.
\<close>

record key_disk =
  kd_fs :: filesystem
  kd_modes :: "pystr \<rightharpoonup> nat"
  kd_tick :: nat

type_synonym 'a key_act = "(key_disk, 'a) eff"

definition os_call :: "env \<Rightarrow> (key_disk \<Rightarrow> 'a res \<times> key_disk) \<Rightarrow> 'a key_act" where
  "os_call E op = (\<lambda>k. if os_fails E (kd_tick k) then (Raise OSError, k\<lparr>kd_tick := Suc (kd_tick k)\<rparr>)
     else op (k\<lparr>kd_tick := Suc (kd_tick k)\<rparr>))"

definition PRIVATE_KEY_MODE :: nat where "PRIVATE_KEY_MODE = 384"

definition set_owner_only_permissions :: "env \<Rightarrow> pystr \<Rightarrow> unit key_act" where
  "set_owner_only_permissions E path = os_call E (\<lambda>k. (Ok (), k\<lparr>kd_modes := (kd_modes k)(path \<mapsto> PRIVATE_KEY_MODE)\<rparr>))"

definition read_key_file :: "env \<Rightarrow> pystr \<Rightarrow> bytes key_act" where
  "read_key_file E path = os_call E (\<lambda>k. case file_at (kd_fs k) path of Some data \<Rightarrow> (Ok data, k) | None \<Rightarrow> (Raise OSError, k))"

text \<open>\<open>open(path, "wb")\<close> gives a new file the mode the process creates files with.\<close>

definition open_key_file :: "env \<Rightarrow> nat \<Rightarrow> pystr \<Rightarrow> nat key_act" where
  "open_key_file E mode path = os_call E (\<lambda>k. case fs_open_wb path (kd_fs k) of
      (Ok i, fs) \<Rightarrow> (Ok i, k\<lparr>kd_fs := fs, kd_modes := (kd_modes k)(path \<mapsto> mode)\<rparr>)
    | (Raise e, fs) \<Rightarrow> (Raise e, k\<lparr>kd_fs := fs\<rparr>))"

definition key_directory :: "pystr \<Rightarrow> pystr" where
  "key_directory path = path_parent (path_normpath path)"

definition make_key_directory :: "env \<Rightarrow> pystr \<Rightarrow> unit key_act" where
  "make_key_directory E path = os_call E (\<lambda>k. if key_directory path = [] then (Ok (), k)
     else (case fs_makedirs (key_directory path) (kd_fs k) of (r, fs) \<Rightarrow> (r, k\<lparr>kd_fs := fs\<rparr>)))"

definition load_or_create_server_identity ::
  "env \<Rightarrow> rsa_key \<Rightarrow> (rsa_key \<Rightarrow> bytes) \<Rightarrow> nat \<Rightarrow> pystr \<Rightarrow> rsa_key key_act" where
  "load_or_create_server_identity E generated export_pem mode path = rd (\<lambda>k.
     if entries (kd_fs k) path \<noteq> None then
       bnd (set_owner_only_permissions E path) (\<lambda>_.
       bnd (read_key_file E path) (\<lambda>key_data.
       case rsa_import E key_data of Some key \<Rightarrow> ret key | None \<Rightarrow> throw RuntimeError))
     else
       bnd (make_key_directory E path) (\<lambda>_.
       bnd (open_key_file E mode path) (\<lambda>i.
       bnd (os_call E (\<lambda>k. (Ok (), k\<lparr>kd_fs := fs_write i (export_pem generated) (kd_fs k)\<rparr>))) (\<lambda>_.
       bnd (set_owner_only_permissions E path) (\<lambda>_. ret generated)))))"

section \<open>Properties\<close>

lemma mkdirs_inodes: "mkdirs ps fs = (r, fs') \<Longrightarrow> inodes fs' = inodes fs"
  by (induction ps fs arbitrary: r fs' rule: mkdirs.induct) (auto split: option.splits fnode.splits)

lemma open_new_file:
  "fs_open_wb p fs = (Ok i, fs') \<Longrightarrow> entries fs' p = Some (FFile i) \<and> inodes fs' i = []"
  by (auto simp: fs_open_wb_def split: option.splits fnode.splits if_splits)

lemma os_call_ok:
  assumes "os_call E op k = (Ok x, k')"
  shows "op (k\<lparr>kd_tick := Suc (kd_tick k)\<rparr>) = (Ok x, k')"
  using assms by (auto simp: os_call_def split: if_splits)

lemma bnd_is_Ok: "bnd m f s = (Ok x, t) \<longleftrightarrow> (\<exists>y s'. m s = (Ok y, s') \<and> f y s' = (Ok x, t))"
  by (auto simp: bnd_def split: prod.splits res.splits)

text \<open>The two ways to a key: it was read from the file, or it was generated and written there.\<close>

lemma identity_cases:
  assumes "load_or_create_server_identity E gen pem mode path k = (Ok key, k')"
  obtains (loaded) data where "entries (kd_fs k) path \<noteq> None" "file_at (kd_fs k) path = Some data" "rsa_import E data = Some key"
      "kd_fs k' = kd_fs k" "kd_modes k' path = Some PRIVATE_KEY_MODE"
  | (created) "entries (kd_fs k) path = None" "key = gen" "file_at (kd_fs k') path = Some (pem gen)"
      "kd_modes k' path = Some PRIVATE_KEY_MODE"
proof (cases "entries (kd_fs k) path = None")
  case False
  with assms obtain data where "rsa_import E data = Some key" "file_at (kd_fs k) path = Some data"
      "k' = k\<lparr>kd_modes := (kd_modes k)(path \<mapsto> PRIVATE_KEY_MODE), kd_tick := Suc (Suc (kd_tick k))\<rparr>"
    by (auto simp: load_or_create_server_identity_def set_owner_only_permissions_def read_key_file_def
        dest!: os_call_ok elim!: bnd_cases split: option.splits)
  then show thesis using False loaded by simp
next
  case True
  from assms True obtain k1 k2 k3 i where
      "make_key_directory E path k = (Ok (), k1)" "open_key_file E mode path k1 = (Ok i, k2)"
      and wr: "os_call E (\<lambda>k. (Ok (), k\<lparr>kd_fs := fs_write i (pem gen) (kd_fs k)\<rparr>)) k2 = (Ok (), k3)"
      and ch: "set_owner_only_permissions E path k3 = (Ok (), k')" and "key = gen"
    by (auto simp: load_or_create_server_identity_def bnd_is_Ok)
  then have "entries (kd_fs k2) path = Some (FFile i)" "inodes (kd_fs k2) i = []"
    by (auto simp: open_key_file_def dest!: os_call_ok open_new_file split: prod.splits res.splits)
  moreover have "kd_fs k' = fs_write i (pem gen) (kd_fs k2)" "kd_modes k' path = Some PRIVATE_KEY_MODE"
    using os_call_ok [OF wr] os_call_ok [OF ch [unfolded set_owner_only_permissions_def]] by auto
  ultimately show thesis using created True \<open>key = gen\<close> by (simp add: file_at_def fs_write_def)
qed

text \<open>A disk without a key, for concrete runs.\<close>

definition key_disk_example :: key_disk where
  "key_disk_example = \<lparr>kd_fs = \<lparr>entries = Map.empty, inodes = (\<lambda>_. []), next_inode = 0\<rparr>, kd_modes = Map.empty, kd_tick = 0\<rparr>"

text \<open>C35: the server's identity survives a restart: when importing an exported key gives that key back, a
  start that got an identity leaves it in its file, readable for its owner only, and every
  later start that gets one gets the same key and leaves the file alone.\<close>

theorem identity_stable:
  assumes "load_or_create_server_identity E gen pem mode path k = (Ok key, k')" and "rsa_import E (pem gen) = Some gen"
    and "load_or_create_server_identity E gen' pem mode' path (k'\<lparr>kd_tick := n\<rparr>) = (Ok key', k'')"
  shows "key' = key \<and> kd_fs k'' = kd_fs k' \<and> kd_modes k' path = Some PRIVATE_KEY_MODE \<and> kd_modes k'' path = Some PRIVATE_KEY_MODE"
proof -
  have 1: "(\<exists>data. file_at (kd_fs k') path = Some data \<and> rsa_import E data = Some key) \<and> kd_modes k' path = Some PRIVATE_KEY_MODE"
    using assms(1) by (cases rule: identity_cases) (use assms(2) in auto)
  then have "entries (kd_fs k') path \<noteq> None" by (auto simp: file_at_def split: option.splits)
  with assms(3) 1 show ?thesis by (cases rule: identity_cases) auto
qed

theorem identity_stable_witness:
  "\<exists>k' k''. load_or_create_server_identity env_example 0 (\<lambda>_. [1]) 420 [107] key_disk_example = (Ok 0, k') \<and>
     load_or_create_server_identity env_example 5 (\<lambda>_. [1]) 420 [107] (k'\<lparr>kd_tick := 0\<rparr>) = (Ok 0, k'') \<and>
     kd_modes k'' [107] = Some PRIVATE_KEY_MODE"
proof -
  have dir: "key_directory [107] = []"
    by (simp add: key_directory_def path_normpath_def initial_slashes_def path_parent_def DOT_def DOTDOT_def)
  note defs = load_or_create_server_identity_def set_owner_only_permissions_def read_key_file_def os_call_def
    make_key_directory_def open_key_file_def fs_open_wb_def parent_is_dir_def path_parent_def fs_write_def file_at_def bnd_def
  obtain k' where k': "load_or_create_server_identity env_example 0 (\<lambda>_. [1]) 420 [107] key_disk_example = (Ok 0, k')"
      "entries (kd_fs k') [107] = Some (FFile 0)"
    by (simp add: defs dir key_disk_example_def)
  obtain key k'' where k'': "load_or_create_server_identity env_example 5 (\<lambda>_. [1]) 420 [107] (k'\<lparr>kd_tick := 0\<rparr>) = (Ok key, k'')"
    using k'(2) by (simp add: defs)
  from identity_stable [OF k'(1) _ k''] k' k'' show ?thesis by auto
qed

text \<open>C36: a damaged key file stops the server: when the file exists and does not hold a key, the start raises
  \<open>RuntimeError\<close> (or \<open>OSError\<close> when the file cannot be read) and the file is not overwritten.\<close>

theorem damaged_identity_refused:
  assumes "file_at (kd_fs k) path = Some data" and "rsa_import E data = None"
    and "load_or_create_server_identity E gen pem mode path k = (r, k')"
  shows "r \<in> {Raise RuntimeError, Raise OSError} \<and> kd_fs k' = kd_fs k"
  using assms by (auto simp: load_or_create_server_identity_def set_owner_only_permissions_def read_key_file_def os_call_def
      bnd_def file_at_def split: if_splits option.splits fnode.splits)

theorem damaged_identity_refused_witness:
  "fst (load_or_create_server_identity (env_example\<lparr>rsa_import := \<lambda>_. None\<rparr>) 0 (\<lambda>_. [1]) 420 [107]
     (key_disk_example\<lparr>kd_fs := \<lparr>entries = [[107] \<mapsto> FFile 0], inodes = (\<lambda>_. [45]), next_inode = 1\<rparr>\<rparr>))
   \<in> {Raise RuntimeError, Raise OSError}"
  using damaged_identity_refused [OF _ _ surjective_pairing, where data = "[45]" and E = "env_example\<lparr>rsa_import := \<lambda>_. None\<rparr>"
      and gen = 0 and pem = "\<lambda>_. [1]" and mode = 420 and path = "[107]"
      and k = "key_disk_example\<lparr>kd_fs := \<lparr>entries = [[107] \<mapsto> FFile 0], inodes = (\<lambda>_. [45]), next_inode = 1\<rparr>\<rparr>"]
  by (simp add: file_at_def)

end
