(* ===== verification/Server.thy ===== *)
theory Server
  imports Connection Executor Identity_File
begin

text \<open>
  The whole server (\<open>main\<close> of \<open>server/server_async.py\<close>): what the start sets up, the connections
  it then serves side by side over one store, one upload limiter, one connection limiter,
  one set of metrics and one file system, and the shutdown. A step is one iteration of one
  connection's loop, in any order: the tasks of \<open>asyncio\<close> switch only where they await.
\<close>

section \<open>The server and its start\<close>

record client_task =
  t_ip :: pystr
  t_sess :: session
  t_out :: "bytes list"

record server =
  sv_config :: config
  sv_key :: rsa_key
  sv_store :: store
  sv_uploads :: upload_limiter
  sv_conns :: connection_limiter
  sv_metrics :: runtime_metrics
  sv_executor :: bounded_executor
  sv_fs :: filesystem
  sv_tick :: nat
  sv_tasks :: "client_task list"

text \<open>
  The start: the configuration, the outcome of opening the database \<open>db\<close>, the limiters, and
  the identity key, which is loaded after them. A database that cannot be opened ends it.
\<close>

definition main_start :: "config res \<Rightarrow> init_outcome \<Rightarrow> store \<Rightarrow> rsa_key res \<Rightarrow> filesystem \<Rightarrow> nat \<Rightarrow> server res" where
  "main_start conf init db key fs tick = res_bnd conf (\<lambda>c. case store_initialize init db of
      (Raise e, _) \<Rightarrow> Raise e
    | (Ok ok, st) \<Rightarrow> if \<not> ok then Raise RuntimeError
        else res_bnd (upload_limiter_init (cfg_max_concurrent_uploads c)) (\<lambda>ul.
          res_bnd (connection_limiter_init (cfg_max_connections c) (cfg_max_connections_per_ip c)) (\<lambda>cl.
          res_bnd (bounded_executor_init (cpu_worker_threads c) (cpu_max_in_flight c)) (\<lambda>be.
          res_bnd key (\<lambda>k. Ok \<lparr>sv_config = c, sv_key = k, sv_store = st, sv_uploads = ul, sv_conns = cl,
            sv_metrics = runtime_metrics_init, sv_executor = be, sv_fs = fs, sv_tick = tick, sv_tasks = []\<rparr>)))))"

section \<open>Steps\<close>

text \<open>The world in which one task runs, and what it leaves to the others.\<close>

definition task_world :: "server \<Rightarrow> session \<Rightarrow> bytes list \<Rightarrow> world" where
  "task_world sv s out = \<lparr>w_sess = s, w_store = sv_store sv, w_limiter = sv_uploads sv, w_metrics = Some (sv_metrics sv),
     w_fs = sv_fs sv, w_out = out, w_tick = sv_tick sv, w_conns = sv_conns sv, w_closed = False\<rparr>"

definition task_done :: "world \<Rightarrow> server \<Rightarrow> server" where
  "task_done w sv = sv\<lparr>sv_store := w_store w, sv_uploads := w_limiter w, sv_conns := w_conns w,
     sv_metrics := (case w_metrics w of Some m \<Rightarrow> m | None \<Rightarrow> sv_metrics sv), sv_fs := w_fs w, sv_tick := w_tick w\<rparr>"

text \<open>The session \<open>handle_client\<close> makes for a new connection.\<close>

definition new_session :: "env \<Rightarrow> server \<Rightarrow> session res" where
  "new_session E sv = session_init (sv_config sv) (uuid4 E (sv_tick sv)) (mono E (Suc (sv_tick sv))) (sv_key sv)"

abbreviation opened :: "server \<Rightarrow> server" where
  "opened sv \<equiv> sv\<lparr>sv_tick := Suc (Suc (sv_tick sv))\<rparr>"

abbreviation task_of :: "pystr \<Rightarrow> world \<Rightarrow> client_task" where
  "task_of ip w \<equiv> \<lparr>t_ip = ip, t_sess = w_sess w, t_out = w_out w\<rparr>"

abbreviation remove_nth :: "nat \<Rightarrow> 'a list \<Rightarrow> 'a list" where
  "remove_nth i xs \<equiv> take i xs @ drop (Suc i) xs"

inductive server_step :: "env \<Rightarrow> server \<Rightarrow> server \<Rightarrow> bool" for E where
  refuse: "new_session E sv = Ok s \<Longrightarrow> accept_connection ip (task_world (opened sv) s []) = (Ok False, w) \<Longrightarrow>
    cleanup E ip False w = (Ok (), w') \<Longrightarrow> server_step E sv (task_done w' sv)"
| admit: "new_session E sv = Ok s \<Longrightarrow> accept_connection ip (task_world (opened sv) s []) = (Ok True, w) \<Longrightarrow>
    server_step E sv ((task_done w sv)\<lparr>sv_tasks := sv_tasks sv @ [task_of ip w]\<rparr>)"
| iterate: "i < length (sv_tasks sv) \<Longrightarrow> t = sv_tasks sv ! i \<Longrightarrow>
    loop_guard (loop_iteration E ev) (task_world sv (t_sess t) (t_out t)) = (Ok Go, w) \<Longrightarrow>
    server_step E sv ((task_done w sv)\<lparr>sv_tasks := (sv_tasks sv)[i := task_of (t_ip t) w]\<rparr>)"
| leave: "i < length (sv_tasks sv) \<Longrightarrow> t = sv_tasks sv ! i \<Longrightarrow>
    loop_guard (loop_iteration E ev) (task_world sv (t_sess t) (t_out t)) = (Ok c, w) \<Longrightarrow> c \<noteq> Go \<Longrightarrow>
    cleanup E (t_ip t) True w = (Ok (), w') \<Longrightarrow>
    server_step E sv ((task_done w' sv)\<lparr>sv_tasks := remove_nth i (sv_tasks sv)\<rparr>)"

text \<open>
  One iteration at a time is the loop of \<open>handle_client\<close>: guarding the loop is guarding its
  iterations one after the other.
\<close>

lemma loop_guard_step:
  "loop_guard (client_loop E (ev # evs)) w =
    bnd (loop_guard (loop_iteration E ev)) (\<lambda>c. if c = Go then loop_guard (client_loop E evs) else ret c) w"
proof (cases "loop_iteration E ev w")
  case (Pair r v)
  show ?thesis
  proof (cases r)
    case (Ok c)
    with Pair show ?thesis by (cases c) (simp_all add: loop_guard_def try_except_def bnd_def split: prod.splits res.splits)
  next
    case (Raise e)
    with Pair show ?thesis by (simp add: loop_guard_def try_except_def bnd_def leave_with_def set_reason_def upd_sess_def)
  qed
qed

lemma guarded_iteration_keeps:
  assumes "loop_guard (loop_iteration E ev) w = (r, w')"
  shows "slots_kept w w'" "conn_kept w w'" "answers_since E w w'" "bindings_kept E w w'"
  using assms
  by (auto intro: keepsD [OF slots_loop.keeps_loop_guard [OF slots_loop.keeps_loop_iteration]]
      keepsD [OF conn_loop.keeps_loop_guard [OF conn_loop.keeps_loop_iteration]]
      keepsD [OF answers_loop.keeps_loop_guard [OF answers_loop.keeps_loop_iteration]]
      keepsD [OF bindings_loop.keeps_loop_guard [OF bindings_loop.keeps_loop_iteration]])

section \<open>Capacity\<close>

text \<open>The number of tasks whose session holds an upload slot.\<close>

definition slot_holders :: "client_task list \<Rightarrow> int" where
  "slot_holders ts = len (filter (has_upload_slot \<circ> t_sess) ts)"

abbreviation own_slot :: "session \<Rightarrow> int" where
  "own_slot s \<equiv> (if has_upload_slot s then 1 else 0)"

lemma slot_holders_append: "slot_holders (ts @ us) = slot_holders ts + slot_holders us"
  by (simp add: slot_holders_def)

lemma slot_holders_one: "slot_holders [t] = own_slot (t_sess t)"
  by (simp add: slot_holders_def)

lemma slot_holders_split:
  "i < length ts \<Longrightarrow> slot_holders ts = slot_holders (remove_nth i ts) + own_slot (t_sess (ts ! i))"
  by (subst id_take_nth_drop [of i ts]) (simp_all add: slot_holders_def)

lemma slot_holders_update:
  "i < length ts \<Longrightarrow> slot_holders (ts[i := t]) = slot_holders (remove_nth i ts) + own_slot (t_sess t)"
  by (simp add: upd_conv_take_nth_drop slot_holders_def)

lemma slot_holders_nonneg: "0 \<le> slot_holders ts"
  by (simp add: slot_holders_def)

definition server_inv :: "server \<Rightarrow> bool" where
  "server_inv sv \<longleftrightarrow>
     conn_slots.ledger (cfg_max_connections (sv_config sv)) (cfg_max_connections_per_ip (sv_config sv))
       (sv_conns sv, map t_ip (sv_tasks sv)) \<and>
     max_concurrent_uploads (sv_uploads sv) = cfg_max_concurrent_uploads (sv_config sv) \<and>
     active_uploads (sv_uploads sv) = slot_holders (sv_tasks sv) \<and>
     slot_holders (sv_tasks sv) \<le> cfg_max_concurrent_uploads (sv_config sv) \<and>
     gauges (sv_metrics sv) = (active_total (sv_conns sv), active_uploads (sv_uploads sv))"

lemma main_start_Ok:
  assumes "main_start conf init db key fs tick = Ok sv"
  obtains c st ul cl be k where "conf = Ok c" "store_initialize init db = (Ok True, st)" "key = Ok k"
    "upload_limiter_init (cfg_max_concurrent_uploads c) = Ok ul"
    "connection_limiter_init (cfg_max_connections c) (cfg_max_connections_per_ip c) = Ok cl"
    "sv = \<lparr>sv_config = c, sv_key = k, sv_store = st, sv_uploads = ul, sv_conns = cl,
       sv_metrics = runtime_metrics_init, sv_executor = be, sv_fs = fs, sv_tick = tick, sv_tasks = []\<rparr>"
proof -
  obtain c where c: "conf = Ok c" using assms by (auto simp: main_start_def res_bnd_Ok)
  obtain r st where st: "store_initialize init db = (r, st)" by fastforce
  with assms c have "r = Ok True" by (cases r) (auto simp: main_start_def split: if_splits)
  with assms c st that show thesis by (auto simp: main_start_def res_bnd_Ok)
qed

lemma main_start_inv:
  assumes "main_start conf init db key fs tick = Ok sv"
  shows "server_inv sv" "sv_tasks sv = []" "0 < cfg_max_connections (sv_config sv)" "0 < cfg_max_connections_per_ip (sv_config sv)"
proof -
  from assms obtain c st ul cl be k where u: "upload_limiter_init (cfg_max_concurrent_uploads c) = Ok ul"
    and l: "connection_limiter_init (cfg_max_connections c) (cfg_max_connections_per_ip c) = Ok cl"
    and sv: "sv = \<lparr>sv_config = c, sv_key = k, sv_store = st, sv_uploads = ul, sv_conns = cl,
       sv_metrics = runtime_metrics_init, sv_executor = be, sv_fs = fs, sv_tick = tick, sv_tasks = []\<rparr>"
    by (rule main_start_Ok)
  have "0 < cfg_max_concurrent_uploads c" "ul = \<lparr>max_concurrent_uploads = cfg_max_concurrent_uploads c, active_uploads = 0\<rparr>"
    using u by (auto simp: upload_limiter_init_def split: if_splits)
  moreover have c: "0 < cfg_max_connections c" "0 < cfg_max_connections_per_ip c"
      "cl = \<lparr>max_connections = cfg_max_connections c, max_connections_per_ip = cfg_max_connections_per_ip c,
         active_total = 0, active_by_ip = Map.empty\<rparr>"
    using l by (auto simp: connection_limiter_init_def split: if_splits)
  ultimately show "server_inv sv"
    unfolding sv server_inv_def conn_slots.ledger_def
    by (simp add: connection_ok_def dict_get_def slot_holders_def gauges_def runtime_metrics_init_def)
  show "sv_tasks sv = []" "0 < cfg_max_connections (sv_config sv)" "0 < cfg_max_connections_per_ip (sv_config sv)"
    using c sv by simp_all
qed

text \<open>What one task's turn does to the shared counters.\<close>

lemma task_world_facts [simp]:
  "w_limiter (task_world sv s out) = sv_uploads sv" "w_conns (task_world sv s out) = sv_conns sv"
  "w_metrics (task_world sv s out) = Some (sv_metrics sv)" "w_sess (task_world sv s out) = s" "w_out (task_world sv s out) = out"
  "w_store (task_world sv s out) = sv_store sv" "w_closed (task_world sv s out) = False"
  by (simp_all add: task_world_def)

lemma task_done_facts [simp]:
  "sv_config (task_done w sv) = sv_config sv" "sv_uploads (task_done w sv) = w_limiter w" "sv_conns (task_done w sv) = w_conns w"
  "sv_store (task_done w sv) = w_store w" "sv_tasks (task_done w sv) = sv_tasks sv" "sv_key (task_done w sv) = sv_key sv"
  "w_metrics w = Some m \<Longrightarrow> sv_metrics (task_done w sv) = m"
  by (simp_all add: task_done_def)

text \<open>A turn of task \<open>i\<close>: the limiter of connections is untouched, the other tasks' slots are, and the gauges follow.\<close>

lemma turn_counters:
  assumes inv: "server_inv sv" and i: "i < length (sv_tasks sv)" "t = sv_tasks sv ! i"
    and run: "loop_guard (loop_iteration E ev) (task_world sv (t_sess t) (t_out t)) = (r, w)"
  obtains m where "w_metrics w = Some m" "w_conns w = sv_conns sv" "gauges m = (active_total (sv_conns sv), active_uploads (w_limiter w))"
    "max_concurrent_uploads (w_limiter w) = cfg_max_concurrent_uploads (sv_config sv)"
    "active_uploads (w_limiter w) = slot_holders (remove_nth i (sv_tasks sv)) + own_slot (w_sess w)"
    "active_uploads (w_limiter w) \<le> cfg_max_concurrent_uploads (sv_config sv)"
proof -
  let ?w0 = "task_world sv (t_sess t) (t_out t)"
  note k = guarded_iteration_keeps [OF run]
  have "others ?w0 = slot_holders (remove_nth i (sv_tasks sv))"
    using inv slot_holders_split [OF i(1)] i(2) by (simp add: others_def server_inv_def)
  moreover have "slots_ok ?w0"
    using calculation inv slot_holders_nonneg by (simp add: slots_ok_def server_inv_def)
  ultimately have o: "slots_ok w" "others w = slot_holders (remove_nth i (sv_tasks sv))"
      "max_concurrent_uploads (w_limiter w) = cfg_max_concurrent_uploads (sv_config sv)"
    using k(1) inv by (simp_all add: slots_kept_def server_inv_def)
  have "gauged ?w0" using inv by (simp add: gauged_def server_inv_def)
  then have g: "gauged w" "w_conns w = sv_conns sv" "conn_gauge w = Some (active_total (sv_conns sv))"
    using k(2) inv by (simp_all add: conn_kept_def server_inv_def)
  then obtain m where "w_metrics w = Some m" "fst (gauges m) = active_total (sv_conns sv)" by auto
  moreover have "snd (gauges m) = active_uploads (w_limiter w)" using g(1) calculation(1) by (simp add: gauged_def)
  ultimately show thesis using that o g(2) by (auto simp: slots_ok_def others_def prod_eq_iff)
qed

text \<open>The connection limiter at admission and departure: the ledger of \<open>Limiters\<close>.\<close>

lemma ledger_admit:
  assumes "conn_slots.ledger m p (l, ips)" and "connection_try_acquire ip l = ((True, reason), l')"
  shows "conn_slots.ledger m p (l', ips @ [ip])"
  using conn_slots.ledger_arrive [OF assms(1), of ip] assms(2) by simp

lemma ledger_leave:
  assumes "conn_slots.ledger m p (l, ips)" and "i < length ips"
  shows "conn_slots.ledger m p (connection_release (ips ! i) l, remove_nth i ips)"
  using conn_slots.ledger_depart [OF assms(1), of i] assms(2) by simp

lemma server_step_inv:
  assumes "server_step E sv sv'" and inv: "server_inv sv"
  shows "server_inv sv' \<and> sv_config sv' = sv_config sv"
  using assms(1)
proof (cases rule: server_step.cases)
  case (refuse s ip w w')
  then obtain n fs where w': "w' = cleaned ip False n fs w" using cleanup_run [of E ip False w] by auto
  have fresh: "\<not> has_upload_slot s" using session_init_fresh refuse(2) by (auto simp: new_session_def)
  have w: "w_conns w = sv_conns sv" "w_limiter w = sv_uploads sv" "w_metrics w = Some (inc_rejected_connections (sv_metrics sv))"
      "\<not> has_upload_slot (w_sess w)"
    using refuse(3) fresh by (auto simp: accept_run connection_try_acquire_def split: if_splits)
  then have "w_metrics w' = Some (inc_rejected_connections (sv_metrics sv))" "w_conns w' = sv_conns sv" "w_limiter w' = sv_uploads sv"
    using w' by (auto simp: cleaned_def Let_def)
  with inv refuse(1) show ?thesis by (simp add: server_inv_def)
next
  case (admit s ip w)
  obtain reason l where acq: "connection_try_acquire ip (sv_conns sv) = ((True, reason), l)"
    using admit(3) by (auto simp: accept_run split: prod.splits if_splits)
  have w: "w_conns w = l" "w_limiter w = sv_uploads sv" "w_metrics w = Some (set_active_connections (active_total l) (sv_metrics sv))" "w_sess w = s"
    using admit(3) acq by (auto simp: accept_run)
  have "\<not> has_upload_slot s" using session_init_fresh admit(2) by (auto simp: new_session_def)
  moreover have "conn_slots.ledger (cfg_max_connections (sv_config sv)) (cfg_max_connections_per_ip (sv_config sv))
      (l, map t_ip (sv_tasks sv) @ [ip])"
    using inv acq ledger_admit by (auto simp: server_inv_def)
  ultimately show ?thesis using inv admit(1) w by (simp add: server_inv_def slot_holders_append slot_holders_one)
next
  case (iterate i t ev w)
  obtain m where "w_metrics w = Some m" "w_conns w = sv_conns sv" "gauges m = (active_total (sv_conns sv), active_uploads (w_limiter w))"
    "max_concurrent_uploads (w_limiter w) = cfg_max_concurrent_uploads (sv_config sv)"
    "active_uploads (w_limiter w) = slot_holders (remove_nth i (sv_tasks sv)) + own_slot (w_sess w)"
    "active_uploads (w_limiter w) \<le> cfg_max_concurrent_uploads (sv_config sv)"
    using turn_counters [OF inv iterate(2,3,4)] .
  moreover have "map t_ip ((sv_tasks sv)[i := task_of (t_ip t) w]) = map t_ip (sv_tasks sv)"
    using iterate(2,3) by (simp add: map_update list_update_same_conv)
  ultimately show ?thesis using inv iterate(1,2) by (simp add: server_inv_def slot_holders_update)
next
  case (leave i t ev c w w')
  obtain n fs where w': "w' = cleaned (t_ip t) True n fs w" using cleanup_run [of E "t_ip t" True w] leave(6) by auto
  obtain m where m: "w_metrics w = Some m" "w_conns w = sv_conns sv" "gauges m = (active_total (sv_conns sv), active_uploads (w_limiter w))"
    "max_concurrent_uploads (w_limiter w) = cfg_max_concurrent_uploads (sv_config sv)"
    "active_uploads (w_limiter w) = slot_holders (remove_nth i (sv_tasks sv)) + own_slot (w_sess w)"
    "active_uploads (w_limiter w) \<le> cfg_max_concurrent_uploads (sv_config sv)"
    using turn_counters [OF inv leave(2,3,4)] .
  let ?l = "connection_release (t_ip t) (sv_conns sv)"
  have "conn_slots.ledger (cfg_max_connections (sv_config sv)) (cfg_max_connections_per_ip (sv_config sv))
      (?l, remove_nth i (map t_ip (sv_tasks sv)))"
    using inv ledger_leave [of _ _ "sv_conns sv" "map t_ip (sv_tasks sv)" i] leave(2,3) by (simp add: server_inv_def)
  then have "conn_slots.ledger (cfg_max_connections (sv_config sv)) (cfg_max_connections_per_ip (sv_config sv))
      (?l, map t_ip (remove_nth i (sv_tasks sv)))"
    by (simp add: take_map drop_map)
  moreover have "active_uploads (w_limiter w') = slot_holders (remove_nth i (sv_tasks sv))"
      "max_concurrent_uploads (w_limiter w') = cfg_max_concurrent_uploads (sv_config sv)" "w_conns w' = ?l"
    using m w' slot_holders_nonneg [of "remove_nth i (sv_tasks sv)"]
    by (auto simp: cleaned_def Let_def upload_release_def split: if_splits)
  moreover have "\<exists>m'. w_metrics w' = Some m' \<and> gauges m' = (active_total ?l, active_uploads (w_limiter w'))"
    using m w' by (auto simp: cleaned_def Let_def)
  moreover have "slot_holders (remove_nth i (sv_tasks sv)) \<le> cfg_max_concurrent_uploads (sv_config sv)"
    using m(5,6) by (auto split: if_splits)
  ultimately show ?thesis using leave(1) by (auto simp: server_inv_def)
qed

lemma server_run_inv:
  "(server_step E)\<^sup>*\<^sup>* sv sv' \<Longrightarrow> server_inv sv \<Longrightarrow> server_inv sv' \<and> sv_config sv' = sv_config sv"
  by (induction rule: rtranclp_induct) (auto dest: server_step_inv)

text \<open>C1: the server's counters are exact: in every state the server can reach, whatever connections come, send
  and go, in whatever order and whatever fails, the open connections are as many as the
  connection limiter and the published metrics say and never more than configured, in all
  and from one address; the sessions that hold an upload slot are as many as the upload
  limiter and the metrics say and never more than configured.\<close>

theorem server_capacity_exact:
  assumes "main_start conf init db key fs tick = Ok sv0" and "(server_step E)\<^sup>*\<^sup>* sv0 sv"
  shows "active_total (sv_conns sv) = len (sv_tasks sv) \<and> len (sv_tasks sv) \<le> cfg_max_connections (sv_config sv) \<and>
    (\<forall>ip. int (count_list (map t_ip (sv_tasks sv)) ip) \<le> cfg_max_connections_per_ip (sv_config sv)) \<and>
    active_uploads (sv_uploads sv) = slot_holders (sv_tasks sv) \<and>
    slot_holders (sv_tasks sv) \<le> cfg_max_concurrent_uploads (sv_config sv) \<and>
    m_active_connections (sv_metrics sv) = len (sv_tasks sv) \<and> m_active_uploads (sv_metrics sv) = slot_holders (sv_tasks sv)"
proof -
  note s = main_start_inv [OF assms(1)]
  have "server_inv sv" "sv_config sv = sv_config sv0" using server_run_inv [OF assms(2)] s(1) by simp_all
  moreover have "\<forall>k. int (count_list (map t_ip (sv_tasks sv)) k) \<le> max 0 (cfg_max_connections_per_ip (sv_config sv))"
      "active_total (sv_conns sv) = len (sv_tasks sv)" "len (sv_tasks sv) \<le> max 0 (cfg_max_connections (sv_config sv))"
    using calculation(1) by (simp_all add: server_inv_def conn_slots.ledger_def)
  ultimately show ?thesis using s(3,4) by (auto simp: server_inv_def gauges_def)
qed

text \<open>A start and a first connection, for concrete runs.\<close>

definition fs_example :: filesystem where
  "fs_example = \<lparr>entries = Map.empty, inodes = (\<lambda>_. []), next_inode = 0\<rparr>"

definition server_example :: server where
  "server_example = \<lparr>sv_config = config_example, sv_key = 0, sv_store = snd (store_initialize InitOk store_example),
     sv_uploads = \<lparr>max_concurrent_uploads = 10, active_uploads = 0\<rparr>,
     sv_conns = \<lparr>max_connections = 10, max_connections_per_ip = 10, active_total = 0, active_by_ip = Map.empty\<rparr>,
     sv_metrics = runtime_metrics_init,
     sv_executor = \<lparr>max_workers = 4, semaphore_value = 8, semaphore_waiters = [], in_executor = []\<rparr>,
     sv_fs = fs_example, sv_tick = 0, sv_tasks = []\<rparr>"

lemma server_example_start: "main_start (Ok config_example) InitOk store_example (Ok 0) fs_example 0 = Ok server_example"
  by (simp add: main_start_def store_initialize_def upload_limiter_init_def connection_limiter_init_def
      bounded_executor_init_def config_example_def Config_new_def server_example_def)

lemma server_example_store:
  "store_inv (sv_store server_example)" "sqlite_connected (sv_store server_example)"
  "clients_table (sv_store server_example) = clients_table store_example"
  using store_initialize_inv [OF store_example_ok(1), of InitOk]
  by (simp_all add: server_example_def store_initialize_def load_clients_index_def)

lemma server_example_step: "\<exists>sv. server_step env_example server_example sv \<and> length (sv_tasks sv) = 1"
proof -
  obtain s where s: "new_session env_example server_example = Ok s"
    by (simp add: new_session_def session_init_def framer_init_def server_example_def config_example_def Config_new_def)
  obtain w where w: "accept_connection [9] (task_world (opened server_example) s []) = (Ok True, w)"
    by (simp add: accept_run server_example_def connection_try_acquire_def dict_get_def)
  show ?thesis
    by (intro exI conjI, rule server_step.admit [OF s w]) (simp_all add: server_example_def)
qed

theorem server_capacity_exact_witness:
  "\<exists>sv. (server_step env_example)\<^sup>*\<^sup>* server_example sv \<and> active_total (sv_conns sv) = 1 \<and> m_active_connections (sv_metrics sv) = 1"
proof -
  obtain sv where sv: "server_step env_example server_example sv" "length (sv_tasks sv) = 1" using server_example_step by blast
  from server_capacity_exact [OF server_example_start r_into_rtranclp [where r = "server_step env_example", OF sv(1)]] sv
  show ?thesis by auto
qed

section \<open>Identities and responses\<close>

lemma step_bindings:
  assumes "server_step E sv sv'" and "commits E" and "store_inv (sv_store sv)"
  shows "store_inv (sv_store sv') \<and> sqlite_connected (sv_store sv') = sqlite_connected (sv_store sv) \<and>
    clients_kept (clients_table (sv_store sv)) (clients_table (sv_store sv'))"
proof -
  have cl: "w_store w' = w_store w" if "cleanup E ip a w = (Ok (), w')" for ip a w w'
    using cleanup_run [of E ip a w] that by (auto simp: cleaned_def Let_def)
  have ac: "w_store w = sv_store sv" if "accept_connection ip (task_world (opened sv) s []) = (r, w)" for ip s r w
    using that by (auto simp: accept_run split: prod.splits if_splits)
  have it: "store_inv (w_store w) \<and> sqlite_connected (w_store w) = sqlite_connected (sv_store sv) \<and>
      clients_kept (clients_table (sv_store sv)) (clients_table (w_store w))"
    if "loop_guard (loop_iteration E ev) (task_world sv s out) = (r, w)" for ev s out r w
    using guarded_iteration_keeps(4) [OF that] assms(2,3) by (simp add: bindings_kept_def)
  show ?thesis using assms(1)
  proof (cases rule: server_step.cases)
    case (refuse s ip w w')
    then show ?thesis using assms(3) cl ac by simp
  next
    case (admit s ip w)
    then show ?thesis using assms(3) ac by simp
  next
    case (iterate i t ev w)
    then show ?thesis using it by simp
  next
    case (leave i t ev c w w')
    then show ?thesis using it [OF leave(4)] cl [OF leave(6)] by simp
  qed
qed

lemma run_bindings:
  assumes "(server_step E)\<^sup>*\<^sup>* sv sv'" and "commits E" and "store_inv (sv_store sv)"
  shows "store_inv (sv_store sv') \<and> sqlite_connected (sv_store sv') = sqlite_connected (sv_store sv) \<and>
    clients_kept (clients_table (sv_store sv)) (clients_table (sv_store sv'))"
  using assms(1)
proof (induction rule: rtranclp_induct)
  case (step y z)
  from step_bindings [OF step(2) assms(2)] step(3) clients_kept_trans show ?case by auto
qed (simp add: assms(3))

text \<open>C6: identities last: as long as no commit fails, a client the server knows is known in every state
  it reaches, under the same id and user name, and with the public key it enrolled first,
  whatever all connections send.\<close>

theorem server_key_binding:
  assumes "(server_step E)\<^sup>*\<^sup>* sv sv'" and "commits E" and "store_inv (sv_store sv)" and "sqlite_connected (sv_store sv)"
    and "get_client_by_id c (sv_store sv) = Some rec"
  shows "\<exists>rec'. get_client_by_id c (sv_store sv') = Some rec' \<and> username rec' = username rec \<and>
    (public_key_der rec \<noteq> None \<longrightarrow> public_key_der rec' = public_key_der rec)"
proof -
  note r = run_bindings [OF assms(1-3)]
  have "rec \<in> set (clients_table (sv_store sv))" "client_id_hex rec = c"
    using assms(3-5) by (simp_all add: get_client_by_id_iff)
  with r obtain rec' where "rec' \<in> set (clients_table (sv_store sv'))" "client_id_hex rec' = c"
      "username rec' = username rec" "public_key_der rec \<noteq> None \<longrightarrow> public_key_der rec' = public_key_der rec"
    unfolding clients_kept_def by metis
  with r assms(4) show ?thesis by (auto simp: get_client_by_id_iff)
qed

theorem server_key_binding_witness:
  "\<exists>sv' rec'. (server_step env_example)\<^sup>*\<^sup>* server_example sv' \<and> length (sv_tasks sv') = 1 \<and>
     get_client_by_id [48, 49] (sv_store sv') = Some rec' \<and> username rec' = [97]"
proof -
  obtain found where found: "get_client_by_id [48, 49] (sv_store server_example) = Some found" "username found = [97]"
    using get_client_by_id_iff [OF server_example_store(1,2)] store_example_ok(3) server_example_store(3) by auto
  obtain sv' where sv': "server_step env_example server_example sv'" "length (sv_tasks sv') = 1" using server_example_step by blast
  have "commits env_example" by (simp add: commits_def)
  from server_key_binding [OF r_into_rtranclp [where r = "server_step env_example", OF sv'(1)] this server_example_store(1,2) found(1)] sv' found
  show ?thesis by auto
qed

text \<open>Every message a task has sent is a response, and AES keys are bound to its own handshake.\<close>

definition tasks_answered :: "env \<Rightarrow> server \<Rightarrow> bool" where
  "tasks_answered E sv \<longleftrightarrow> (\<forall>t \<in> set (sv_tasks sv). \<forall>m \<in> set (t_out t). plain_answer m \<or> bound_aes_answer E (t_sess t) m)"

lemma turn_answers:
  assumes "answers_since E (task_world sv s out) w" and "\<forall>m \<in> set out. plain_answer m \<or> bound_aes_answer E s m"
  shows "\<forall>m \<in> set (w_out w). plain_answer m \<or> bound_aes_answer E (w_sess w) m"
proof -
  obtain ms where ms: "w_out w = out @ ms" "\<forall>m \<in> set ms. plain_answer m \<or> bound_aes_answer E (w_sess w) m" "hs_stable s (w_sess w)"
    using assms(1) by (auto simp: answers_since_def)
  then show ?thesis using assms(2) bound_stable [OF ms(3)] by auto
qed

lemma step_answers:
  assumes "server_step E sv sv'" and inv: "tasks_answered E sv"
  shows "tasks_answered E sv'"
  using assms(1)
proof (cases rule: server_step.cases)
  case (admit s ip w)
  then have "w_out w = []" by (auto simp: accept_run split: prod.splits if_splits)
  with admit(1) inv show ?thesis by (auto simp: tasks_answered_def)
next
  case (iterate i t ev w)
  have "\<forall>m \<in> set (w_out w). plain_answer m \<or> bound_aes_answer E (w_sess w) m"
    by (rule turn_answers [OF guarded_iteration_keeps(3) [OF iterate(4)]])
      (use inv iterate(2,3) in \<open>auto simp: tasks_answered_def\<close>)
  with iterate(1) inv show ?thesis by (auto simp: tasks_answered_def dest!: set_update_subset_insert [THEN subsetD])
next
  case (leave i t ev c w w')
  have "set (remove_nth i (sv_tasks sv)) \<subseteq> set (sv_tasks sv)" by (auto dest: in_set_takeD in_set_dropD)
  with leave(1) inv show ?thesis by (auto simp: tasks_answered_def)
qed (use inv in \<open>simp add: tasks_answered_def\<close>)

text \<open>C5: no AES key leaves for another handshake: in every state the server reaches from its start, every
  message any open connection has been sent is a well-formed response, and every AES key
  among them is signed over the nonces of that connection's own completed handshake.\<close>

theorem server_answers_signed:
  assumes "main_start conf init db key fs tick = Ok sv0" and "(server_step E)\<^sup>*\<^sup>* sv0 sv"
  shows "\<forall>t \<in> set (sv_tasks sv). \<forall>m \<in> set (t_out t). answer_frame m \<and> (plain_answer m \<or> bound_aes_answer E (t_sess t) m)"
proof -
  have "tasks_answered E sv0" using main_start_inv(2) [OF assms(1)] by (simp add: tasks_answered_def)
  with assms(2) have "tasks_answered E sv" by (induction rule: rtranclp_induct) (auto dest: step_answers)
  then show ?thesis by (auto simp: tasks_answered_def plain_answer_def bound_aes_answer_def)
qed

theorem server_answers_signed_witness:
  "\<exists>sv. (server_step env_example)\<^sup>*\<^sup>* server_example sv \<and> length (sv_tasks sv) = 1 \<and>
     (\<forall>t \<in> set (sv_tasks sv). \<forall>m \<in> set (t_out t). answer_frame m)"
proof -
  obtain sv where sv: "server_step env_example server_example sv" "length (sv_tasks sv) = 1" using server_example_step by blast
  from server_answers_signed [OF server_example_start r_into_rtranclp [where r = "server_step env_example", OF sv(1)]] sv
  show ?thesis by blast
qed

end
