(* ===== verification/Upload_Bounds.thy ===== *)
theory Upload_Bounds
  imports Router
begin

text \<open>
  The space an upload can take: whatever a client sends, a session never accepts more
  ciphertext than the upload announced and the configuration allows, and never writes more
  plaintext than it has accepted ciphertext.
\<close>

section \<open>The invariant\<close>

text \<open>What the code relies on: decryption keeps the length, removing the padding does not add to it.\<close>

definition cipher_lengths :: "env \<Rightarrow> bool" where
  "cipher_lengths E \<longleftrightarrow> (\<forall>k iv fed c. length (aes_cbc_dec E k iv fed c) = length c) \<and>
     (\<forall>b n u. unpad E b n = Some u \<longrightarrow> length u \<le> length b)"

definition fits :: "config \<Rightarrow> transfer \<Rightarrow> bool" where
  "fits c x \<longleftrightarrow> 0 \<le> received_cipher_bytes x \<and> 0 \<le> upload_plain_bytes_written x \<and>
     upload_plain_bytes_written x + len (upload_plain_tail x) \<le> received_cipher_bytes x \<and>
     (expected_content_size x = None \<longrightarrow> received_cipher_bytes x = 0) \<and>
     (\<forall>n. expected_content_size x = Some n \<longrightarrow> received_cipher_bytes x \<le> n \<and> n \<le> max_file_size c) \<and>
     (\<not> is_set (transfer_iv x) \<longrightarrow> upload_plain_bytes_written x = 0 \<and> upload_plain_tail x = [])"

definition bounds_kept :: "world \<Rightarrow> world \<Rightarrow> bool" where
  "bounds_kept w w' \<longleftrightarrow> cfg w' = cfg w \<and> (fits (cfg w) (xf w) \<longrightarrow> fits (cfg w) (xf w'))"

lemma fits_no_transfer [simp]: "fits c no_transfer"
  by (simp add: fits_def no_transfer_def)

lemma bounds_frame: "cfg w' = cfg w \<Longrightarrow> xf w' = xf w \<Longrightarrow> bounds_kept w w'"
  by (simp add: bounds_kept_def)

lemma bounds_trans: "bounds_kept w v \<Longrightarrow> bounds_kept v u \<Longrightarrow> bounds_kept w u"
  by (simp add: bounds_kept_def)

interpretation bounds: quiet_rel bounds_kept E for E
  by unfold_locales (simp_all add: bounds_frame same_core_fields, rule bounds_trans)

interpretation bounds_auth: auth_rel bounds_kept E for E
  by unfold_locales (simp_all add: bounds_frame bounds.keeps_hand_out)

lemma keeps_fits_xfer: "(\<And>c x. fits c x \<Longrightarrow> fits c (f x)) \<Longrightarrow> keeps bounds_kept (upd_xfer f)"
  by (simp add: keeps_def upd_xfer_def upd_sess_def bounds_kept_def)

lemma keeps_bounds_fs: "keeps bounds_kept (on_fs E op)"
  unfolding on_fs_def by (intro bounds.quiet_rules) (simp add: keeps_def split_beta bounds_frame)

lemma keeps_bounds_reset: "keeps bounds_kept (reset_transfer_state E)"
  unfolding reset_transfer_state_def remove_tmp_file_def block.simps
  by (intro keeps_fits_xfer keeps_bounds_fs bounds.quiet_rules) simp

lemma keeps_bounds_release: "keeps bounds_kept release_upload_slot"
  by (auto simp: keeps_def release_upload_slot_def upd_sess_def upd_metrics_def bounds_frame)

lemma keeps_bounds_progress: "keeps bounds_kept (mark_upload_progress E)"
  unfolding mark_upload_progress_def block.simps
  by (intro keeps_fits_xfer bounds.quiet_rules) (simp add: fits_def)

lemma keeps_bounds_store: "keeps bounds_kept (on_store op)"
  by (rule bounds.keeps_on_store) (simp add: bounds_frame)

lemma keeps_bounds_reject: "keeps bounds_kept (reject_828 E cid version msg)"
  unfolding reject_828_def block.simps
  by (intro keeps_bounds_reset keeps_bounds_release bounds.answer_rules)

lemma keeps_bounds_db_fail: "keeps bounds_kept (db_fail_upload E reason status now)"
  unfolding db_fail_upload_def by (intro keeps_bounds_store bounds.quiet_rules)

lemma keeps_bounds_fail: "keeps bounds_kept (fail_828 E cid version why msg)"
  unfolding fail_828_def best_effort_fail_upload_def block.simps
  by (intro keeps_bounds_reject keeps_bounds_db_fail bounds.quiet_rules)

lemma keeps_bounds_log: "keeps bounds_kept (upd (\<lambda>w. w\<lparr>w_store := log_append k e (w_store w)\<rparr>))"
  by (rule bounds.keeps_upd) (simp add: bounds_frame)

lemmas bounds_rules = keeps_bounds_fs keeps_bounds_reset keeps_bounds_release keeps_bounds_progress keeps_bounds_store
  keeps_bounds_reject keeps_bounds_db_fail keeps_bounds_fail keeps_bounds_log bounds.answer_rules

section \<open>Packet by packet\<close>

lemma keeps_bounds_bind: "keeps bounds_kept (bind_upload_client E cid version)"
  unfolding bind_upload_client_def block.simps
  by (intro keeps_fits_xfer bounds_rules) (simp add: fits_def)

lemma keeps_bounds_acquire: "keeps bounds_kept (acquire_upload_slot E cid version)"
proof -
  have "keeps bounds_kept (upd_sess (\<lambda>s. s\<lparr>has_upload_slot := b\<rparr>))" "keeps bounds_kept (upd_metrics g)"
      "keeps bounds_kept (upd (\<lambda>w. w\<lparr>w_limiter := f w\<rparr>))" for b f g
    by (simp_all add: keeps_def upd_sess_def upd_metrics_def bounds_frame)
  then show ?thesis unfolding acquire_upload_slot_def block.simps by (intro bounds_rules)
qed

lemma keeps_bounds_start: "keeps bounds_kept (start_upload E cid version h)"
  unfolding start_upload_def block.simps Let_def
  by (intro keeps_fits_xfer bounds_rules; simp add: fits_def)

text \<open>Packet 0: the announced size has passed \<open>validate_header\<close>.\<close>

lemma keeps_bounds_zero:
  assumes "0 \<le> content_size h"
  shows "keeps (\<lambda>w w'. content_size h \<le> max_file_size (cfg w) \<longrightarrow> bounds_kept w w') (packet_zero E cid version h)"
proof (rule keepsI, rule impI)
  fix w r w' assume run: "packet_zero E cid version h w = (r, w')" and max: "content_size h \<le> max_file_size (cfg w)"
  show "bounds_kept w w'"
  proof (cases "upload_active (xf w) \<or> is_set (transfer_iv (xf w)) \<or> length (cipher_chunk h) < 16")
    case True
    then have "\<exists>msg. packet_zero E cid version h w = reject_828 E cid version msg w" by (auto simp: packet_zero_def)
    with run keepsD [OF keeps_bounds_reject] show ?thesis by metis
  next
    case False
    with run max assms show ?thesis
      by (auto simp: packet_zero_def upd_xfer_def upd_sess_def bounds_kept_def fits_def is_set_def)
  qed
qed

text \<open>A chunk: what is written and held back grows by at most the chunk, and not at all when it fails.\<close>

definition grows_by :: "int \<Rightarrow> world \<Rightarrow> world \<Rightarrow> bool" where
  "grows_by n w w' \<longleftrightarrow> cfg w' = cfg w \<and> expected_content_size (xf w') = expected_content_size (xf w) \<and>
     received_cipher_bytes (xf w') = received_cipher_bytes (xf w) \<and> transfer_iv (xf w') = transfer_iv (xf w) \<and>
     upload_plain_bytes_written (xf w) \<le> upload_plain_bytes_written (xf w') \<and>
     upload_plain_bytes_written (xf w') + len (upload_plain_tail (xf w')) \<le>
       upload_plain_bytes_written (xf w) + len (upload_plain_tail (xf w)) + n"

lemma write_grows:
  assumes "write_plain_stream E plain w = (r, w')"
  shows "cfg w' = cfg w \<and> expected_content_size (xf w') = expected_content_size (xf w) \<and>
    received_cipher_bytes (xf w') = received_cipher_bytes (xf w) \<and> transfer_iv (xf w') = transfer_iv (xf w) \<and>
    upload_plain_tail (xf w') = upload_plain_tail (xf w) \<and>
    upload_plain_bytes_written (xf w') = upload_plain_bytes_written (xf w) + (if is_Ok r then len plain else 0)"
  using assms
  by (auto simp: write_plain_stream_def on_fs_def next_of_def bnd_def upd_xfer_def upd_sess_def split: if_splits option.splits)

lemma process_grows:
  assumes E: "cipher_lengths E" and run: "process_streaming_cipher_chunk E chunk is_last w = (r, w')"
  shows "grows_by (if is_Ok r then len chunk else 0) w w'"
proof (cases "upload_decrypt_cipher (xf w)")
  case None
  with run show ?thesis by (auto simp: process_streaming_cipher_chunk_def cipher_decrypt_def grows_by_def bnd_def split: if_splits)
next
  case (Some c)
  show ?thesis
  proof (cases "length chunk = 0 \<or> length chunk mod AES_BLOCK \<noteq> 0")
    case True
    with run show ?thesis by (auto simp: process_streaming_cipher_chunk_def grows_by_def split: if_splits)
  next
    case False
    let ?plain = "aes_cbc_dec E (ci_key c) (ci_iv c) (ci_fed c) chunk"
    let ?comb = "upload_plain_tail (xf w) @ ?plain" and ?k = "length (upload_plain_tail (xf w) @ aes_cbc_dec E (ci_key c) (ci_iv c) (ci_fed c) chunk) - AES_BLOCK"
    let ?v = "w\<lparr>w_sess := (w_sess w)\<lparr>xfer := (xfer (w_sess w))\<lparr>upload_decrypt_cipher := Some (c\<lparr>ci_fed := ci_fed c @ chunk\<rparr>)\<rparr>\<rparr>\<rparr>"
    have len: "len ?comb = len (upload_plain_tail (xf w)) + len chunk" using E by (simp add: cipher_lengths_def)
    have tail: "grows_by (if is_Ok r then len chunk else 0) w w'"
      if "bnd (write_plain_stream E out) (\<lambda>_. upd_xfer (\<lambda>x. x\<lparr>upload_plain_tail := rest\<rparr>)) ?v = (r, w')" "len out + len rest \<le> len ?comb" for out rest
      using that(1)
    proof (cases rule: bnd_cases)
      case (ok x v)
      then show ?thesis using write_grows [OF ok(1)] that(2) len by (auto simp: grows_by_def upd_xfer_def upd_sess_def)
    next
      case (raise e)
      then show ?thesis using write_grows [OF raise(1)] by (simp add: grows_by_def)
    qed
    note defs = process_streaming_cipher_chunk_def cipher_decrypt_def bnd_assoc upd_xfer_def upd_sess_def Let_def
    show ?thesis
    proof (cases is_last)
      case True
      show ?thesis
      proof (cases "unpad E ?comb AES_BLOCK")
        case None
        with run Some False True show ?thesis by (auto simp: defs grows_by_def)
      next
        case (Some u)
        have "length u \<le> length ?comb" using E Some unfolding cipher_lengths_def by blast
        moreover have "bnd (write_plain_stream E u) (\<lambda>_. upd_xfer (\<lambda>x. x\<lparr>upload_plain_tail := []\<rparr>)) ?v = (r, w')"
          using run False True Some \<open>upload_decrypt_cipher (xf w) = Some c\<close> by (simp add: defs)
        ultimately show ?thesis using tail [of u "[]"] by simp
      qed
    next
      case last: False
      show ?thesis
      proof (cases "length ?comb \<le> AES_BLOCK")
        case True
        with run Some False last len show ?thesis by (auto simp: defs grows_by_def)
      next
        case longer: False
        have "bnd (write_plain_stream E (take ?k ?comb)) (\<lambda>_. upd_xfer (\<lambda>x. x\<lparr>upload_plain_tail := drop ?k ?comb\<rparr>)) ?v = (r, w')"
          using run Some False last longer by (simp add: defs del: take_append drop_append)
        then show ?thesis by (rule tail) (simp del: take_append drop_append)
      qed
    qed
  qed
qed

lemma keeps_bounds_finish: "keeps bounds_kept (finish_upload E cid version h)"
  unfolding finish_upload_def by (intro keeps_fits_xfer bounds_rules; simp add: fits_def)

text \<open>The same for outsides whose cipher keeps lengths.\<close>

definition bounds_under :: "env \<Rightarrow> world \<Rightarrow> world \<Rightarrow> bool" where
  "bounds_under E w w' \<longleftrightarrow> (cipher_lengths E \<longrightarrow> bounds_kept w w')"

lemma keeps_under: "keeps bounds_kept m \<Longrightarrow> keeps (bounds_under E) m"
  by (simp add: keeps_def bounds_under_def)

interpretation under: quiet_rel "bounds_under E" E for E
  by unfold_locales (auto simp: bounds_under_def bounds_frame same_core_fields intro: bounds_trans)

interpretation under_auth: auth_rel "bounds_under E" E for E
  by unfold_locales (simp_all add: bounds_under_def bounds_frame under.keeps_hand_out)

text \<open>One chunk of ciphertext, after the checks of its place and size.\<close>

lemma chunk_accepted:
  assumes E: "cipher_lengths E" and size: "expected_content_size (xf w) = Some n" "received_cipher_bytes (xf w) + len (cipher_chunk h) \<le> n"
    and iv: "is_set (transfer_iv (xf w))"
    and run: "bnd (mark_upload_progress E) (\<lambda>_.
      bnd (try_except (bnd (process_streaming_cipher_chunk E (cipher_chunk h) is_last) (\<lambda>_. ret True)) is_ValueError
        (\<lambda>e. bnd (fail_828 E cid version why msg) (\<lambda>_. ret False)))
      (\<lambda>decrypted. if \<not> decrypted then ret ()
        else bnd (upd_xfer (\<lambda>x. x\<lparr>expected_packet_num := Some m, received_cipher_bytes := received_cipher_bytes x + len (cipher_chunk h)\<rparr>))
          (\<lambda>_. if is_last then finish_upload E cid version h else ret ()))) w = (r, w')"
  shows "bounds_kept w w'"
proof -
  obtain w1 where w1: "mark_upload_progress E w = (Ok (), w1)" "w1 = snd (mark_upload_progress E w)"
    by (simp add: mark_upload_progress_def mark_activity_def next_of_def bnd_def upd_xfer_def upd_sess_def)
  have f1: "expected_content_size (xf w1) = Some n" "received_cipher_bytes (xf w1) = received_cipher_bytes (xf w)"
      "is_set (transfer_iv (xf w1))" "bounds_kept w w1"
    using size(1) iv keepsD [OF keeps_bounds_progress w1(1)] w1(2)
    by (simp_all add: mark_upload_progress_def mark_activity_def next_of_def bnd_def upd_xfer_def upd_sess_def)
  obtain pr w2 where p: "process_streaming_cipher_chunk E (cipher_chunk h) is_last w1 = (pr, w2)" by fastforce
  note g = process_grows [OF E p]
  show ?thesis
  proof (cases pr)
    case (Ok u)
    let ?w3 = "w2\<lparr>w_sess := (w_sess w2)\<lparr>xfer := (xfer (w_sess w2))\<lparr>expected_packet_num := Some m,
        received_cipher_bytes := received_cipher_bytes (xf w2) + len (cipher_chunk h)\<rparr>\<rparr>\<rparr>"
    have "(if is_last then finish_upload E cid version h else ret ()) ?w3 = (r, w')"
      using run w1(1) p Ok by (simp add: bnd_def try_except_def upd_xfer_def upd_sess_def)
    then have "bounds_kept ?w3 w'"
      using keepsD [OF keeps_bounds_finish] by (auto simp: bounds_frame split: if_splits)
    moreover have "bounds_kept w1 ?w3"
      using g Ok f1 size(2) by (auto simp: grows_by_def bounds_kept_def fits_def)
    ultimately show ?thesis using f1(4) bounds_trans by blast
  next
    case (Raise e)
    have k: "bounds_kept w1 w2" using g Raise f1 by (auto simp: grows_by_def bounds_kept_def fits_def)
    have "bounds_kept w2 w'"
    proof (cases "is_ValueError e")
      case True
      obtain fr w3 where fl: "fail_828 E cid version why msg w2 = (fr, w3)" by fastforce
      with run w1(1) p Raise True have "w' = w3" by (cases fr) (auto simp: bnd_def try_except_def)
      with keepsD [OF keeps_bounds_fail fl] show ?thesis by simp
    next
      case False
      with run w1(1) p Raise show ?thesis by (auto simp: bnd_def try_except_def bounds_frame)
    qed
    with k f1(4) show ?thesis using bounds_trans by blast
  qed
qed

lemma receive_chunk_bounds:
  assumes E: "cipher_lengths E" and iv: "is_set (transfer_iv (xf w))" and run: "receive_chunk E cid version h w = (r, w')"
  shows "bounds_kept w w'"
proof (cases "total_packets h = 0 \<or> expected_content_size (xf w) = None \<or> expected_packet_num (xf w) = None")
  case True
  then have "snd (receive_chunk E cid version h w) = w"
    by (cases "total_packets h = 0"; cases "expected_content_size (xf w)"; cases "expected_packet_num (xf w)")
      (simp_all add: receive_chunk_def draw_progress_def)
  with run show ?thesis by (simp add: bounds_frame)
next
  case False
  then obtain n m where nm: "expected_content_size (xf w) = Some n" "expected_packet_num (xf w) = Some m" by auto
  show ?thesis
  proof (cases "received_cipher_bytes (xf w) + len (cipher_chunk h) > n \<or> packet_num h \<noteq> m")
    case True
    then have "\<exists>why msg. receive_chunk E cid version h w = fail_828 E cid version why msg w"
      using False nm by (auto simp: receive_chunk_def draw_progress_def)
    with run keepsD [OF keeps_bounds_fail] show ?thesis by metis
  next
    case ok: False
    define why where "why = ''streaming decrypt failed: '' @ streaming_error (cipher_chunk h)"
    define msg where "msg = ''bad 828: streaming decrypt failed''"
    define is_last where "is_last \<longleftrightarrow> packet_num h = total_packets h"
    from ok have size: "received_cipher_bytes (xf w) + len (cipher_chunk h) \<le> n" and num: "\<not> packet_num h \<noteq> m" by auto
    note run' = run [unfolded receive_chunk_def draw_progress_def, folded why_def msg_def is_last_def]
    show ?thesis
      by (rule chunk_accepted [where m = "m + 1" and why = why and msg = msg and is_last = is_last and cid = cid
            and version = version and h = h and r = r, OF E nm(1) size iv])
        (use run' nm size num False in simp)
  qed
qed

text \<open>A step that goes on (returns \<open>True\<close>) has left the IV in place.\<close>

definition iv_kept :: "world \<Rightarrow> world \<Rightarrow> bool" where
  "iv_kept w w' \<longleftrightarrow> transfer_iv (xf w') = transfer_iv (xf w)"

interpretation iv: quiet_rel iv_kept E for E
  by unfold_locales (simp_all add: iv_kept_def same_core_fields)

definition goes_on :: "bool act \<Rightarrow> bool" where
  "goes_on m \<longleftrightarrow> (\<forall>w w'. m w = (Ok True, w') \<longrightarrow> iv_kept w w')"

lemma goes_on_bnd: "keeps iv_kept m \<Longrightarrow> (\<And>x. goes_on (k x)) \<Longrightarrow> goes_on (bnd m k)"
  unfolding goes_on_def by (intro allI impI, erule bnd_cases) (blast dest: keepsD intro: iv.R_trans, simp)

lemma goes_on_rules:
  "goes_on (throw e)" "goes_on (ret b)" "goes_on (bnd m (\<lambda>_. ret False))"
  "(\<And>w. goes_on (f w)) \<Longrightarrow> goes_on (rd f)" "goes_on n \<Longrightarrow> goes_on n' \<Longrightarrow> goes_on (if b then n else n')"
  "goes_on n \<Longrightarrow> (\<And>a. goes_on (g a)) \<Longrightarrow> goes_on (case y of None \<Rightarrow> n | Some a \<Rightarrow> g a)"
  "(\<And>a c. goes_on (j a c)) \<Longrightarrow> goes_on (case z of (a, c) \<Rightarrow> j a c)"
  by (auto simp: goes_on_def iv_kept_def bnd_def split: option.split prod.splits res.splits)

lemma iv_xfer: "(\<And>x. transfer_iv (f x) = transfer_iv x) \<Longrightarrow> keeps iv_kept (upd_xfer f)"
  by (simp add: keeps_def upd_xfer_def upd_sess_def iv_kept_def)

lemma iv_basic:
  "keeps iv_kept (on_fs E op)" "keeps iv_kept (on_store op')" "keeps iv_kept (mark_upload_progress E)"
  "keeps iv_kept (upd_sess (\<lambda>s. s\<lparr>has_upload_slot := b\<rparr>))" "keeps iv_kept (upd_metrics g)"
  "keeps iv_kept (upd (\<lambda>w. w\<lparr>w_limiter := l w\<rparr>))"
proof -
  show "keeps iv_kept (on_fs E op)"
    unfolding on_fs_def by (intro iv.quiet_rules) (simp add: keeps_def split_beta iv_kept_def)
  show "keeps iv_kept (mark_upload_progress E)"
    unfolding mark_upload_progress_def block.simps by (intro iv_xfer iv.quiet_rules) simp
qed (simp_all add: keeps_def on_store_def split_beta upd_sess_def upd_metrics_def iv_kept_def)

lemma start_goes_on: "goes_on (start_upload E cid version h)"
  unfolding start_upload_def block.simps Let_def
  by (intro goes_on_rules goes_on_bnd iv_basic iv_xfer iv.quiet_rules; simp)

lemma acquire_goes_on: "goes_on (acquire_upload_slot E cid version)"
  unfolding acquire_upload_slot_def block.simps
  by (intro goes_on_rules goes_on_bnd iv_basic iv.quiet_rules)

lemma one_refusal:
  "a \<or> b \<or> c \<or> d \<or> e \<Longrightarrow> \<exists>x y. (if a then F x1 y1 else if b then F x2 y2 else if c then F x3 y3
     else if d then F x4 y4 else if e then F x5 y5 else g) w = F x y w"
  by (cases a; cases b; cases c; cases d; simp) blast+

lemma no_refusal:
  "\<not> (a \<or> b \<or> c \<or> d \<or> e) \<Longrightarrow> (if a then x1 else if b then x2 else if c then x3 else if d then x4 else if e then x5 else g) = g"
  by simp

lemma data_packet_bounds: "keeps (bounds_under E) (data_packet E cid version h)"
proof (rule keepsI)
  fix w r w' assume run: "data_packet E cid version h w = (r, w')"
  show "bounds_under E w w'" unfolding bounds_under_def
  proof
    assume E: "cipher_lengths E"
    show "bounds_kept w w'"
    proof (cases "\<not> is_set (transfer_iv (xf w)) \<or> expected_packet_num (xf w) = None \<or> expected_packet_num (xf w) = Some 0 \<or>
        Some (total_packets h) \<noteq> expected_total_packets (xf w) \<or> Some (content_size h) \<noteq> expected_content_size (xf w) \<or>
        Some (orig_file_size h) \<noteq> expected_orig_file_size (xf w) \<or> len (cipher_chunk h) > max_chunk_size (cfg w)")
      case True
      then have "\<exists>why msg. data_packet E cid version h w = fail_828 E cid version why msg w"
        unfolding data_packet_def rd_apply by (intro one_refusal) blast
      with run keepsD [OF keeps_bounds_fail] show ?thesis by metis
    next
      case ok: False
      then have iv: "is_set (transfer_iv (xf w))" by simp
      let ?first = "bnd (acquire_upload_slot E cid version) (\<lambda>acquired. if \<not> acquired then ret ()
          else bnd (start_upload E cid version h) (\<lambda>started. if \<not> started then ret () else receive_chunk E cid version h))"
      have served: "(if packet_num h = 1 then ?first else receive_chunk E cid version h) w = (r, w')"
        using run [unfolded data_packet_def rd_apply] by (subst (asm) no_refusal) (use ok in blast)+
      show ?thesis
      proof (cases "packet_num h = 1")
        case False
        with served receive_chunk_bounds [OF E iv] show ?thesis by simp
      next
        case one: True
        then have first: "?first w = (r, w')" using served by simp
        obtain ra w1 where a: "acquire_upload_slot E cid version w = (ra, w1)" by fastforce
        obtain rs w2 where s: "start_upload E cid version h w1 = (rs, w2)" by fastforce
        have k: "bounds_kept w w1" "bounds_kept w1 w2" "bounds_kept w w2"
          using keepsD [OF keeps_bounds_acquire a] keepsD [OF keeps_bounds_start s] bounds_trans by blast+
        show ?thesis
        proof (cases "ra = Ok True \<and> rs = Ok True")
          case True
          then have "is_set (transfer_iv (xf w2))"
            using a s iv acquire_goes_on start_goes_on unfolding goes_on_def iv_kept_def by metis
          moreover have "receive_chunk E cid version h w2 = (r, w')" using first a s True by (simp add: bnd_def)
          ultimately show ?thesis using receive_chunk_bounds [OF E] k(3) bounds_trans by blast
        next
          case False
          then have "w' = w1 \<or> w' = w2"
            using first a s by (auto simp: bnd_def split: res.splits if_splits)
          with k show ?thesis by auto
        qed
      qed
    qed
  qed
qed

section \<open>Every request\<close>

lemma validate_header_bounds: "validate_header c pnum ptotal content orig = None \<Longrightarrow> 0 < content \<and> content \<le> max_file_size c"
  by (simp add: validate_header_def split: if_splits)

lemma packet_zero_bounds:
  "validate_header (cfg w) pnum ptotal (content_size h) orig = None \<Longrightarrow> packet_zero E cid version h w = (r, w') \<Longrightarrow> bounds_kept w w'"
  using keepsD [OF keeps_bounds_zero] validate_header_bounds by (metis order_less_imp_le)

lemma bounds_rest_828:
  assumes "packet_num h = pnum" "total_packets h = ptotal" "content_size h = content" "orig_file_size h = orig"
  shows "keeps (bounds_under E) (rd (\<lambda>w. if upload_client_id_hex (xf w) \<noteq> Some (bytes_hex cid)
      then reject_828 E cid version ''bad 828: client mismatch during upload''
    else case validate_header (cfg w) pnum ptotal content orig of
      Some (reason, msg) \<Rightarrow> bnd (try_except (answer_1607 E cid version (lit msg)) any_exn (\<lambda>_. ret ()))
        (\<lambda>_. bnd release_upload_slot (\<lambda>_. bnd (reset_transfer_state E) (\<lambda>_. ret ())))
    | None \<Rightarrow> if pnum = 0 then packet_zero E cid version h else data_packet E cid version h))"
  (is "keeps _ (rd ?f)")
proof (rule keepsI)
  fix w r w' assume run: "rd ?f w = (r, w')"
  show "bounds_under E w w'"
  proof (cases "upload_client_id_hex (xf w) = Some (bytes_hex cid) \<and> pnum = 0 \<and>
      validate_header (cfg w) pnum ptotal content orig = None")
    case True
    then have "packet_zero E cid version h w = (r, w')" using run by (simp split: option.splits)
    with True assms(3) packet_zero_bounds show ?thesis unfolding bounds_under_def by blast
  next
    case False
    have "keeps bounds_kept (bnd (try_except (answer_1607 E cid version (lit msg)) any_exn (\<lambda>_. ret ()))
        (\<lambda>_. bnd release_upload_slot (\<lambda>_. bnd (reset_transfer_state E) (\<lambda>_. ret ()))))" for msg
      by (intro bounds_rules)
    note k = keeps_under [OF this, THEN keepsD] keeps_under [OF keeps_bounds_reject, THEN keepsD] keepsD [OF data_packet_bounds]
    from False run show ?thesis by (auto split: if_splits option.splits intro: k)
  qed
qed

lemma bounds_828: "keeps (bounds_under E) (request_828 E payload version cid)"
proof -
  note k = keeps_under [OF keeps_bounds_release] keeps_under [OF keeps_bounds_reset]
    keeps_under [OF keeps_bounds_reject] keeps_under [OF keeps_bounds_bind]
  show ?thesis unfolding request_828_def block.simps Let_def
    by (intro under.keeps_bnd under.keeps_if under.keeps_ret under.keeps_case_prod under.keeps_case_option k bounds_rest_828; simp)
qed

lemma bounds_verdicts:
  "keeps bounds_kept (request_900 E payload version cid)" "keeps bounds_kept (request_901 E payload version cid)"
  "keeps bounds_kept (request_902 E payload version cid)"
  unfolding request_900_def request_901_def request_902_def block.simps Let_def by (intro bounds_rules)+

interpretation bounds_serve: dispatch_rel "bounds_under E" E for E
proof unfold_locales
  show "keeps (bounds_under E) (request_826 E cid payload version)" for cid payload version
    by (rule keeps_under [OF bounds_auth.keeps_request_826]) (simp add: bounds_frame)
  show "keeps (bounds_under E) (request_829 E payload version cid)" for cid payload version
    by (rule keeps_under [OF bounds.keeps_request_829]) (simp_all add: bounds_frame)
  show "keeps (bounds_under E) (request_830 E payload version cid)" for cid payload version
    by (rule keeps_under [OF bounds.keeps_request_830]) (simp add: bounds_frame)
qed (intro bounds_828 keeps_under [OF keeps_bounds_reset] keeps_under [OF bounds_verdicts(1)]
    keeps_under [OF bounds_verdicts(2)] keeps_under [OF bounds_verdicts(3)])+

end
