(* ===== verification/Server_Space.thy ===== *)
theory Server_Space
  imports Server Upload_Bounds
begin

text \<open>
  The space a running server can be made to use: what \<open>Upload_Bounds\<close> shows of one frame, for
  every connection of every state the server reaches, and for all of them together.
\<close>

interpretation bounds_loop: loop_rel "bounds_under E" E for E
  by unfold_locales (simp_all add: bounds_under_def bounds_frame)

definition tasks_fit :: "server \<Rightarrow> bool" where
  "tasks_fit sv \<longleftrightarrow> (\<forall>t \<in> set (sv_tasks sv). s_config (t_sess t) = sv_config sv \<and> fits (sv_config sv) (xfer (t_sess t)))"

lemma turn_fits:
  assumes "cipher_lengths E" and "loop_guard (loop_iteration E ev) (task_world sv s out) = (r, w)"
    and "s_config s = c" "fits c (xfer s)"
  shows "s_config (w_sess w) = c \<and> fits c (xf w)"
  using keepsD [OF bounds_loop.keeps_loop_guard [OF bounds_loop.keeps_loop_iteration] assms(2)] assms
  by (simp add: bounds_under_def bounds_kept_def)

lemma new_session_fits: "new_session E sv = Ok s \<Longrightarrow> s_config s = sv_config sv \<and> fits (sv_config sv) (xfer s)"
  by (auto simp: new_session_def session_init_def split: res.splits)

lemma step_fits:
  assumes "server_step E sv sv'" and E: "cipher_lengths E" and inv: "tasks_fit sv"
  shows "tasks_fit sv'"
  using assms(1)
proof (cases rule: server_step.cases)
  case (admit s ip w)
  then have "w_sess w = s" by (auto simp: accept_run split: prod.splits if_splits)
  with admit(1) inv new_session_fits [OF admit(2)] show ?thesis by (auto simp: tasks_fit_def)
next
  case (iterate i t ev w)
  have "s_config (w_sess w) = sv_config sv \<and> fits (sv_config sv) (xf w)"
    by (rule turn_fits [OF E iterate(4)]) (use inv iterate(2,3) in \<open>auto simp: tasks_fit_def\<close>)
  with iterate(1) inv show ?thesis by (auto simp: tasks_fit_def dest!: set_update_subset_insert [THEN subsetD])
next
  case (leave i t ev c w w')
  have "set (remove_nth i (sv_tasks sv)) \<subseteq> set (sv_tasks sv)" by (auto dest: in_set_takeD in_set_dropD)
  with leave(1) inv show ?thesis by (auto simp: tasks_fit_def)
qed (use inv in \<open>simp add: tasks_fit_def\<close>)

text \<open>The plaintext a connection has on disk or holds back.\<close>

definition upload_space :: "client_task \<Rightarrow> int" where
  "upload_space t = upload_plain_bytes_written (xfer (t_sess t)) + len (upload_plain_tail (xfer (t_sess t)))"

lemma space_of_all:
  assumes "\<forall>t \<in> set ts. f t \<le> (b :: int)" and "len ts \<le> n" and "0 \<le> b"
  shows "sum_list (map f ts) \<le> n * b"
proof -
  have "sum_list (map f ts) \<le> len ts * b"
    using assms(1) by (induction ts) (auto simp: algebra_simps)
  also have "\<dots> \<le> n * b" using assms(2,3) by (rule mult_right_mono)
  finally show ?thesis .
qed

text \<open>C7: clients cannot fill the disk with one upload: in every state the server reaches, each open connection
  has accepted no more ciphertext than its upload announced and no more than the configured
  maximum, and has written and buffered no more plaintext than it has accepted ciphertext;
  all open uploads together take at most the configured number of connections times that
  maximum. The cipher is only assumed to keep lengths and unpadding not to add to them.\<close>

theorem server_space_bounded:
  assumes start: "main_start conf init db key fs tick = Ok sv0" and run: "(server_step E)\<^sup>*\<^sup>* sv0 sv"
    and E: "cipher_lengths E" and size: "0 \<le> max_file_size (sv_config sv)"
  shows "(\<forall>t \<in> set (sv_tasks sv). let x = xfer (t_sess t) in
      0 \<le> upload_space t \<and> upload_space t \<le> received_cipher_bytes x \<and> received_cipher_bytes x \<le> max_file_size (sv_config sv) \<and>
      (\<forall>n. expected_content_size x = Some n \<longrightarrow> received_cipher_bytes x \<le> n \<and> n \<le> max_file_size (sv_config sv))) \<and>
    sum_list (map upload_space (sv_tasks sv)) \<le> cfg_max_connections (sv_config sv) * max_file_size (sv_config sv)"
proof -
  have "tasks_fit sv0" using main_start_inv(2) [OF start] by (simp add: tasks_fit_def)
  with run E have "tasks_fit sv" by (induction rule: rtranclp_induct) (auto dest: step_fits)
  then have each: "0 \<le> upload_space t \<and> upload_space t \<le> received_cipher_bytes (xfer (t_sess t)) \<and>
      received_cipher_bytes (xfer (t_sess t)) \<le> max_file_size (sv_config sv) \<and>
      (\<forall>n. expected_content_size (xfer (t_sess t)) = Some n \<longrightarrow> received_cipher_bytes (xfer (t_sess t)) \<le> n \<and> n \<le> max_file_size (sv_config sv))"
    if "t \<in> set (sv_tasks sv)" for t
    using that size by (cases "expected_content_size (xfer (t_sess t))") (auto simp: tasks_fit_def fits_def upload_space_def)
  have "server_inv sv" "sv_config sv = sv_config sv0" using server_run_inv [OF run] main_start_inv(1) [OF start] by simp_all
  then have "len (sv_tasks sv) \<le> cfg_max_connections (sv_config sv)"
    using main_start_inv(3) [OF start] by (auto simp: server_inv_def conn_slots.ledger_def)
  moreover have "\<forall>t \<in> set (sv_tasks sv). upload_space t \<le> max_file_size (sv_config sv)" using each order_trans by blast
  ultimately have "sum_list (map upload_space (sv_tasks sv)) \<le> cfg_max_connections (sv_config sv) * max_file_size (sv_config sv)"
    using size space_of_all by blast
  with each show ?thesis by (simp add: Let_def)
qed

lemma env_example_lengths: "cipher_lengths env_example"
  by (auto simp: cipher_lengths_def pkcs7_unpad_def Let_def split: if_splits)

theorem server_space_bounded_witness:
  "\<exists>sv. (server_step env_example)\<^sup>*\<^sup>* server_example sv \<and> length (sv_tasks sv) = 1 \<and>
     sum_list (map upload_space (sv_tasks sv)) \<le> cfg_max_connections (sv_config sv) * max_file_size (sv_config sv)"
proof -
  obtain sv where sv: "server_step env_example server_example sv" "length (sv_tasks sv) = 1" using server_example_step by blast
  have "server_inv server_example" using main_start_inv(1) [OF server_example_start] .
  then have "sv_config sv = config_example" using server_step_inv [OF sv(1)] by (simp add: server_example_def)
  then have "0 \<le> max_file_size (sv_config sv)" by (simp add: config_example_def Config_new_def)
  from server_space_bounded [OF server_example_start r_into_rtranclp [where r = "server_step env_example", OF sv(1)] env_example_lengths this] sv
  show ?thesis by blast
qed

end
