(* ===== verification/Logging.thy ===== *)
theory Logging
  imports Prelude
begin

text \<open>
  The log of the server (\<open>server/src/logging_setup.py\<close>): the logger of the process, the
  formatter that supplies missing identifiers, the adapter a session logs through, and what
  the \<open>logging\<close> module does with them: the level tests, the message put together from its
  arguments, the \<open>%\<close> style of a format, the line on standard output, and \<open>handleError\<close>, which reports on
  standard error what formatting or writing raises. The text of the time of a record is an argument.
\<close>

section \<open>Levels and format strings\<close>

definition LEVELS :: "(pystr \<times> int) list" where
  "LEVELS = [(lit ''CRITICAL'', 50), (lit ''ERROR'', 40), (lit ''WARNING'', 30), (lit ''INFO'', 20), (lit ''DEBUG'', 10)]"

text \<open>\<open>logging.getLevelName\<close>.\<close>

definition level_name :: "(int \<Rightarrow> pystr) \<Rightarrow> int \<Rightarrow> pystr" where
  "level_name str_int n = (case map_of (map (\<lambda>(k, v). (v, k)) LEVELS) n of
     Some name \<Rightarrow> name | None \<Rightarrow> lit ''Level '' @ str_int n)"

text \<open>
  \<open>str.upper()\<close> as far as the lookup in \<open>LEVELS\<close> can tell: the only characters beyond ASCII
  whose upper case is made of letters that occur next to each other in a level's name is the
  dotless i.
\<close>

definition upper_cp :: "nat \<Rightarrow> nat" where
  "upper_cp c = (if 97 \<le> c \<and> c \<le> 122 then c - 32 else if c = 305 then 73 else c)"

text \<open>
  \<open>format % values\<close> for a format whose conversions are \<open>%(key)s\<close>; \<open>KeyError\<close> for a key the
  record does not have.
\<close>

fun percent :: "(pystr \<times> pystr) list \<Rightarrow> pystr \<Rightarrow> pystr res" and
    percent_key :: "(pystr \<times> pystr) list \<Rightarrow> pystr \<Rightarrow> pystr \<Rightarrow> pystr res" where
  "percent d [] = Ok []"
| "percent d (c # cs) = (if c \<noteq> 37 then res_bnd (percent d cs) (\<lambda>t. Ok (c # t))
     else case cs of
         [] \<Rightarrow> Raise ValueError
       | p # ps \<Rightarrow> if p = 40 then percent_key d [] ps else Raise ValueError)"
| "percent_key d key [] = Raise ValueError"
| "percent_key d key (c # cs) = (if c \<noteq> 41 then percent_key d (key @ [c]) cs
     else case cs of
         [] \<Rightarrow> Raise ValueError
       | s # ss \<Rightarrow> if s \<noteq> 115 then Raise ValueError
           else (case map_of d key of
               None \<Rightarrow> Raise KeyError
             | Some v \<Rightarrow> res_bnd (percent d ss) (\<lambda>t. Ok (v @ t))))"

text \<open>
  An argument of a logging call: its \<open>str\<close>, its \<open>repr\<close>, what \<open>%d\<close> makes of it (nothing for what is no number), and whether it is
  a mapping with entries.
\<close>

record log_arg =
  arg_str :: pystr
  arg_repr :: pystr
  arg_decimal :: "pystr option"
  arg_mapping :: bool

text \<open>
  What is left to Python: the text of an integer, and formatting from a \<open>%\<close> on whose conversion is none of the \<open>%s\<close>, \<open>%r\<close>,
  \<open>%d\<close> and \<open>%%\<close> that the program's messages have.
\<close>

record py_fmt =
  pf_int :: "int \<Rightarrow> pystr"
  pf_other :: "pystr \<Rightarrow> log_arg list \<Rightarrow> pystr res"

text \<open>
  \<open>msg % args\<close>: \<open>TypeError\<close> for too few arguments and, unless \<open>lenient\<close>, for too many.
\<close>

fun percent_args :: "py_fmt \<Rightarrow> bool \<Rightarrow> pystr \<Rightarrow> log_arg list \<Rightarrow> pystr res" where
  "percent_args F lenient [] args = (if args = [] \<or> lenient then Ok [] else Raise TypeError)"
| "percent_args F lenient [c] args = (if c = 37 then Raise ValueError else res_bnd (percent_args F lenient [] args) (\<lambda>t. Ok (c # t)))"
| "percent_args F lenient (c # k # cs) args =
     (if c \<noteq> 37 then res_bnd (percent_args F lenient (k # cs) args) (\<lambda>t. Ok (c # t))
      else if k = 37 then res_bnd (percent_args F lenient cs args) (\<lambda>t. Ok (37 # t))
      else if k \<notin> {115, 114, 100} then pf_other F (k # cs) args
      else case args of
          [] \<Rightarrow> Raise TypeError
        | a # as \<Rightarrow>
            (case (if k = 115 then Some (arg_str a) else if k = 114 then Some (arg_repr a) else arg_decimal a) of
                None \<Rightarrow> Raise TypeError
              | Some text \<Rightarrow> res_bnd (percent_args F lenient cs as) (\<lambda>t. Ok (text @ t))))"

section \<open>Records and the formatter\<close>

record log_record =
  lr_asctime :: pystr
  lr_level :: int
  lr_name :: pystr
  lr_msg :: pystr
  lr_args :: "log_arg list"
  lr_exc_text :: pystr
  lr_attrs :: "(pystr \<times> pystr) list"

text \<open>\<open>hasattr\<close> and \<open>dict.setdefault\<close>.\<close>

definition has_key :: "(pystr \<times> 'v) list \<Rightarrow> pystr \<Rightarrow> bool" where
  "has_key d k \<longleftrightarrow> map_of d k \<noteq> None"

definition setdefault :: "pystr \<Rightarrow> 'v \<Rightarrow> (pystr \<times> 'v) list \<Rightarrow> (pystr \<times> 'v) list" where
  "setdefault k v d = (if has_key d k then d else d @ [(k, v)])"

text \<open>\<open>record.getMessage()\<close>: a message without arguments is taken as it is; a mapping that is the only argument takes the place of
  the tuple.\<close>

definition getMessage :: "py_fmt \<Rightarrow> pystr \<Rightarrow> log_arg list \<Rightarrow> pystr res" where
  "getMessage F msg args = (if args = [] then Ok msg
     else percent_args F (length args = 1 \<and> arg_mapping (hd args)) msg args)"

text \<open>\<open>logging.Formatter.format\<close>: the message, then the format over the record's attributes, then the traceback.\<close>

definition record_dict :: "(int \<Rightarrow> pystr) \<Rightarrow> log_record \<Rightarrow> pystr \<Rightarrow> (pystr \<times> pystr) list" where
  "record_dict str_int r message = [(lit ''asctime'', lr_asctime r), (lit ''levelname'', level_name str_int (lr_level r)),
     (lit ''name'', lr_name r), (lit ''message'', message)] @ lr_attrs r"

definition formatter_format :: "py_fmt \<Rightarrow> pystr \<Rightarrow> log_record \<Rightarrow> pystr res" where
  "formatter_format F fmt r = res_bnd (getMessage F (lr_msg r) (lr_args r)) (\<lambda>message.
     res_bnd (percent (record_dict (pf_int F) r message) fmt) (\<lambda>s.
     Ok (if lr_exc_text r = [] then s else if last s = 10 then s @ lr_exc_text r else s @ [10] @ lr_exc_text r)))"

definition ensure_attr :: "pystr \<Rightarrow> log_record \<Rightarrow> log_record" where
  "ensure_attr k r = (if \<not> has_key (lr_attrs r) k then r\<lparr>lr_attrs := lr_attrs r @ [(k, lit ''-'')]\<rparr> else r)"

definition SafeFormatter_format :: "py_fmt \<Rightarrow> pystr \<Rightarrow> log_record \<Rightarrow> pystr res" where
  "SafeFormatter_format F fmt r =
     formatter_format F fmt (ensure_attr (lit ''request_id'') (ensure_attr (lit ''connection_id'') r))"

section \<open>Loggers and adapters\<close>

record handler =
  h_level :: int
  h_format :: pystr

record logger =
  lg_level :: int
  lg_propagate :: bool
  lg_handlers :: "handler list"

text \<open>The state of the module and the two streams; \<open>stdout_refuses\<close> says what writing a text raises, and then nothing of it is written.\<close>

record logging =
  loggers :: "pystr \<rightharpoonup> logger"
  stdout_refuses :: "pystr \<Rightarrow> exn option"
  stdout_text :: pystr
  stderr_reports :: "exn list"

definition LOGGER_NAME :: pystr where "LOGGER_NAME = lit ''seftp.server''"

definition LOG_FORMAT :: pystr where
  "LOG_FORMAT = lit ''%(asctime)s %(levelname)s %(name)s conn=%(connection_id)s req=%(request_id)s %(message)s''"

definition getLogger :: "pystr \<Rightarrow> logging \<Rightarrow> logger" where
  "getLogger name L = (case loggers L name of
     Some lg \<Rightarrow> lg | None \<Rightarrow> \<lparr>lg_level = 0, lg_propagate = True, lg_handlers = []\<rparr>)"

definition setup_logging :: "pystr \<Rightarrow> logging \<Rightarrow> logging" where
  "setup_logging level_str L =
     (let level = (case map_of LEVELS (map upper_cp level_str) of Some n \<Rightarrow> n | None \<Rightarrow> 20);
          lg = (getLogger LOGGER_NAME L)\<lparr>lg_level := level, lg_propagate := False\<rparr>;
          lg' = (if lg_handlers lg = []
                 then lg\<lparr>lg_handlers := lg_handlers lg @ [\<lparr>h_level = level, h_format = LOG_FORMAT\<rparr>]\<rparr> else lg)
      in L\<lparr>loggers := (loggers L)(LOGGER_NAME \<mapsto> lg')\<rparr>)"

record log_adapter =
  ad_logger :: pystr
  ad_connection_id :: "pystr option"
  ad_request_id :: "pystr option"

definition make_session_logger :: "pystr \<Rightarrow> pystr \<Rightarrow> log_adapter" where
  "make_session_logger base_logger connection_id =
     \<lparr>ad_logger = base_logger, ad_connection_id = Some connection_id, ad_request_id = Some (lit ''-'')\<rparr>"

record log_kwargs =
  kw_extra :: "(pystr \<times> pystr) list option"
  kw_exc_text :: pystr

definition attr_or_dash :: "pystr option \<Rightarrow> pystr" where
  "attr_or_dash a = (case a of Some v \<Rightarrow> v | None \<Rightarrow> lit ''-'')"

definition adapter_process :: "log_adapter \<Rightarrow> pystr \<Rightarrow> log_kwargs \<Rightarrow> pystr \<times> log_kwargs" where
  "adapter_process ad msg kwargs =
     (let extra = (case kw_extra kwargs of Some d \<Rightarrow> d | None \<Rightarrow> []);
          extra' = setdefault (lit ''request_id'') (attr_or_dash (ad_request_id ad))
                     (setdefault (lit ''connection_id'') (attr_or_dash (ad_connection_id ad)) extra)
      in (msg, kwargs\<lparr>kw_extra := Some extra'\<rparr>))"

text \<open>
  A record at a handler: its level test, the line, and \<open>handleError\<close> where formatting or writing raises.
  A logger passes a record on to the root logger only while \<open>propagate\<close> holds; \<open>to_root\<close> is
  what the root logger does with it.
\<close>

definition handle_error :: "exn \<Rightarrow> logging \<Rightarrow> logging" where
  "handle_error e L = L\<lparr>stderr_reports := stderr_reports L @ [e]\<rparr>"

definition stream_write :: "pystr \<Rightarrow> logging \<Rightarrow> logging" where
  "stream_write text L = (case stdout_refuses L text of
     None \<Rightarrow> L\<lparr>stdout_text := stdout_text L @ text\<rparr> | Some e \<Rightarrow> handle_error e L)"

definition handler_handle :: "py_fmt \<Rightarrow> log_record \<Rightarrow> logging \<Rightarrow> handler \<Rightarrow> logging" where
  "handler_handle F r L h = (if lr_level r < h_level h then L
     else case SafeFormatter_format F (h_format h) r of
         Ok line \<Rightarrow> stream_write (line @ [10]) L
       | Raise e \<Rightarrow> handle_error e L)"

definition logger_log :: "py_fmt \<Rightarrow> (log_record \<Rightarrow> logging \<Rightarrow> logging) \<Rightarrow> pystr \<Rightarrow> pystr \<Rightarrow> int \<Rightarrow> pystr \<Rightarrow> log_arg list \<Rightarrow> log_kwargs \<Rightarrow>
    logging \<Rightarrow> logging" where
  "logger_log F to_root asctime name level msg args kwargs L =
     (let lg = getLogger name L;
          r = \<lparr>lr_asctime = asctime, lr_level = level, lr_name = name, lr_msg = msg, lr_args = args,
               lr_exc_text = kw_exc_text kwargs, lr_attrs = (case kw_extra kwargs of Some d \<Rightarrow> d | None \<Rightarrow> [])\<rparr>
      in if level < lg_level lg then L
         else let L' = foldl (handler_handle F r) L (lg_handlers lg)
              in if lg_propagate lg then to_root r L' else L')"

definition adapter_log :: "py_fmt \<Rightarrow> (log_record \<Rightarrow> logging \<Rightarrow> logging) \<Rightarrow> pystr \<Rightarrow> log_adapter \<Rightarrow> int \<Rightarrow> pystr \<Rightarrow> log_arg list \<Rightarrow> log_kwargs \<Rightarrow>
    logging \<Rightarrow> logging" where
  "adapter_log F to_root asctime ad level msg args kwargs L =
     (if level < lg_level (getLogger (ad_logger ad) L) then L
      else let (msg', kwargs') = adapter_process ad msg kwargs
           in logger_log F to_root asctime (ad_logger ad) level msg' args kwargs' L)"

definition fresh_logging :: logging where
  "fresh_logging = \<lparr>loggers = (\<lambda>_. None), stdout_refuses = (\<lambda>_. None), stdout_text = [], stderr_reports = []\<rparr>"

section \<open>Setting up\<close>

definition level_of :: "pystr \<Rightarrow> int" where
  "level_of level_str = (case map_of LEVELS (map upper_cp level_str) of Some n \<Rightarrow> n | None \<Rightarrow> 20)"

lemma getLogger_setup:
  "getLogger LOGGER_NAME (setup_logging s L) =
     (let hs = lg_handlers (getLogger LOGGER_NAME L) in
      \<lparr>lg_level = level_of s, lg_propagate = False,
       lg_handlers = (if hs = [] then [\<lparr>h_level = level_of s, h_format = LOG_FORMAT\<rparr>] else hs)\<rparr>)"
  by (cases "getLogger LOGGER_NAME L") (simp add: setup_logging_def getLogger_def Let_def level_of_def)

lemma fresh_no_handlers [simp]: "lg_handlers (getLogger LOGGER_NAME fresh_logging) = []"
  by (simp add: fresh_logging_def getLogger_def)

lemma setup_text [simp]: "stdout_text (setup_logging s L) = stdout_text L"
  by (simp add: setup_logging_def Let_def)

lemma setups_handlers:
  "lg_handlers (getLogger LOGGER_NAME (foldl (\<lambda>L s. setup_logging s L) L ss)) =
     (case ss of [] \<Rightarrow> lg_handlers (getLogger LOGGER_NAME L)
      | s # _ \<Rightarrow> lg_handlers (getLogger LOGGER_NAME (setup_logging s L)))"
proof (induction ss arbitrary: L)
  case (Cons s ss)
  then show ?case by (cases ss) (simp_all add: getLogger_setup Let_def)
qed simp

section \<open>Lines\<close>

lemma percent_LOG_FORMAT:
  assumes "map_of d (lit ''asctime'') = Some a" "map_of d (lit ''levelname'') = Some l"
    "map_of d (lit ''name'') = Some n" "map_of d (lit ''connection_id'') = Some c"
    "map_of d (lit ''request_id'') = Some q" "map_of d (lit ''message'') = Some m"
  shows "percent d LOG_FORMAT = Ok (a @ lit '' '' @ l @ lit '' '' @ n @ lit '' conn='' @ c @ lit '' req='' @ q @ lit '' '' @ m)"
  using assms by (simp add: LOG_FORMAT_def lit_def res_bnd_def)

text \<open>The line of a record: time, level, logger, the two identifiers, the message, and a traceback.\<close>

definition log_line :: "(int \<Rightarrow> pystr) \<Rightarrow> pystr \<Rightarrow> int \<Rightarrow> pystr \<Rightarrow> pystr \<Rightarrow> pystr \<Rightarrow> pystr" where
  "log_line str_int asctime level conn req msg =
     asctime @ lit '' '' @ level_name str_int level @ lit '' '' @ LOGGER_NAME @ lit '' conn='' @ conn @ lit '' req='' @ req @ lit '' '' @ msg"

definition with_traceback :: "pystr \<Rightarrow> pystr \<Rightarrow> pystr" where
  "with_traceback s tb = (if tb = [] then s else if last s = 10 then s @ tb else s @ [10] @ tb)"

lemma names_distinct [simp]:
  "lit ''connection_id'' \<noteq> lit ''request_id''"
  "lit ''asctime'' \<noteq> lit ''levelname''" "lit ''asctime'' \<noteq> lit ''name''" "lit ''asctime'' \<noteq> lit ''message''"
  "lit ''levelname'' \<noteq> lit ''name''" "lit ''levelname'' \<noteq> lit ''message''" "lit ''name'' \<noteq> lit ''message''"
  "lit ''connection_id'' \<noteq> lit ''asctime''" "lit ''connection_id'' \<noteq> lit ''levelname''"
  "lit ''connection_id'' \<noteq> lit ''name''" "lit ''connection_id'' \<noteq> lit ''message''"
  "lit ''request_id'' \<noteq> lit ''asctime''" "lit ''request_id'' \<noteq> lit ''levelname''"
  "lit ''request_id'' \<noteq> lit ''name''" "lit ''request_id'' \<noteq> lit ''message''"
  by (simp_all add: lit_def)

lemmas names_distinct' [simp] = names_distinct [symmetric]

lemma ensure_attr_same [simp]:
  "lr_asctime (ensure_attr k r) = lr_asctime r" "lr_level (ensure_attr k r) = lr_level r"
  "lr_name (ensure_attr k r) = lr_name r" "lr_msg (ensure_attr k r) = lr_msg r" "lr_args (ensure_attr k r) = lr_args r"
  "lr_exc_text (ensure_attr k r) = lr_exc_text r"
  by (simp_all add: ensure_attr_def)

lemma ensure_attr_lookup:
  "map_of (lr_attrs (ensure_attr k r)) j =
     (if j = k then Some (attr_or_dash (map_of (lr_attrs r) k)) else map_of (lr_attrs r) j)"
  by (auto simp: ensure_attr_def has_key_def attr_or_dash_def map_add_def split: option.splits)

text \<open>Formatting a record of the server's logger raises what its message raises, and nothing else: an identifier it does not
  have is a dash.\<close>

lemma SafeFormatter_line:
  assumes "lr_name r = LOGGER_NAME"
  shows "SafeFormatter_format F LOG_FORMAT r = res_bnd (getMessage F (lr_msg r) (lr_args r)) (\<lambda>m.
    Ok (with_traceback (log_line (pf_int F) (lr_asctime r) (lr_level r)
      (attr_or_dash (map_of (lr_attrs r) (lit ''connection_id'')))
      (attr_or_dash (map_of (lr_attrs r) (lit ''request_id''))) m) (lr_exc_text r)))"
proof -
  let ?r = "ensure_attr (lit ''request_id'') (ensure_attr (lit ''connection_id'') r)"
  have a: "map_of (lr_attrs ?r) (lit ''connection_id'') = Some (attr_or_dash (map_of (lr_attrs r) (lit ''connection_id'')))"
    "map_of (lr_attrs ?r) (lit ''request_id'') = Some (attr_or_dash (map_of (lr_attrs r) (lit ''request_id'')))"
    by (simp_all add: ensure_attr_lookup)
  have "percent (record_dict (pf_int F) ?r m) LOG_FORMAT = Ok (log_line (pf_int F) (lr_asctime r) (lr_level r)
      (attr_or_dash (map_of (lr_attrs r) (lit ''connection_id'')))
      (attr_or_dash (map_of (lr_attrs r) (lit ''request_id''))) m)" for m
    by (subst percent_LOG_FORMAT)
      (auto simp: record_dict_def a assms log_line_def)
  then show ?thesis
    by (cases "getMessage F (lr_msg r) (lr_args r)") (simp_all add: SafeFormatter_format_def formatter_format_def with_traceback_def)
qed

lemma adapter_attrs:
  "adapter_process ad msg \<lparr>kw_extra = None, kw_exc_text = tb\<rparr> =
    (msg, \<lparr>kw_extra = Some [(lit ''connection_id'', attr_or_dash (ad_connection_id ad)),
      (lit ''request_id'', attr_or_dash (ad_request_id ad))], kw_exc_text = tb\<rparr>)"
  by (simp add: adapter_process_def setdefault_def has_key_def Let_def)

text \<open>C38: what a session logs: however often the logging has been set up in the process (\<open>s\<close> is the level of the first time, the
  last element of \<open>s # ss\<close> that of the last), a call of the session's logger for the connection \<open>cid\<close> while the request \<open>q\<close> is served
  does nothing when its level is below the level of the first or of the last set-up. Otherwise, when the message can be formatted with
  its arguments and standard output takes the line, it appears there exactly once, on a line with both identifiers; when formatting
  or writing raises, that is reported once on standard error and nothing is written. No exception reaches the caller, and no record the root logger.
\<close>

theorem session_log_line:
  fixes L :: logging and s :: pystr and ss :: "pystr list"
  assumes "lg_handlers (getLogger LOGGER_NAME L) = []"
    and "L' = foldl (\<lambda>L s. setup_logging s L) L (s # ss)"
  shows "adapter_log F to_root t ((make_session_logger LOGGER_NAME cid)\<lparr>ad_request_id := Some q\<rparr>) level msg args
      \<lparr>kw_extra = None, kw_exc_text = tb\<rparr> L' =
    (if level < level_of s \<or> level < level_of (last (s # ss)) then L'
     else case getMessage F msg args of
         Raise e \<Rightarrow> L'\<lparr>stderr_reports := stderr_reports L' @ [e]\<rparr>
       | Ok m \<Rightarrow> let line = with_traceback (log_line (pf_int F) t level cid q m) tb @ [10] in
           (case stdout_refuses L' line of
              Some e \<Rightarrow> L'\<lparr>stderr_reports := stderr_reports L' @ [e]\<rparr>
            | None \<Rightarrow> L'\<lparr>stdout_text := stdout_text L' @ line\<rparr>))"
proof -
  have h: "lg_handlers (getLogger LOGGER_NAME L') = [\<lparr>h_level = level_of s, h_format = LOG_FORMAT\<rparr>]"
    using assms setups_handlers [of L "s # ss"] by (simp add: getLogger_setup Let_def)
  have "L' = setup_logging (last (s # ss)) (foldl (\<lambda>L s. setup_logging s L) L (butlast (s # ss)))"
    using assms(2) by (metis append_butlast_last_id foldl_Cons foldl_Nil foldl_append list.distinct(1))
  then have l: "lg_level (getLogger LOGGER_NAME L') = level_of (last (s # ss))"
      "\<not> lg_propagate (getLogger LOGGER_NAME L')"
    by (simp_all only: getLogger_setup Let_def logger.select_convs not_False_eq_True)
  show ?thesis
    by (cases "getMessage F msg args")
      (auto simp: adapter_log_def make_session_logger_def h l logger_log_def Let_def handler_handle_def
        SafeFormatter_line attr_or_dash_def adapter_attrs stream_write_def handle_error_def split: option.split)
qed

text \<open>A message with an argument, and one that has an argument and no place for it.\<close>

definition plain_fmt :: py_fmt where
  "plain_fmt = \<lparr>pf_int = (\<lambda>_. []), pf_other = (\<lambda>_ _. Raise ValueError)\<rparr>"

definition arg_example :: log_arg where
  "arg_example = \<lparr>arg_str = lit ''392'', arg_repr = lit ''392'', arg_decimal = Some (lit ''392''), arg_mapping = False\<rparr>"

theorem session_log_line_witness:
  "let L = setup_logging (lit ''debug'') fresh_logging; ad = (make_session_logger LOGGER_NAME (lit ''c1''))\<lparr>ad_request_id := Some (lit ''r1'')\<rparr>;
       call = (\<lambda>msg. adapter_log plain_fmt (\<lambda>_ L. L) (lit ''12:00'') ad 10 (lit msg) [arg_example] \<lparr>kw_extra = None, kw_exc_text = []\<rparr> L) in
   call ''size_bits=%d'' = L\<lparr>stdout_text := lit ''12:00 DEBUG seftp.server conn=c1 req=r1 size_bits=392'' @ [10]\<rparr> \<and>
   call ''public_blob len:'' = L\<lparr>stderr_reports := [TypeError]\<rparr>"
proof -
  let ?L = "setup_logging (lit ''debug'') fresh_logging"
  have s: "?L = foldl (\<lambda>L s. setup_logging s L) fresh_logging (lit ''debug'' # [])" by simp
  have r: "stdout_refuses ?L = (\<lambda>_. None)" "stdout_text ?L = []" "stderr_reports ?L = []"
    by (simp_all add: setup_logging_def fresh_logging_def Let_def)
  have g: "getMessage plain_fmt (lit ''size_bits=%d'') [arg_example] = Ok (lit ''size_bits=392'')"
      "getMessage plain_fmt (lit ''public_blob len:'') [arg_example] = Raise TypeError"
    by (simp_all add: getMessage_def arg_example_def lit_def)
  have l: "\<not> 10 < level_of (lit ''debug'')" by (simp add: level_of_def LEVELS_def lit_def upper_cp_def)
  have m: "with_traceback (log_line (pf_int plain_fmt) (lit ''12:00'') 10 (lit ''c1'') (lit ''r1'') (lit ''size_bits=392'')) [] =
      lit ''12:00 DEBUG seftp.server conn=c1 req=r1 size_bits=392''"
    by (simp add: log_line_def with_traceback_def level_name_def LEVELS_def plain_fmt_def LOGGER_NAME_def lit_def)
  note line = session_log_line [where F = plain_fmt and to_root = "\<lambda>_ L. L" and t = "lit ''12:00''" and cid = "lit ''c1''" and q = "lit ''r1''" and
    level = 10 and args = "[arg_example]" and tb = "[]" and ss = "[]", OF fresh_no_handlers s]
  show ?thesis
    unfolding Let_def line using l m by (simp add: g r del: setup_text)
qed

end
