(* ===== verification/Json.thy ===== *)
theory Json
  imports Config "HOL-Library.List_Lexorder"
begin

text \<open>
  The values \<open>json.load\<close> gives and \<open>json.dump\<close> takes, and what the reporting scripts under
  \<open>server/tools\<close> do with them: subscripts, \<open>get\<close>, iteration, truth, comparison, conversion
  to numbers and text. Every operation is defined on every value: a report may be any JSON
  document, and what Python raises for one of the wrong shape is a branch. Floats are real
  numbers; a \<open>dict\<close> is its items in the order of insertion.
\<close>

datatype json = JNull | JBool bool | JInt int | JFloat real | JStr pystr | JList "json list" | JObj "(pystr \<times> json) list"

text \<open>
  What Python does with text here and this library does not define: the Unicode digits,
  \<open>float\<close> of a string, and \<open>repr\<close> of a float (the shortest decimal of a binary number) and
  of a string.
\<close>

record py_text =
  digit_value :: "nat \<Rightarrow> nat option"
  parse_float :: "pystr \<Rightarrow> real res"
  float_repr :: "real \<Rightarrow> pystr"
  str_repr :: "pystr \<Rightarrow> pystr"

abbreviation jstr :: "string \<Rightarrow> json" where
  "jstr s \<equiv> JStr (lit s)"

primrec res_map :: "('a \<Rightarrow> 'b res) \<Rightarrow> 'a list \<Rightarrow> 'b list res" where
  "res_map f [] = Ok []"
| "res_map f (x # xs) = res_bnd (f x) (\<lambda>y. res_bnd (res_map f xs) (\<lambda>ys. Ok (y # ys)))"

section \<open>Access\<close>

text \<open>\<open>v[k]\<close> for a string \<open>k\<close>, \<open>v[0]\<close>, \<open>v.get(k, d)\<close>, \<open>v.keys()\<close>, \<open>for x in v\<close>, \<open>bool(v)\<close>.\<close>

definition getitem :: "json \<Rightarrow> string \<Rightarrow> json res" where
  "getitem v k = (case v of
      JObj kvs \<Rightarrow> (case map_of kvs (lit k) of Some x \<Rightarrow> Ok x | None \<Rightarrow> Raise KeyError)
    | _ \<Rightarrow> Raise TypeError)"

primrec getpath :: "json \<Rightarrow> string list \<Rightarrow> json res" where
  "getpath v [] = Ok v"
| "getpath v (k # ks) = (case getitem v k of Ok x \<Rightarrow> getpath x ks | Raise e \<Rightarrow> Raise e)"

definition getfirst :: "json \<Rightarrow> json res" where
  "getfirst v = (case v of
      JList xs \<Rightarrow> (case xs of [] \<Rightarrow> Raise IndexError | x # _ \<Rightarrow> Ok x)
    | JStr s \<Rightarrow> (case s of [] \<Rightarrow> Raise IndexError | c # _ \<Rightarrow> Ok (JStr [c]))
    | JObj _ \<Rightarrow> Raise KeyError
    | _ \<Rightarrow> Raise TypeError)"

definition get_key :: "json \<Rightarrow> pystr \<Rightarrow> json \<Rightarrow> json res" where
  "get_key v k d = (case v of
      JObj kvs \<Rightarrow> Ok (case map_of kvs k of Some x \<Rightarrow> x | None \<Rightarrow> d)
    | _ \<Rightarrow> Raise AttributeError)"

abbreviation get_or :: "json \<Rightarrow> string \<Rightarrow> json \<Rightarrow> json res" where
  "get_or v k d \<equiv> get_key v (lit k) d"

definition dict_keys :: "json \<Rightarrow> pystr list res" where
  "dict_keys v = (case v of JObj kvs \<Rightarrow> Ok (map fst kvs) | _ \<Rightarrow> Raise AttributeError)"

definition py_iter :: "json \<Rightarrow> json list res" where
  "py_iter v = (case v of
      JList xs \<Rightarrow> Ok xs
    | JObj kvs \<Rightarrow> Ok (map (\<lambda>(k, _). JStr k) kvs)
    | JStr s \<Rightarrow> Ok (map (\<lambda>c. JStr [c]) s)
    | _ \<Rightarrow> Raise TypeError)"

fun truthy :: "json \<Rightarrow> bool" where
  "truthy JNull = False"
| "truthy (JBool b) = b"
| "truthy (JInt n) = (n \<noteq> 0)"
| "truthy (JFloat x) = (x \<noteq> 0)"
| "truthy (JStr s) = (s \<noteq> [])"
| "truthy (JList xs) = (xs \<noteq> [])"
| "truthy (JObj kvs) = (kvs \<noteq> [])"

section \<open>Numbers\<close>

fun num_of :: "json \<Rightarrow> real option" where
  "num_of (JBool b) = Some (of_bool b)"
| "num_of (JInt n) = Some (of_int n)"
| "num_of (JFloat x) = Some x"
| "num_of _ = None"

definition to_float :: "py_text \<Rightarrow> json \<Rightarrow> real res" where
  "to_float P v = (case v of JStr s \<Rightarrow> parse_float P s
     | _ \<Rightarrow> (case num_of v of Some x \<Rightarrow> Ok x | None \<Rightarrow> Raise TypeError))"

definition py_trunc :: "real \<Rightarrow> int" where
  "py_trunc x = (if x < 0 then \<lceil>x\<rceil> else \<lfloor>x\<rfloor>)"

definition to_int :: "py_text \<Rightarrow> json \<Rightarrow> int res" where
  "to_int P v = (case v of JStr s \<Rightarrow> py_int (digit_value P) s
     | _ \<Rightarrow> (case num_of v of Some x \<Rightarrow> Ok (py_trunc x) | None \<Rightarrow> Raise TypeError))"

text \<open>\<open>v * r\<close> for a float \<open>r\<close>.\<close>

definition times_float :: "json \<Rightarrow> real \<Rightarrow> json res" where
  "times_float v r = (case num_of v of Some x \<Rightarrow> Ok (JFloat (x * r)) | None \<Rightarrow> Raise TypeError)"

section \<open>Comparison\<close>

primrec py_eq :: "json \<Rightarrow> json \<Rightarrow> bool" where
  "py_eq JNull b = (b = JNull)"
| "py_eq (JBool p) b = (num_of b = Some (of_bool p))"
| "py_eq (JInt n) b = (num_of b = Some (of_int n))"
| "py_eq (JFloat x) b = (num_of b = Some x)"
| "py_eq (JStr s) b = (b = JStr s)"
| "py_eq (JList xs) b = (case b of JList ys \<Rightarrow> list_all2 (\<lambda>eq y. eq y) (map py_eq xs) ys | _ \<Rightarrow> False)"
| "py_eq (JObj kvs) b = (case b of
     JObj ms \<Rightarrow> length kvs = length ms \<and>
       list_all (\<lambda>(k, eq). case map_of ms k of Some v \<Rightarrow> eq v | None \<Rightarrow> False) (map (map_prod (\<lambda>k. k) py_eq) kvs)
   | _ \<Rightarrow> False)"

definition num_less :: "real \<Rightarrow> json \<Rightarrow> bool res" where
  "num_less x b = (case num_of b of Some y \<Rightarrow> Ok (x < y) | None \<Rightarrow> Raise TypeError)"

fun py_less :: "json \<Rightarrow> json \<Rightarrow> bool res" and list_less :: "json list \<Rightarrow> json list \<Rightarrow> bool res" where
  "py_less JNull b = Raise TypeError"
| "py_less (JObj kvs) b = Raise TypeError"
| "py_less (JBool p) b = num_less (of_bool p) b"
| "py_less (JInt n) b = num_less (of_int n) b"
| "py_less (JFloat x) b = num_less x b"
| "py_less (JStr s) b = (case b of JStr t \<Rightarrow> Ok (s < t) | _ \<Rightarrow> Raise TypeError)"
| "py_less (JList xs) b = (case b of JList ys \<Rightarrow> list_less xs ys | _ \<Rightarrow> Raise TypeError)"
| "list_less [] ys = Ok (ys \<noteq> [])"
| "list_less (x # xs) ys = (case ys of [] \<Rightarrow> Ok False
     | y # ys' \<Rightarrow> if py_eq x y then list_less xs ys' else py_less x y)"

text \<open>\<open>max\<close> of a sequence, and of \<open>range(len(vs))\<close> by the value at the index: the first of the greatest.\<close>

primrec max_from :: "json \<Rightarrow> json list \<Rightarrow> json res" where
  "max_from m [] = Ok m"
| "max_from m (v # vs) = res_bnd (py_less m v) (\<lambda>less. max_from (if less then v else m) vs)"

definition py_max :: "json list \<Rightarrow> json res" where
  "py_max vs = (case vs of [] \<Rightarrow> Raise ValueError | v # vs' \<Rightarrow> max_from v vs')"

primrec peak_from :: "nat \<Rightarrow> json \<Rightarrow> nat \<Rightarrow> json list \<Rightarrow> nat res" where
  "peak_from i m j [] = Ok i"
| "peak_from i m j (v # vs) = res_bnd (py_less m v) (\<lambda>less.
     if less then peak_from j v (Suc j) vs else peak_from i m (Suc j) vs)"

definition peak_index :: "json list \<Rightarrow> nat res" where
  "peak_index vs = (case vs of [] \<Rightarrow> Raise ValueError | v # vs' \<Rightarrow> peak_from 0 v 1 vs')"

text \<open>
  \<open>set(v)\<close>: the elements, which have to be hashable, each once; \<open>sorted\<close> of such elements,
  which fails when two of them cannot be compared.
\<close>

fun hashable :: "json \<Rightarrow> bool" where
  "hashable (JList xs) = False"
| "hashable (JObj kvs) = False"
| "hashable _ = True"

definition in_set :: "json \<Rightarrow> json list \<Rightarrow> bool" where
  "in_set v vs = list_ex (py_eq v) vs"

primrec once :: "json list \<Rightarrow> json list" where
  "once [] = []"
| "once (v # vs) = (if in_set v (once vs) then once vs else v # once vs)"

definition py_set :: "json \<Rightarrow> json list res" where
  "py_set v = res_bnd (py_iter v) (\<lambda>xs. if list_all hashable xs then Ok (once xs) else Raise TypeError)"

definition the_str :: "json \<Rightarrow> pystr" where
  "the_str v = (case v of JStr s \<Rightarrow> s | _ \<Rightarrow> [])"

definition is_str :: "json \<Rightarrow> bool" where
  "is_str v = (case v of JStr s \<Rightarrow> True | _ \<Rightarrow> False)"

definition the_num :: "json \<Rightarrow> real" where
  "the_num v = (case num_of v of Some x \<Rightarrow> x | None \<Rightarrow> 0)"

definition py_sorted :: "json list \<Rightarrow> json list res" where
  "py_sorted vs =
     (if length vs \<le> 1 then Ok vs
      else if list_all is_str vs then Ok (sort_key the_str vs)
      else if list_all (\<lambda>v. num_of v \<noteq> None) vs then Ok (sort_key the_num vs)
      else Raise TypeError)"

text \<open>\<open>k in v\<close> for a string \<open>k\<close>: a key, an element, a part of a string.\<close>

definition py_contains :: "json \<Rightarrow> pystr \<Rightarrow> bool res" where
  "py_contains v k = (case v of
      JObj kvs \<Rightarrow> Ok (k \<in> fst ` set kvs)
    | JList xs \<Rightarrow> Ok (in_set (JStr k) xs)
    | JStr s \<Rightarrow> Ok (list_ex (prefix k) (suffixes s))
    | _ \<Rightarrow> Raise TypeError)"

section \<open>Text\<close>

fun join_with :: "pystr \<Rightarrow> pystr list \<Rightarrow> pystr" where
  "join_with sep [] = []"
| "join_with sep [s] = s"
| "join_with sep (s # ss) = s @ sep @ join_with sep ss"

primrec py_repr :: "py_text \<Rightarrow> json \<Rightarrow> pystr" where
  "py_repr P JNull = lit ''None''"
| "py_repr P (JBool b) = lit (if b then ''True'' else ''False'')"
| "py_repr P (JInt n) = decimal n"
| "py_repr P (JFloat x) = float_repr P x"
| "py_repr P (JStr s) = str_repr P s"
| "py_repr P (JList xs) = lit ''['' @ join_with (lit '', '') (map (py_repr P) xs) @ lit '']''"
| "py_repr P (JObj kvs) = lit ''{'' @ join_with (lit '', '')
     (map (\<lambda>(k, r). str_repr P k @ lit '': '' @ r) (map (map_prod (\<lambda>k. k) (py_repr P)) kvs)) @ lit ''}''"

definition py_str :: "py_text \<Rightarrow> json \<Rightarrow> pystr" where
  "py_str P v = (case v of JStr s \<Rightarrow> s | _ \<Rightarrow> py_repr P v)"

text \<open>The format specifications \<open>.df\<close>, \<open>+.df\<close>, \<open>+d\<close>, and the alignment to the right and to the left.\<close>

definition half_even :: "real \<Rightarrow> int" where
  "half_even x = (let n = \<lfloor>x\<rfloor>; r = x - of_int n in
     if r < 1 / 2 then n else if r > 1 / 2 then n + 1 else if even n then n else n + 1)"

definition pad_left :: "nat \<Rightarrow> nat \<Rightarrow> pystr \<Rightarrow> pystr" where
  "pad_left c n s = replicate (n - length s) c @ s"

definition rjust :: "nat \<Rightarrow> pystr \<Rightarrow> pystr" where
  "rjust = pad_left 32"

definition ljust :: "nat \<Rightarrow> pystr \<Rightarrow> pystr" where
  "ljust n s = s @ replicate (n - length s) 32"

definition fixed_abs :: "nat \<Rightarrow> real \<Rightarrow> pystr" where
  "fixed_abs d x = (let n = half_even (x * 10 ^ d) in
     decimal (n div 10 ^ d) @ (if d = 0 then [] else lit ''.'' @ pad_left 48 d (decimal (n mod 10 ^ d))))"

definition fixed :: "nat \<Rightarrow> real \<Rightarrow> pystr" where
  "fixed d x = (if x < 0 then lit ''-'' else []) @ fixed_abs d \<bar>x\<bar>"

definition signed_fixed :: "nat \<Rightarrow> real \<Rightarrow> pystr" where
  "signed_fixed d x = lit (if x < 0 then ''-'' else ''+'') @ fixed_abs d \<bar>x\<bar>"

definition signed_decimal :: "int \<Rightarrow> pystr" where
  "signed_decimal n = (if n < 0 then decimal n else lit ''+'' @ decimal n)"

end
