(* ===== verification/Script_Io.thy ===== *)
theory Script_Io
  imports Json Posix_Path
begin

text \<open>
  What the reporting scripts do to the world: they read reports, print lines, make
  directories, and call matplotlib. A run is the sequence of those events; everything
  outside is an argument: the document at each path (or why there is none), and whether
  the \<open>n\<close>-th event raises.
\<close>

datatype event =
    Print pystr
  | Mkdir pystr
  | Import string
  | Call string "json list" "(string \<times> json) list"

record outside =
  sc_text :: py_text
  report_at :: "pystr \<Rightarrow> json res"
  path_exists :: "pystr \<Rightarrow> bool"
  outcome :: "nat \<Rightarrow> exn option"
  handles_labels :: "event list \<Rightarrow> json \<times> json"

type_synonym 'a script = "(event list, 'a) eff"

definition emit :: "outside \<Rightarrow> event \<Rightarrow> unit script" where
  "emit X ev = rd (\<lambda>tr. case outcome X (length tr) of None \<Rightarrow> upd (\<lambda>tr. tr @ [ev]) | Some e \<Rightarrow> throw e)"

abbreviation print_line :: "outside \<Rightarrow> pystr \<Rightarrow> unit script" where
  "print_line X s \<equiv> emit X (Print s)"

text \<open>\<open>pathlib\<close>: the components without empty ones and dots, and \<open>p / name\<close>.\<close>

definition pathlib_str :: "pystr \<Rightarrow> pystr" where
  "pathlib_str p = (let n = initial_slashes p;
       q = replicate n SEP @ join_sep (filter (\<lambda>c. c \<noteq> [] \<and> c \<noteq> DOT) (split_sep p))
     in if q = [] then DOT else q)"

definition path_div :: "pystr \<Rightarrow> pystr \<Rightarrow> pystr" where
  "path_div p name = pathlib_str (path_join p name)"

text \<open>A \<open>for\<close> loop over a list.\<close>

primrec for_each :: "'a list \<Rightarrow> ('a \<Rightarrow> ('s, unit) eff) \<Rightarrow> ('s, unit) eff" where
  "for_each [] body = ret ()"
| "for_each (x # xs) body = bnd (body x) (\<lambda>_. for_each xs body)"

context change_rel
begin

lemma keeps_for_each: "(\<And>x. x \<in> set xs \<Longrightarrow> keeps R (body x)) \<Longrightarrow> keeps R (for_each xs body)"
  by (induction xs) (simp_all add: keeps_ret keeps_bnd)

end

end
