(* ===== verification/Lifecycle.thy ===== *)
theory Lifecycle
  imports Server_Space Logging Script_Io
begin

text \<open>
  The life of the process (\<open>main\<close> of \<open>server/server_async.py\<close> as a whole): configuration and
  log, database, limiters, thread pool, identity key, the two listening sockets, the signal
  handlers, the wait for the stop event and the shutdown. The trace records what is opened
  and closed, in order. From the moment the first socket listens the connections run whenever
  \<open>main\<close> awaits something: while the metrics endpoint is being opened, while it waits for the stop event, and while it waits for the
  two servers to be closed. What happens to the server in each of these waits (\<open>lf_run\<close>) and how each of them ends
  (\<open>lf_await\<close>) is an argument, as is what listening and the signal handlers do. Tasks that are still there when \<open>main\<close>
  returns are cancelled by \<open>asyncio.run\<close>, which is not part of \<open>main\<close>.
\<close>

section \<open>The process\<close>

datatype opened = Database | ThreadPool | Listener | MetricsListener

datatype life = Opened opened | Closed opened

datatype waiting = AwaitListening opened | AwaitStop | AwaitListenerClosed | AwaitMetricsClosed | AwaitLeaving

record process =
  ps_log :: logging
  ps_db :: store
  ps_disk :: key_disk
  ps_server :: "server option"
  ps_trace :: "life list"

text \<open>
  A wait ends with \<open>None\<close> when it returns and with \<open>Some e\<close> when it raises \<open>e\<close> or is cancelled; \<open>Some Suspended\<close> when it
  never ends.
\<close>

record life_outside =
  lf_config :: "config res"
  lf_init :: init_outcome
  lf_env :: env
  lf_generated :: rsa_key
  lf_pem :: "rsa_key \<Rightarrow> bytes"
  lf_mode :: nat
  lf_listen :: "opened \<Rightarrow> exn option"
  lf_signal :: "string \<Rightarrow> exn option"
  lf_run :: "waiting \<Rightarrow> server \<Rightarrow> server"
  lf_await :: "waiting \<Rightarrow> exn option"
  lf_close :: sql_outcome
  lf_time :: "life list \<Rightarrow> pystr"
  lf_fmt :: py_fmt
  lf_float :: "real \<Rightarrow> pystr"
  lf_recent :: "store \<Rightarrow> pystr"
  lf_addrs :: "opened \<Rightarrow> pystr"


type_synonym 'a main_act = "(process, 'a) eff"




definition raise_if :: "exn option \<Rightarrow> unit main_act" where
  "raise_if oe = (case oe of None \<Rightarrow> ret () | Some e \<Rightarrow> throw e)"

section \<open>Start\<close>






text \<open>The connections run while \<open>main\<close> waits, on the store and the files as they are.\<close>

definition ran :: "life_outside \<Rightarrow> waiting \<Rightarrow> process \<Rightarrow> process" where
  "ran X pt p = (case ps_server p of None \<Rightarrow> p
    | Some sv \<Rightarrow> let sv' = lf_run X pt (sv\<lparr>sv_store := ps_db p, sv_fs := kd_fs (ps_disk p)\<rparr>) in
        p\<lparr>ps_server := Some sv', ps_db := sv_store sv', ps_disk := (ps_disk p)\<lparr>kd_fs := sv_fs sv'\<rparr>\<rparr>)"

definition await :: "life_outside \<Rightarrow> waiting \<Rightarrow> unit main_act" where
  "await X pt = bnd (upd (ran X pt)) (\<lambda>_. raise_if (lf_await X pt))"




section \<open>Shutdown\<close>








section \<open>The clients survive\<close>





lemma ran_none [simp]: "ps_server p = None \<Longrightarrow> ran X pt p = p"
  by (simp add: ran_def)


lemma raise_if_apply [simp]: "raise_if oe p = (case oe of None \<Rightarrow> (Ok (), p) | Some e \<Rightarrow> (Raise e, p))"
  by (simp add: raise_if_def split: option.split)

lemma await_apply [simp]: "await X pt p = (case lf_await X pt of None \<Rightarrow> Ok () | Some e \<Rightarrow> Raise e, ran X pt p)"
  by (simp add: await_def split: option.split)










section \<open>What the parts do to the trace\<close>











section \<open>The whole life\<close>













end
