(* ===== verification/Server_Types.thy ===== *)
theory Server_Types
  imports Server
begin

text \<open>
  The types Python does not write down. What the columns of the \<open>Clients\<close> table and the
  attributes of the handshake may hold is narrower than \<open>str\<close> and \<open>bytes\<close>, and the code that
  reads them relies on it: ids are the hex form of 16 bytes, AES keys the Base64 form of 32,
  public keys such as the server accepts, nonces 32 bytes long. Every request handler keeps
  it, whatever it is sent and whatever fails.
\<close>

section \<open>Typed rows and typed sessions\<close>

definition row_typed :: "env \<Rightarrow> client_record \<Rightarrow> bool" where
  "row_typed E r \<longleftrightarrow> (\<exists>u. length u = 16 \<and> client_id_hex r = bytes_hex u) \<and>
     is_valid_username E (username r) \<and> list_all valid_cp (username r) \<and>
     (\<forall>der. public_key_der r = Some der \<longrightarrow> usable_key E der) \<and>
     (\<forall>a. aes_key_b64 r = Some a \<longrightarrow> (\<exists>k. length k = 32 \<and> a = b64encode k))"

definition rows_typed :: "env \<Rightarrow> store \<Rightarrow> bool" where
  "rows_typed E st \<longleftrightarrow> (\<forall>r \<in> set (clients_table st). row_typed E r)"

definition handshake_typed :: "session \<Rightarrow> bool" where
  "handshake_typed s \<longleftrightarrow> (\<forall>c. client_nonce s = Some c \<longrightarrow> length c = 32) \<and> (\<forall>n. server_nonce s = Some n \<longrightarrow> length n = 32) \<and>
     (\<forall>v. security_version s = Some v \<longrightarrow> v = 1) \<and>
     (handshake_verified s \<longrightarrow> client_nonce s \<noteq> None \<and> server_nonce s \<noteq> None \<and> security_version s \<noteq> None)"

text \<open>What \<open>secrets.token_bytes\<close> and \<open>uuid4().bytes\<close> document.\<close>

definition env_typed :: "env \<Rightarrow> bool" where
  "env_typed E \<longleftrightarrow> (\<forall>n k. length (random_bytes E n k) = k) \<and> (\<forall>n. length (uuid4 E n) = 16)"

definition typed_kept :: "env \<Rightarrow> world \<Rightarrow> world \<Rightarrow> bool" where
  "typed_kept E w w' \<longleftrightarrow> (env_typed E \<longrightarrow> (rows_typed E (w_store w) \<longrightarrow> rows_typed E (w_store w')) \<and>
     (handshake_typed (w_sess w) \<longrightarrow> handshake_typed (w_sess w')))"

lemma typed_same: "w_store w' = w_store w \<Longrightarrow> handshake_typed (w_sess w') = handshake_typed (w_sess w) \<Longrightarrow> typed_kept E w w'"
  by (simp add: typed_kept_def)

lemma handshake_same_core: "same_core s s' \<Longrightarrow> handshake_typed s' = handshake_typed s"
  by (simp add: handshake_typed_def same_core_fields)

section \<open>The store operations\<close>

lemma rows_update:
  assumes "rows_typed E st" and "\<And>r. row_typed E r \<Longrightarrow> row_typed E (f r)"
  shows "rows_typed E (snd (update_client out c f st))"
  using assms update_client_table [of out c f st] by (auto simp: rows_typed_def upd_row_def)

lemma rows_create:
  assumes "rows_typed E st" and "length u = 16" and "is_valid_username E name" and "list_all valid_cp name"
  shows "rows_typed E (snd (create_client out u now name st))"
proof -
  have "row_typed E \<lparr>client_id_hex = bytes_hex u, username = name, public_key_der = None, aes_key_b64 = None,
      created_at = now, last_seen = now\<rparr>"
    using assms(2-4) by (auto simp: row_typed_def)
  then show ?thesis using assms(1) by (auto simp: create_client_def rows_typed_def Let_def)
qed

lemma typed_touch: "typed_kept E w (w\<lparr>w_store := snd (touch_client_last_seen out now c (w_store w))\<rparr>)"
  by (auto simp: typed_kept_def touch_client_last_seen_def row_typed_def intro: rows_update)

lemma typed_aes: "typed_kept E w (w\<lparr>w_store := snd (set_client_aes_key out c (b64encode (random_bytes E n 32)) (w_store w))\<rparr>)"
proof -
  have "row_typed E (r\<lparr>aes_key_b64 := Some (b64encode (random_bytes E n 32))\<rparr>)" if "env_typed E" "row_typed E r" for r
    using that unfolding row_typed_def env_typed_def by auto
  then show ?thesis by (auto simp: typed_kept_def set_client_aes_key_def intro: rows_update)
qed

lemma typed_public: "usable_key E der \<Longrightarrow> typed_kept E w (w\<lparr>w_store := snd (set_client_public_key out c der (w_store w))\<rparr>)"
  by (auto simp: typed_kept_def set_client_public_key_def row_typed_def intro!: rows_update)

lemma typed_create:
  "utf8_decode b = Some name \<Longrightarrow> is_valid_username E name \<Longrightarrow>
    typed_kept E w (w\<lparr>w_store := snd (create_client out (uuid4 E n) now name (w_store w))\<rparr>)"
  using utf8_decode_sound by (auto simp: typed_kept_def env_typed_def intro: rows_create)

section \<open>Every handler\<close>

lemma typed_frame:
  "typed_kept E w (w\<lparr>w_sess := (w_sess w)\<lparr>xfer := x\<rparr>\<rparr>)" "typed_kept E w (w\<lparr>w_sess := (w_sess w)\<lparr>has_upload_slot := b\<rparr>\<rparr>)"
  "typed_kept E w (w\<lparr>w_fs := fs\<rparr>)" "typed_kept E w (w\<lparr>w_limiter := l\<rparr>)" "typed_kept E w (w\<lparr>w_metrics := m\<rparr>)"
  "typed_kept E w (w\<lparr>w_sess := (w_sess w)\<lparr>s_framer := f\<rparr>\<rparr>)" "typed_kept E w (w\<lparr>w_sess := (w_sess w)\<lparr>request_timestamps := ts\<rparr>\<rparr>)"
  "typed_kept E w (w\<lparr>w_store := snd (create_upload_record out now c name osize csize status (w_store w))\<rparr>)"
  "typed_kept E w (w\<lparr>w_store := snd (complete_upload_record out uid path crc now (w_store w))\<rparr>)"
  "typed_kept E w (w\<lparr>w_store := snd (fail_upload_record out uid reason status now (w_store w))\<rparr>)"
  by (simp_all add: typed_kept_def handshake_typed_def rows_typed_def)

interpretation typed: quiet_rel "typed_kept E" E for E
proof unfold_locales
  show "typed_kept E w u" if "typed_kept E w v" "typed_kept E v u" for w v u
    using that by (simp add: typed_kept_def)
  show "typed_kept E w (w\<lparr>w_store := snd (touch_client_last_seen (sql E n) now c (w_store w))\<rparr>)" for w n now c
    by (rule typed_touch)
qed (simp_all add: typed_kept_def handshake_same_core rows_typed_def)

interpretation typed_auth: auth_rel "typed_kept E" E for E
proof unfold_locales
  show "keeps (typed_kept E) (answer_aes_key E code what ct cid version)" for code what ct cid version
    by (rule typed.keeps_hand_out) (simp add: typed_kept_def)
qed (rule typed_aes typed_create; assumption?)+

interpretation typed_serve: serving_rel "typed_kept E" E for E
proof unfold_locales
  show "keeps (typed_kept E) (request_829 E payload version cid)" for payload version cid
    by (rule typed.keeps_request_829) (auto simp: typed_kept_def handshake_typed_def env_typed_def)
  show "keeps (typed_kept E) (request_830 E payload version cid)" for payload version cid
    by (rule typed.keeps_request_830) (auto simp: typed_kept_def handshake_typed_def)
  show "keeps (typed_kept E) (request_826 E cid payload version)" for cid payload version
    unfolding request_826_def by (intro typed.answer_rules typed_auth.keeps_request_826_known typed_public)
qed (simp_all add: typed.keeps_slots_free typed_frame)

interpretation typed_loop: loop_rel "typed_kept E" E for E
  by unfold_locales (rule typed_frame)+

section \<open>Every state of the server\<close>

definition server_typed :: "env \<Rightarrow> server \<Rightarrow> bool" where
  "server_typed E sv \<longleftrightarrow> rows_typed E (sv_store sv) \<and> (\<forall>t \<in> set (sv_tasks sv). handshake_typed (t_sess t))"

lemma step_typed:
  assumes "server_step E sv sv'" and E: "env_typed E" and inv: "server_typed E sv"
  shows "server_typed E sv'"
proof -
  have cl: "w_store w' = w_store w" if "cleanup E ip a w = (Ok (), w')" for ip a w w'
    using cleanup_run [of E ip a w] that by (auto simp: cleaned_def Let_def)
  have ac: "w_store w = sv_store sv" "handshake_typed (w_sess w)"
    if "accept_connection ip (task_world (opened sv) s []) = (r, w)" "new_session E sv = Ok s" for ip s r w
    using that session_init_fresh [of "sv_config sv" _ _ "sv_key sv" s]
    by (auto simp: accept_run new_session_def handshake_typed_def set_reason_def split: prod.splits if_splits)
  have it: "rows_typed E (w_store w)" "handshake_typed (t_sess t) \<Longrightarrow> handshake_typed (w_sess w)"
    if "loop_guard (loop_iteration E ev) (task_world sv (t_sess t) out) = (r, w)" for ev t out r w
    using keepsD [OF typed_loop.keeps_loop_guard [OF typed_loop.keeps_loop_iteration] that] E inv
    by (simp_all add: typed_kept_def server_typed_def)
  show ?thesis using assms(1)
  proof (cases rule: server_step.cases)
    case (refuse s ip w w')
    then show ?thesis using inv cl ac(1) by (simp add: server_typed_def)
  next
    case (admit s ip w)
    then show ?thesis using inv ac [OF admit(3,2)] by (auto simp: server_typed_def)
  next
    case (iterate i t ev w)
    then show ?thesis using inv it [OF iterate(4)] by (auto simp: server_typed_def dest: set_update_subset_insert [THEN subsetD])
  next
    case (leave i t ev c w w')
    then show ?thesis using inv it(1) [OF leave(4)] cl [OF leave(6)]
      by (auto simp: server_typed_def dest: in_set_takeD in_set_dropD)
  qed
qed

text \<open>C8: what the store and the sessions hold is well typed: started on a database whose rows are, the server keeps in
  every state it reaches, whatever all connections send and whatever fails, that every
  client has the hex form of 16 bytes as its id, a valid user name, if any a public RSA key of 2048
  bits with an odd exponent of at least 3, and if any an AES key of 32 bytes in Base64; and
  that every session has nonces of 32 bytes, security version 1 and, once its handshake is
  verified, all three.\<close>

theorem server_well_typed:
  assumes "main_start conf init db key fs tick = Ok sv0" and "(server_step E)\<^sup>*\<^sup>* sv0 sv" and "env_typed E" and "rows_typed E db"
  shows "(\<forall>r \<in> set (clients_table (sv_store sv)). row_typed E r) \<and> (\<forall>t \<in> set (sv_tasks sv). handshake_typed (t_sess t))"
proof -
  obtain st where st: "sv_store sv0 = st" "store_initialize init db = (Ok True, st)"
    using main_start_Ok [OF assms(1)] by (metis server.select_convs(3))
  have "clients_table st = clients_table db"
    using st(2) by (auto simp: store_initialize_def load_clients_index_def split: init_outcome.splits)
  then have "server_typed E sv0"
    using assms(4) st(1) main_start_inv(2) [OF assms(1)] by (simp add: server_typed_def rows_typed_def)
  with assms(2) have "server_typed E sv" by (induction rule: rtranclp_induct) (auto intro: step_typed assms(3))
  then show ?thesis by (simp add: server_typed_def rows_typed_def)
qed

text \<open>A database with one client, and a server started on it.\<close>

definition typed_db :: store where
  "typed_db = snd (create_client SqlOk (replicate 16 1) [50] [98] (snd (store_initialize InitOk store_new)))"

lemma typed_db_rows: "clients_table typed_db = [\<lparr>client_id_hex = bytes_hex (replicate 16 1), username = [98], public_key_der = None,
    aes_key_b64 = None, created_at = [50], last_seen = [50]\<rparr>]" "rows_typed env_example typed_db"
proof -
  show t: "clients_table typed_db = [\<lparr>client_id_hex = bytes_hex (replicate 16 1), username = [98], public_key_der = None,
      aes_key_b64 = None, created_at = [50], last_seen = [50]\<rparr>]"
    by (simp add: typed_db_def create_client_def store_initialize_def store_new_def load_clients_index_def index_put_def Let_def)
  have "is_valid_username env_example [98]" by (simp add: is_valid_username_def env_example_def)
  moreover have "\<exists>u. length u = 16 \<and> bytes_hex (replicate 16 1) = bytes_hex u" by (intro exI [of _ "replicate 16 1"]) simp
  ultimately show "rows_typed env_example typed_db"
    by (simp only: rows_typed_def t row_typed_def list.set ball_simps client_record.select_convs)
      (simp add: valid_cp_def is_surrogate_def)
qed

theorem server_well_typed_witness:
  "\<exists>sv. (server_step env_example)\<^sup>*\<^sup>* (server_example\<lparr>sv_store := snd (store_initialize InitOk typed_db)\<rparr>) sv \<and>
     length (sv_tasks sv) = 1 \<and> list_all (\<lambda>t. handshake_typed (t_sess t)) (sv_tasks sv)"
proof -
  let ?sv = "server_example\<lparr>sv_store := snd (store_initialize InitOk typed_db)\<rparr>"
  have start: "main_start (Ok config_example) InitOk typed_db (Ok 0) fs_example 0 = Ok ?sv"
    by (simp add: main_start_def store_initialize_def upload_limiter_init_def connection_limiter_init_def
        bounded_executor_init_def config_example_def Config_new_def server_example_def)
  obtain s where s: "new_session env_example ?sv = Ok s"
    by (simp add: new_session_def session_init_def framer_init_def server_example_def config_example_def Config_new_def)
  obtain w where w: "accept_connection [9] (task_world (opened ?sv) s []) = (Ok True, w)"
    by (simp add: accept_run server_example_def connection_try_acquire_def dict_get_def)
  define sv where "sv = (task_done w ?sv)\<lparr>sv_tasks := sv_tasks ?sv @ [task_of [9] w]\<rparr>"
  have step: "(server_step env_example)\<^sup>*\<^sup>* ?sv sv" "length (sv_tasks sv) = 1"
    using server_step.admit [OF s w] by (simp_all add: sv_def server_example_def)
  have "env_typed env_example" by (simp add: env_typed_def env_example_def)
  from server_well_typed [OF start step(1) this typed_db_rows(2)] step show ?thesis by (auto simp: list_all_iff)
qed

end
