(* ===== verification/Metrics_Http.thy ===== *)
theory Metrics_Http
  imports Config Session "HOL-Library.List_Lexorder"
begin

text \<open>
  The metrics endpoint: \<open>snapshot\<close> of \<open>server/src/runtime_metrics.py\<close>, the JSON text of
  \<open>server/src/metrics_export.py\<close> and the small HTTP server of \<open>server/src/metrics_http.py\<close>.
\<close>

section \<open>The report\<close>

definition snapshot :: "runtime_metrics \<Rightarrow> (pystr \<times> int) list" where
  "snapshot m = [(lit ''active_connections'', m_active_connections m), (lit ''active_uploads'', m_active_uploads m),
     (lit ''rejected_connections'', m_rejected_connections m), (lit ''rejected_uploads'', m_rejected_uploads m),
     (lit ''responses_1607'', m_responses_1607 m), (lit ''rate_limited_requests'', m_rate_limited_requests m)]"

text \<open>\<open>json.dumps(d, sort_keys=True)\<close> for a dictionary of plain keys: the members in the order of their keys.\<close>

definition json_member :: "pystr \<Rightarrow> pystr \<Rightarrow> pystr" where
  "json_member k v = [34] @ k @ [34] @ lit '': '' @ v"

fun json_members :: "(pystr \<times> pystr) list \<Rightarrow> pystr" where
  "json_members [] = []"
| "json_members [(k, v)] = json_member k v"
| "json_members ((k, v) # kvs) = json_member k v @ lit '', '' @ json_members kvs"

definition json_object :: "(pystr \<times> pystr) list \<Rightarrow> pystr" where
  "json_object kvs = lit ''{'' @ json_members (sort_key fst kvs) @ lit ''}''"

definition runtime_metrics_json :: "runtime_metrics \<Rightarrow> pystr" where
  "runtime_metrics_json m = json_object [(lit ''runtime_metrics'', json_object (map (\<lambda>(k, v). (k, decimal v)) (snapshot m)))]"

section \<open>The endpoint\<close>

abbreviation CRLF :: bytes where "CRLF \<equiv> [13, 10]"

definition http_ok :: "nat \<Rightarrow> bytes" where
  "http_ok n = ascii ''HTTP/1.1 200 OK'' @ CRLF @ ascii ''Content-Type: application/json'' @ CRLF @
     ascii ''Content-Length: '' @ map word_of_nat (decimal (int n)) @ CRLF @ ascii ''Connection: close'' @ CRLF @ CRLF"

definition HTTP_NOT_FOUND :: bytes where
  "HTTP_NOT_FOUND = ascii ''HTTP/1.1 404 Not Found'' @ CRLF @ ascii ''Content-Type: text/plain; charset=utf-8'' @ CRLF @
     ascii ''Content-Length: 9'' @ CRLF @ ascii ''Connection: close'' @ CRLF @ CRLF @ ascii ''Not Found''"

definition HTTP_BAD_REQUEST :: bytes where
  "HTTP_BAD_REQUEST = ascii ''HTTP/1.1 400 Bad Request'' @ CRLF @ ascii ''Content-Type: text/plain; charset=utf-8'' @ CRLF @
     ascii ''Content-Length: 11'' @ CRLF @ ascii ''Connection: close'' @ CRLF @ CRLF @ ascii ''Bad Request''"

text \<open>\<open>b.decode("ascii", errors="replace")\<close> and \<open>s.split()\<close>.\<close>

definition ascii_decode_replace :: "bytes \<Rightarrow> pystr" where
  "ascii_decode_replace = map (\<lambda>b. if unat b < 128 then unat b else 65533)"

function split_words :: "pystr \<Rightarrow> pystr list" where
  "split_words s = (let t = dropWhile unicode_space s in
     if t = [] then [] else takeWhile (\<lambda>c. \<not> unicode_space c) t # split_words (dropWhile (\<lambda>c. \<not> unicode_space c) t))"
  by auto
termination
proof (relation "measure length"; simp)
  fix s :: pystr assume "\<exists>c \<in> set s. \<not> unicode_space c"
  let ?t = "dropWhile unicode_space s"
  have "?t \<noteq> []" using \<open>\<exists>c \<in> set s. \<not> unicode_space c\<close> by (simp add: dropWhile_eq_Nil_conv)
  then have "\<not> unicode_space (hd ?t)" by (rule hd_dropWhile)
  with \<open>?t \<noteq> []\<close> have "length (dropWhile (\<lambda>c. \<not> unicode_space c) ?t) < length ?t"
    by (cases ?t) (simp_all add: less_Suc_eq_le length_dropWhile_le)
  also have "\<dots> \<le> length s" by (rule length_dropWhile_le)
  finally show "length (dropWhile (\<lambda>c. \<not> unicode_space c) ?t) < length s" .
qed

declare split_words.simps [simp del]

text \<open>The connection of one HTTP client: what it has been sent and whether it is closed.\<close>

record http_conn =
  h_out :: "bytes list"
  h_closed :: bool
  h_tick :: nat

definition http_send :: "env \<Rightarrow> bytes \<Rightarrow> (http_conn, unit) eff" where
  "http_send E data = bnd (upd (\<lambda>c. c\<lparr>h_out := h_out c @ [data]\<rparr>)) (\<lambda>_.
     (\<lambda>c. case drain_outcome E (h_tick c) of
        None \<Rightarrow> (Ok (), c\<lparr>h_tick := Suc (h_tick c)\<rparr>) | Some e \<Rightarrow> (Raise e, c\<lparr>h_tick := Suc (h_tick c)\<rparr>)))"

text \<open>\<open>line\<close> is what \<open>reader.readline()\<close> gives.\<close>

definition handle_metrics_http :: "env \<Rightarrow> bytes res \<Rightarrow> runtime_metrics \<Rightarrow> (http_conn, unit) eff" where
  "handle_metrics_http E line m = try_finally
     (bnd (lift_res line) (\<lambda>request_line.
        let parts = split_words (str_strip (ascii_decode_replace request_line)) in
        if length parts < 2 then http_send E HTTP_BAD_REQUEST
        else if parts ! 0 \<noteq> lit ''GET'' \<or> parts ! 1 \<noteq> lit ''/metrics'' then http_send E HTTP_NOT_FOUND
        else bnd (lift_res (utf8_encode (runtime_metrics_json m))) (\<lambda>body. http_send E (http_ok (length body) @ body))))
     (upd (\<lambda>c. c\<lparr>h_closed := True\<rparr>))"

section \<open>What a client reads\<close>

text \<open>An HTTP client's view of a response: lines up to the empty one, then the body.\<close>

definition http_line :: "bytes \<Rightarrow> bytes \<times> bytes" where
  "http_line r = (takeWhile (\<lambda>b. b \<noteq> 13) r, drop 2 (dropWhile (\<lambda>b. b \<noteq> 13) r))"

function http_read :: "bytes \<Rightarrow> bytes list \<times> bytes" where
  "http_read r = (case http_line r of (l, rest) \<Rightarrow>
     if l = [] then ([], rest) else (case http_read rest of (ls, body) \<Rightarrow> (l # ls, body)))"
  by auto
termination
proof (relation "measure length"; simp add: http_line_def)
  fix r :: bytes assume "takeWhile (\<lambda>b. b \<noteq> 13) r \<noteq> []"
  then have "length (dropWhile (\<lambda>b. b \<noteq> 13) r) < length r"
    by (metis length_0_conv length_append less_add_same_cancel2 takeWhile_dropWhile_id length_greater_0_conv)
  then show "length (dropWhile (\<lambda>b. b \<noteq> 13) r) - 2 < length r" by simp
qed

declare http_read.simps [simp del]

lemma http_read_line: "13 \<notin> set l \<Longrightarrow> l \<noteq> [] \<Longrightarrow> http_read (l @ CRLF @ rest) = (l # fst (http_read rest), snd (http_read rest))"
proof -
  assume l: "13 \<notin> set l" "l \<noteq> []"
  have "takeWhile (\<lambda>b. b \<noteq> 13) (l @ 13 # 10 # rest) = l" "dropWhile (\<lambda>b. b \<noteq> 13) (l @ 13 # 10 # rest) = 13 # 10 # rest"
    using l(1) by (induction l) auto
  then show ?thesis using l(2) by (subst http_read.simps) (simp add: http_line_def split: prod.split)
qed

lemma http_read_end: "http_read (CRLF @ body) = ([], body)"
  by (subst http_read.simps) (simp add: http_line_def)

definition content_length_line :: "bytes \<Rightarrow> bytes" where
  "content_length_line body = ascii ''Content-Length: '' @ map word_of_nat (decimal (len body))"

text \<open>\<open>framed r\<close>: the client reads headers that announce exactly the body that follows.\<close>

definition framed :: "bytes \<Rightarrow> bool" where
  "framed r \<longleftrightarrow> content_length_line (snd (http_read r)) \<in> set (fst (http_read r))"

lemma decimal_bytes: "13 \<notin> set (map word_of_nat (decimal (int n)) :: byte list)"
proof
  assume "13 \<in> set (map word_of_nat (decimal (int n)) :: byte list)"
  then obtain c where c: "c \<in> set (decimal (int n))" "(word_of_nat c :: byte) = 13" by auto
  then have "48 \<le> c" "c \<le> 57" using dec_digits_range [of n] by (auto simp: decimal_def)
  moreover have "c mod 256 = 13" using arg_cong [OF c(2), of unat] by (simp add: unat_of_nat)
  ultimately show False by simp
qed

lemma http_constants_framed: "framed HTTP_NOT_FOUND" "framed HTTP_BAD_REQUEST"
proof -
  have d: "dec_digits 9 = [57]" "dec_digits 11 = [49, 49]" by (simp_all add: dec_digits.simps)
  have 1: "http_read HTTP_NOT_FOUND = ([ascii ''HTTP/1.1 404 Not Found'', ascii ''Content-Type: text/plain; charset=utf-8'',
      ascii ''Content-Length: 9'', ascii ''Connection: close''], ascii ''Not Found'')"
    unfolding HTTP_NOT_FOUND_def
    by (subst http_read_line, simp add: ascii_def, simp add: ascii_def)+ (simp add: http_read_end del: append_Cons)
  have 2: "http_read HTTP_BAD_REQUEST = ([ascii ''HTTP/1.1 400 Bad Request'', ascii ''Content-Type: text/plain; charset=utf-8'',
      ascii ''Content-Length: 11'', ascii ''Connection: close''], ascii ''Bad Request'')"
    unfolding HTTP_BAD_REQUEST_def
    by (subst http_read_line, simp add: ascii_def, simp add: ascii_def)+ (simp add: http_read_end del: append_Cons)
  show "framed HTTP_NOT_FOUND" "framed HTTP_BAD_REQUEST"
    unfolding framed_def 1 2 content_length_line_def
    by (simp_all add: ascii_def decimal_def d)
qed

lemma http_ok_framed: "http_read (http_ok (length body) @ body) = ([ascii ''HTTP/1.1 200 OK'', ascii ''Content-Type: application/json'',
    content_length_line body, ascii ''Connection: close''], body)"
proof -
  have "13 \<notin> set (content_length_line body)"
    using decimal_bytes [of "length body"] by (auto simp: content_length_line_def ascii_def)
  moreover have "http_ok (length body) @ body = ascii ''HTTP/1.1 200 OK'' @ CRLF @ ascii ''Content-Type: application/json'' @ CRLF @
      content_length_line body @ CRLF @ ascii ''Connection: close'' @ CRLF @ CRLF @ body"
    by (simp add: http_ok_def content_length_line_def)
  moreover have "content_length_line body \<noteq> []" by (simp add: content_length_line_def ascii_def)
  moreover have "13 \<notin> set (ascii ''HTTP/1.1 200 OK'')" "13 \<notin> set (ascii ''Content-Type: application/json'')" "13 \<notin> set (ascii ''Connection: close'')"
      "ascii ''HTTP/1.1 200 OK'' \<noteq> []" "ascii ''Content-Type: application/json'' \<noteq> []" "ascii ''Connection: close'' \<noteq> []"
    by (simp_all add: ascii_def)
  ultimately show ?thesis by (simp only: http_read_line http_read_end fst_conv snd_conv simp_thms)
qed

section \<open>The report as text\<close>

lemma decimal_ascii: "set (decimal v) \<subseteq> {32..126}"
proof
  fix c assume "c \<in> set (decimal v)"
  then have "c = 45 \<or> 48 \<le> c \<and> c \<le> 57" using dec_digits_range by (auto simp: decimal_def split: if_splits)
  then show "c \<in> {32..126}" by auto
qed

lemma json_members_ascii:
  "\<forall>(k, v) \<in> set kvs. set k \<subseteq> {32..126} \<and> set v \<subseteq> {32..126} \<Longrightarrow> set (json_members kvs) \<subseteq> {32..126}"
  by (induction kvs rule: json_members.induct) (auto simp: json_member_def lit_def)

lemma json_object_ascii:
  "\<forall>(k, v) \<in> set kvs. set k \<subseteq> {32..126} \<and> set v \<subseteq> {32..126} \<Longrightarrow> set (json_object kvs) \<subseteq> {32..126}"
  using json_members_ascii [of "sort_key fst kvs"] by (auto simp: json_object_def lit_def)

lemma json_encodes: "utf8_encode (runtime_metrics_json m) = Ok (utf8_bytes (runtime_metrics_json m))"
proof -
  have "set (runtime_metrics_json m) \<subseteq> {32..126}"
    unfolding runtime_metrics_json_def snapshot_def
    by (intro json_object_ascii) (use decimal_ascii in \<open>simp add: json_object_ascii lit_def\<close>)
  then show ?thesis by (auto simp: utf8_encode_def list_all_iff valid_cp_def is_surrogate_def)
qed

text \<open>C37: the metrics endpoint: whatever line a client sends, it gets exactly one response, whose
  \<open>Content-Length\<close> is the length of the body that follows, and the connection is closed,
  also when sending fails: 400 for a line of fewer than two words, the JSON text of the
  current counters for \<open>GET /metrics\<close>, and 404 for anything else.\<close>

theorem metrics_http_answers:
  assumes "handle_metrics_http E (Ok request_line) m c = (r, c')"
  shows "h_closed c' \<and> (\<exists>resp. h_out c' = h_out c @ [resp] \<and> framed resp \<and>
    (case split_words (str_strip (ascii_decode_replace request_line)) of
       verb # path # rest \<Rightarrow>
         if verb = lit ''GET'' \<and> path = lit ''/metrics'' then snd (http_read resp) = utf8_bytes (runtime_metrics_json m)
         else resp = HTTP_NOT_FOUND
     | _ \<Rightarrow> resp = HTTP_BAD_REQUEST))"
proof -
  have send: "h_out (snd (http_send E data c)) = h_out c @ [data]" for data
    by (simp add: http_send_def split: option.split)
  have f: "h_closed c'" "h_out c' = h_out c @ [data]"
    if "handle_metrics_http E (Ok request_line) m = try_finally (http_send E data) (upd (\<lambda>c. c\<lparr>h_closed := True\<rparr>))" for data
    using assms send [of data] unfolding that by (auto simp: try_finally_def split: prod.splits)
  let ?parts = "split_words (str_strip (ascii_decode_replace request_line))"
  have lift: "bnd (lift_res (Ok x)) k = k x" for x and k :: "'b \<Rightarrow> (http_conn, unit) eff"
    by (rule ext) simp
  note unfold = handle_metrics_http_def lift Let_def json_encodes
  consider (short) "length ?parts < 2" | (metrics) rest where "?parts = lit ''GET'' # lit ''/metrics'' # rest"
    | (other) verb path rest where "?parts = verb # path # rest" "verb \<noteq> lit ''GET'' \<or> path \<noteq> lit ''/metrics''"
    by (cases ?parts; cases "tl ?parts") auto
  then show ?thesis
  proof cases
    case short
    then have "handle_metrics_http E (Ok request_line) m = try_finally (http_send E HTTP_BAD_REQUEST) (upd (\<lambda>c. c\<lparr>h_closed := True\<rparr>))"
      by (simp add: unfold)
    from f [OF this] short http_constants_framed(2) show ?thesis by (auto split: list.splits)
  next
    case metrics
    let ?body = "utf8_bytes (runtime_metrics_json m)"
    have "handle_metrics_http E (Ok request_line) m = try_finally (http_send E (http_ok (length ?body) @ ?body)) (upd (\<lambda>c. c\<lparr>h_closed := True\<rparr>))"
      using metrics by (simp add: unfold)
    from f [OF this] metrics http_ok_framed [of ?body] show ?thesis by (auto simp: framed_def)
  next
    case other
    then have "handle_metrics_http E (Ok request_line) m = try_finally (http_send E HTTP_NOT_FOUND) (upd (\<lambda>c. c\<lparr>h_closed := True\<rparr>))"
      by (auto simp: unfold)
    from f [OF this] other http_constants_framed(1) show ?thesis by auto
  qed
qed

theorem metrics_http_answers_witness:
  "h_closed (snd (handle_metrics_http env_example (Ok (ascii ''PUT /'')) runtime_metrics_init \<lparr>h_out = [], h_closed = False, h_tick = 0\<rparr>)) \<and>
   (\<exists>resp. h_out (snd (handle_metrics_http env_example (Ok (ascii ''PUT /'')) runtime_metrics_init
     \<lparr>h_out = [], h_closed = False, h_tick = 0\<rparr>)) = [resp] \<and> framed resp)"
  using metrics_http_answers [OF surjective_pairing, of env_example "ascii ''PUT /''" runtime_metrics_init
      "\<lparr>h_out = [], h_closed = False, h_tick = 0\<rparr>"] by auto

end
