(* ===== verification/Upload_Stream.thy ===== *)
theory Upload_Stream
  imports Handlers_Upload
begin

text \<open>
  The streaming decryption of an upload: what \<open>_process_streaming_cipher_chunk\<close> writes to the
  temporary file chunk by chunk is what decrypting the whole ciphertext at once and removing
  its padding gives, however the client cuts the ciphertext into packets, and the running
  CRC is the checksum of that plaintext.
\<close>

section \<open>What the code relies on\<close>

text \<open>
  PyCryptodome's documentation of a CBC object (\<open>decrypt\<close> may be called repeatedly, the
  pieces of plaintext being the plaintext of the concatenation, and its output is as long
  as its input) and of \<open>unpad\<close> with the style \<open>pkcs7\<close> (only the last block matters).
\<close>

definition cbc_streams :: "env \<Rightarrow> bool" where
  "cbc_streams E \<longleftrightarrow>
     (\<forall>k iv fed c. length c mod AES_BLOCK = 0 \<longrightarrow> length (aes_cbc_dec E k iv fed c) = length c) \<and>
     (\<forall>k iv fed a b. length a mod AES_BLOCK = 0 \<longrightarrow> length b mod AES_BLOCK = 0 \<longrightarrow>
        aes_cbc_dec E k iv fed (a @ b) = aes_cbc_dec E k iv fed a @ aes_cbc_dec E k iv (fed @ a) b)"

definition unpad_last_block :: "env \<Rightarrow> bool" where
  "unpad_last_block E \<longleftrightarrow>
     (\<forall>a b. length a mod AES_BLOCK = 0 \<longrightarrow> length b mod AES_BLOCK = 0 \<longrightarrow> b \<noteq> [] \<longrightarrow>
        unpad E (a @ b) AES_BLOCK = map_option (\<lambda>u. a @ u) (unpad E b AES_BLOCK))"

definition disk_works :: "env \<Rightarrow> bool" where
  "disk_works E \<longleftrightarrow> (\<forall>n. \<not> os_fails E n)"

lemma cbc_length: "cbc_streams E \<Longrightarrow> length c mod AES_BLOCK = 0 \<Longrightarrow> length (aes_cbc_dec E k iv fed c) = length c"
  by (simp add: cbc_streams_def)

lemma cbc_append:
  "cbc_streams E \<Longrightarrow> length a mod AES_BLOCK = 0 \<Longrightarrow> length b mod AES_BLOCK = 0 \<Longrightarrow>
    aes_cbc_dec E k iv fed (a @ b) = aes_cbc_dec E k iv fed a @ aes_cbc_dec E k iv (fed @ a) b"
  by (simp add: cbc_streams_def)

lemma cbc_nil: "cbc_streams E \<Longrightarrow> aes_cbc_dec E k iv fed [] = []"
  using cbc_length [of E "[]"] by simp

lemma unpad_append:
  "unpad_last_block E \<Longrightarrow> length a mod AES_BLOCK = 0 \<Longrightarrow> length b mod AES_BLOCK = 0 \<Longrightarrow> b \<noteq> [] \<Longrightarrow>
    unpad E (a @ b) AES_BLOCK = map_option (\<lambda>u. a @ u) (unpad E b AES_BLOCK)"
  by (simp add: unpad_last_block_def)

section \<open>The state of a stream\<close>

text \<open>
  \<open>stream E i fed w\<close>: the session of \<open>w\<close> streams into inode \<open>i\<close> and has taken the ciphertext
  \<open>fed\<close>: the plaintext of \<open>fed\<close> is on the disk but for the tail held back, a whole block as
  soon as there is one, and the counters describe what is on the disk.
\<close>

definition stream :: "env \<Rightarrow> bytes \<Rightarrow> bytes \<Rightarrow> nat \<Rightarrow> bytes \<Rightarrow> world \<Rightarrow> bool" where
  "stream E key iv i fed w \<longleftrightarrow>
     upload_tmp_file (xf w) = Some i \<and>
     upload_decrypt_cipher (xf w) = Some \<lparr>ci_key = key, ci_iv = iv, ci_fed = fed\<rparr> \<and>
     length fed mod AES_BLOCK = 0 \<and>
     inodes (w_fs w) i @ upload_plain_tail (xf w) = aes_cbc_dec E key iv [] fed \<and>
     length (upload_plain_tail (xf w)) = (if fed = [] then 0 else AES_BLOCK) \<and>
     upload_plain_bytes_written (xf w) = len (inodes (w_fs w) i) \<and>
     upload_crc32_state (xf w) = crc32 (inodes (w_fs w) i) 0"

text \<open>What streaming leaves alone: everything but the file and the streaming attributes.\<close>

definition stream_frame :: "nat \<Rightarrow> world \<Rightarrow> world \<Rightarrow> bool" where
  "stream_frame i w w' \<longleftrightarrow>
     w' = w\<lparr>w_tick := w_tick w', w_fs := (w_fs w)\<lparr>inodes := (inodes (w_fs w))(i := inodes (w_fs w') i)\<rparr>,
       w_sess := (w_sess w)\<lparr>xfer := (xfer (w_sess w))\<lparr>
         upload_decrypt_cipher := upload_decrypt_cipher (xf w'), upload_plain_tail := upload_plain_tail (xf w'),
         upload_plain_bytes_written := upload_plain_bytes_written (xf w'), upload_crc32_state := upload_crc32_state (xf w')\<rparr>\<rparr>\<rparr>"

lemma stream_frame_fields:
  assumes "stream_frame i w w'"
  shows "entries (w_fs w') = entries (w_fs w)" "w_store w' = w_store w" "w_out w' = w_out w" "w_limiter w' = w_limiter w"
    "s_config (w_sess w') = s_config (w_sess w)" "has_writer (w_sess w') = has_writer (w_sess w)"
    "has_upload_slot (w_sess w') = has_upload_slot (w_sess w)"
    "transfer_iv (xf w') = transfer_iv (xf w)" "expected_packet_num (xf w') = expected_packet_num (xf w)"
    "expected_total_packets (xf w') = expected_total_packets (xf w)"
    "expected_content_size (xf w') = expected_content_size (xf w)"
    "expected_orig_file_size (xf w') = expected_orig_file_size (xf w)"
    "received_cipher_bytes (xf w') = received_cipher_bytes (xf w)"
    "upload_client_id_hex (xf w') = upload_client_id_hex (xf w)" "upload_path (xf w') = upload_path (xf w)"
    "upload_tmp_path (xf w') = upload_tmp_path (xf w)" "upload_filename (xf w') = upload_filename (xf w)"
    "upload_id (xf w') = upload_id (xf w)" "upload_tmp_file (xf w') = upload_tmp_file (xf w)"
    "upload_active (xf w') = upload_active (xf w)"
  by (subst assms [unfolded stream_frame_def], simp)+

lemma write_plain_ok:
  assumes "disk_works E" and "upload_tmp_file (xf w) = Some i"
  shows "\<exists>n. write_plain_stream E plain w = (Ok (), w\<lparr>w_tick := n,
    w_fs := (w_fs w)\<lparr>inodes := (inodes (w_fs w))(i := inodes (w_fs w) i @ plain)\<rparr>,
    w_sess := (w_sess w)\<lparr>xfer := (xfer (w_sess w))\<lparr>
      upload_plain_bytes_written := upload_plain_bytes_written (xf w) + len plain,
      upload_crc32_state := crc32 plain (upload_crc32_state (xf w))\<rparr>\<rparr>\<rparr>)"
proof (cases "plain = []")
  case True
  then show ?thesis by (intro exI [of _ "w_tick w"]) (simp add: write_plain_stream_def)
next
  case False
  with assms show ?thesis
    by (intro exI [of _ "Suc (w_tick w)"])
      (simp add: write_plain_stream_def on_fs_def next_of_def disk_works_def bnd_def fs_write_def upd_xfer_def upd_sess_def)
qed

text \<open>One chunk: the plaintext gained, the part written now and the tail.\<close>

lemma process_more:
  assumes E: "cbc_streams E" "disk_works E" and s: "stream E key iv i fed w"
    and c: "chunk \<noteq> []" "length chunk mod AES_BLOCK = 0"
  shows "\<exists>w'. process_streaming_cipher_chunk E chunk False w = (Ok (), w') \<and>
    stream E key iv i (fed @ chunk) w' \<and> stream_frame i w w'"
proof -
  let ?x = "xf w" and ?plain = "aes_cbc_dec E key iv fed chunk"
  let ?combined = "upload_plain_tail ?x @ ?plain"
  let ?k = "length ?combined - AES_BLOCK"
  let ?w1 = "w\<lparr>w_sess := (w_sess w)\<lparr>xfer := ?x\<lparr>upload_decrypt_cipher := Some \<lparr>ci_key = key, ci_iv = iv, ci_fed = fed @ chunk\<rparr>\<rparr>\<rparr>\<rparr>"
  have ge: "AES_BLOCK \<le> length ?plain"
  proof -
    have "length chunk \<noteq> 0" using c by simp
    then have "AES_BLOCK \<le> length chunk" using c(2) by (metis AES_BLOCK_def dvd_imp_le gr0I mod_0_imp_dvd)
    then show ?thesis using cbc_length [OF E(1) c(2)] by simp
  qed
  have dec: "inodes (w_fs w) i @ ?combined = aes_cbc_dec E key iv [] (fed @ chunk)"
    using s c(2) cbc_append [OF E(1), of fed chunk] by (simp add: stream_def)
  have "length fed mod AES_BLOCK = 0" using s by (simp add: stream_def)
  then have al: "length (fed @ chunk) mod AES_BLOCK = 0" using c(2) by (metis length_append mod_add_left_eq add_0)
  show ?thesis
  proof (cases "length ?combined \<le> AES_BLOCK")
    case True
    then have "length (upload_plain_tail ?x) + length ?plain \<le> AES_BLOCK" by simp
    with ge have "length (upload_plain_tail ?x) = 0" "length ?plain = AES_BLOCK" by linarith+
    then have tail: "upload_plain_tail ?x = []" "length ?plain = AES_BLOCK" by simp_all
    have run: "process_streaming_cipher_chunk E chunk False w = (Ok (),
        ?w1\<lparr>w_sess := (w_sess ?w1)\<lparr>xfer := (xfer (w_sess ?w1))\<lparr>upload_plain_tail := ?combined\<rparr>\<rparr>\<rparr>)"
      using s c True by (simp add: process_streaming_cipher_chunk_def cipher_decrypt_def stream_def bnd_assoc
          upd_xfer_def upd_sess_def Let_def)
    show ?thesis unfolding run
    proof (intro exI conjI)
      show "stream E key iv i (fed @ chunk) (?w1\<lparr>w_sess := (w_sess ?w1)\<lparr>xfer := (xfer (w_sess ?w1))\<lparr>upload_plain_tail := ?combined\<rparr>\<rparr>\<rparr>)"
        using s dec al tail c(1) by (simp add: stream_def)
    qed (simp_all add: stream_frame_def)
  next
    case False
    obtain n where wr: "write_plain_stream E (take ?k ?combined) ?w1 = (Ok (), ?w1\<lparr>w_tick := n,
        w_fs := (w_fs w)\<lparr>inodes := (inodes (w_fs w))(i := inodes (w_fs w) i @ take ?k ?combined)\<rparr>,
        w_sess := (w_sess ?w1)\<lparr>xfer := (xfer (w_sess ?w1))\<lparr>
          upload_plain_bytes_written := upload_plain_bytes_written ?x + len (take ?k ?combined),
          upload_crc32_state := crc32 (take ?k ?combined) (upload_crc32_state ?x)\<rparr>\<rparr>\<rparr>)" (is "_ = (Ok (), ?w2)")
      using write_plain_ok [OF E(2), of ?w1 i "take ?k ?combined"] s by (auto simp: stream_def)
    let ?w3 = "?w2\<lparr>w_sess := (w_sess ?w2)\<lparr>xfer := (xfer (w_sess ?w2))\<lparr>upload_plain_tail := drop ?k ?combined\<rparr>\<rparr>\<rparr>"
    have "upload_decrypt_cipher ?x = Some \<lparr>ci_key = key, ci_iv = iv, ci_fed = fed\<rparr>" using s by (simp add: stream_def)
    then have "process_streaming_cipher_chunk E chunk False w = bnd (write_plain_stream E (take ?k ?combined))
        (\<lambda>_. upd_xfer (\<lambda>x. x\<lparr>upload_plain_tail := drop ?k ?combined\<rparr>)) ?w1"
      using c False by (simp add: process_streaming_cipher_chunk_def cipher_decrypt_def bnd_assoc
          upd_xfer_def upd_sess_def Let_def del: take_append drop_append)
    also have "\<dots> = (Ok (), ?w3)" using wr by (simp add: bnd_def upd_xfer_def upd_sess_def del: take_append drop_append)
    finally have run: "process_streaming_cipher_chunk E chunk False w = (Ok (), ?w3)" .
    show ?thesis unfolding run
    proof (intro exI conjI)
      show "stream E key iv i (fed @ chunk) ?w3"
        using s dec al c(1) False by (simp add: stream_def crc32_append del: take_append drop_append)
    qed (simp_all add: stream_frame_def)
  qed
qed

text \<open>
  The last chunk: the padding is taken off what is still in memory, which is the padding of
  the whole plaintext.
\<close>

definition streamed :: "nat \<Rightarrow> bytes \<Rightarrow> world \<Rightarrow> bool" where
  "streamed i plain w \<longleftrightarrow> upload_tmp_file (xf w) = Some i \<and> inodes (w_fs w) i = plain \<and>
     upload_plain_bytes_written (xf w) = len plain \<and> upload_crc32_state (xf w) = crc32 plain 0"

lemma process_last:
  assumes E: "cbc_streams E" "unpad_last_block E" "disk_works E" and s: "stream E key iv i fed w"
    and c: "chunk \<noteq> []" "length chunk mod AES_BLOCK = 0"
  shows "case unpad E (aes_cbc_dec E key iv [] (fed @ chunk)) AES_BLOCK of
      None \<Rightarrow> \<exists>w'. process_streaming_cipher_chunk E chunk True w = (Raise ValueError, w') \<and>
        w_fs w' = w_fs w \<and> stream_frame i w w'
    | Some plain \<Rightarrow> \<exists>w'. process_streaming_cipher_chunk E chunk True w = (Ok (), w') \<and>
        streamed i plain w' \<and> stream_frame i w w'"
proof -
  let ?x = "xf w" and ?plain = "aes_cbc_dec E key iv fed chunk"
  let ?combined = "upload_plain_tail ?x @ ?plain"
  let ?w1 = "w\<lparr>w_sess := (w_sess w)\<lparr>xfer := ?x\<lparr>upload_decrypt_cipher := Some \<lparr>ci_key = key, ci_iv = iv, ci_fed = fed @ chunk\<rparr>\<rparr>\<rparr>\<rparr>"
  have fed: "length fed mod AES_BLOCK = 0" using s by (simp add: stream_def)
  have dec: "aes_cbc_dec E key iv [] (fed @ chunk) = inodes (w_fs w) i @ ?combined"
    using s c(2) cbc_append [OF E(1), of fed chunk] by (simp add: stream_def)
  have tail: "length (upload_plain_tail ?x) mod AES_BLOCK = 0" using s by (simp add: stream_def)
  have "length (inodes (w_fs w) i @ upload_plain_tail ?x) mod AES_BLOCK = 0"
    using s cbc_length [OF E(1) fed, of key iv "[]"] fed by (simp add: stream_def)
  then have disk: "length (inodes (w_fs w) i) mod AES_BLOCK = 0"
    using tail by (metis add_0_right length_append mod_add_right_eq)
  have comb: "length ?combined mod AES_BLOCK = 0" "?combined \<noteq> []"
  proof -
    show "length ?combined mod AES_BLOCK = 0"
      using tail c(2) cbc_length [OF E(1) c(2), of key iv fed] by (metis add_0 length_append mod_add_left_eq)
    show "?combined \<noteq> []" using c cbc_length [OF E(1) c(2), of key iv fed] by auto
  qed
  have whole: "unpad E (aes_cbc_dec E key iv [] (fed @ chunk)) AES_BLOCK =
      map_option (\<lambda>u. inodes (w_fs w) i @ u) (unpad E ?combined AES_BLOCK)"
    unfolding dec by (rule unpad_append [OF E(2) disk comb])
  note unfold = process_streaming_cipher_chunk_def cipher_decrypt_def stream_def bnd_assoc upd_xfer_def upd_sess_def Let_def
  show ?thesis
  proof (cases "unpad E ?combined AES_BLOCK")
    case None
    have "process_streaming_cipher_chunk E chunk True w = (Raise ValueError, ?w1)"
      using s c None by (simp add: unfold)
    moreover have "stream_frame i w ?w1"
      by (simp add: stream_frame_def)
    ultimately show ?thesis using whole None by simp
  next
    case (Some u)
    obtain n where wr: "write_plain_stream E u ?w1 = (Ok (), ?w1\<lparr>w_tick := n,
        w_fs := (w_fs w)\<lparr>inodes := (inodes (w_fs w))(i := inodes (w_fs w) i @ u)\<rparr>,
        w_sess := (w_sess ?w1)\<lparr>xfer := (xfer (w_sess ?w1))\<lparr>
          upload_plain_bytes_written := upload_plain_bytes_written ?x + len u,
          upload_crc32_state := crc32 u (upload_crc32_state ?x)\<rparr>\<rparr>\<rparr>)" (is "_ = (Ok (), ?w2)")
      using write_plain_ok [OF E(3), of ?w1 i u] s by (auto simp: stream_def)
    let ?w3 = "?w2\<lparr>w_sess := (w_sess ?w2)\<lparr>xfer := (xfer (w_sess ?w2))\<lparr>upload_plain_tail := []\<rparr>\<rparr>\<rparr>"
    have "process_streaming_cipher_chunk E chunk True w =
        bnd (write_plain_stream E u) (\<lambda>_. upd_xfer (\<lambda>x. x\<lparr>upload_plain_tail := []\<rparr>)) ?w1"
      using s c Some by (simp add: unfold)
    also have "\<dots> = (Ok (), ?w3)" using wr by (simp add: bnd_def upd_xfer_def upd_sess_def)
    finally have "process_streaming_cipher_chunk E chunk True w = (Ok (), ?w3)" .
    moreover have "streamed i (inodes (w_fs w) i @ u) ?w3"
      using s by (simp add: streamed_def stream_def crc32_append)
    moreover have "stream_frame i w ?w3" by (simp add: stream_frame_def)
    ultimately show ?thesis using whole Some by auto
  qed
qed

section \<open>A whole ciphertext in chunks\<close>

primrec stream_all :: "env \<Rightarrow> bytes list \<Rightarrow> unit act" where
  "stream_all E [] = ret ()"
| "stream_all E (c # cs) = bnd (process_streaming_cipher_chunk E c (cs = [])) (\<lambda>_. stream_all E cs)"

lemma stream_all_run:
  assumes E: "cbc_streams E" "unpad_last_block E" "disk_works E"
  shows "stream E key iv i fed w \<Longrightarrow> chunks \<noteq> [] \<Longrightarrow> \<forall>c \<in> set chunks. c \<noteq> [] \<and> length c mod AES_BLOCK = 0 \<Longrightarrow>
    (case unpad E (aes_cbc_dec E key iv [] (fed @ concat chunks)) AES_BLOCK of
       None \<Rightarrow> \<exists>w'. stream_all E chunks w = (Raise ValueError, w')
     | Some plain \<Rightarrow> \<exists>w'. stream_all E chunks w = (Ok (), w') \<and> streamed i plain w')"
proof (induction chunks arbitrary: fed w)
  case (Cons c cs)
  then have c: "c \<noteq> []" "length c mod AES_BLOCK = 0" by auto
  show ?case
  proof (cases "cs = []")
    case True
    from process_last [OF E Cons.prems(1) c] True show ?thesis
      by (auto simp: bnd_Ok bnd_Raise split: option.splits)
  next
    case False
    obtain w1 where w1: "process_streaming_cipher_chunk E c False w = (Ok (), w1)" "stream E key iv i (fed @ c) w1"
      using process_more [OF E(1,3) Cons.prems(1) c] by blast
    have "stream_all E (c # cs) w = stream_all E cs w1" using w1(1) False by (simp add: bnd_def)
    with Cons.IH [OF w1(2) False] Cons.prems(3) show ?thesis
      by (simp del: stream_all.simps split: option.splits)
  qed
qed simp

text \<open>C10: streaming is decrypting: when an upload has just been started, feeding its ciphertext in any
  non-empty block-aligned chunks leaves in the temporary file exactly the unpadded
  decryption of the whole ciphertext, with its length and its CRC-32 in the counters; and
  it raises \<open>ValueError\<close> exactly when the padding of the whole is wrong.\<close>

theorem streaming_equals_one_shot:
  assumes "cbc_streams E" and "unpad_last_block E" and "disk_works E"
    and "upload_tmp_file (xf w) = Some i" and "inodes (w_fs w) i = []"
    and "upload_decrypt_cipher (xf w) = Some \<lparr>ci_key = key, ci_iv = iv, ci_fed = []\<rparr>"
    and "upload_plain_tail (xf w) = []" and "upload_plain_bytes_written (xf w) = 0" and "upload_crc32_state (xf w) = 0"
    and "chunks \<noteq> []" and "\<forall>c \<in> set chunks. c \<noteq> [] \<and> length c mod AES_BLOCK = 0"
  shows "case unpad E (aes_cbc_dec E key iv [] (concat chunks)) AES_BLOCK of
      None \<Rightarrow> \<exists>w'. stream_all E chunks w = (Raise ValueError, w')
    | Some plain \<Rightarrow> \<exists>w'. stream_all E chunks w = (Ok (), w') \<and> inodes (w_fs w') i = plain \<and>
        upload_plain_bytes_written (xf w') = len plain \<and> upload_crc32_state (xf w') = crc32 plain 0"
proof -
  have "stream E key iv i [] w" using assms(4-9) cbc_nil [OF assms(1)] by (simp add: stream_def)
  from stream_all_run [OF assms(1-3) this assms(10,11)] show ?thesis
    by (simp add: streamed_def split: option.splits) blast
qed

text \<open>The padding of the concrete world only looks at the last block.\<close>

lemma pkcs7_unpad_append:
  assumes "0 < n" and "length a mod n = 0" and "length b mod n = 0" and "b \<noteq> []"
  shows "pkcs7_unpad (a @ b) n = map_option (\<lambda>u. a @ u) (pkcs7_unpad b n)"
proof -
  have "n \<le> length b" using assms by (metis dvd_imp_le length_greater_0_conv mod_0_imp_dvd)
  moreover have "length (a @ b) mod n = 0" using assms(2,3) by (metis add_0 length_append mod_add_left_eq)
  ultimately show ?thesis
    using assms(3,4) by (auto simp: pkcs7_unpad_def Let_def)
qed

lemma env_example_streams: "cbc_streams env_example" "unpad_last_block env_example" "disk_works env_example"
  by (simp_all add: cbc_streams_def unpad_last_block_def disk_works_def AES_BLOCK_def pkcs7_unpad_append)

theorem streaming_equals_one_shot_witness:
  "\<exists>w'. stream_all env_example [replicate 16 5, replicate 16 16] (world_example\<lparr>w_sess := session_example\<lparr>xfer :=
       no_transfer\<lparr>upload_tmp_file := Some 0, upload_decrypt_cipher := Some \<lparr>ci_key = [], ci_iv = [], ci_fed = []\<rparr>\<rparr>\<rparr>\<rparr>) = (Ok (), w') \<and>
     inodes (w_fs w') 0 = replicate 16 5 \<and> upload_plain_bytes_written (xf w') = 16"
proof -
  let ?w = "world_example\<lparr>w_sess := session_example\<lparr>xfer :=
       no_transfer\<lparr>upload_tmp_file := Some 0, upload_decrypt_cipher := Some \<lparr>ci_key = [], ci_iv = [], ci_fed = []\<rparr>\<rparr>\<rparr>\<rparr>"
  have "pkcs7_unpad (replicate 16 5 @ replicate 16 16) 16 = Some (replicate 16 5)"
    by (simp add: pkcs7_unpad_append) (simp add: pkcs7_unpad_def)
  with streaming_equals_one_shot [OF env_example_streams, of ?w 0 "[]" "[]" "[replicate 16 5, replicate 16 16]"]
  show ?thesis by (auto simp: no_transfer_def AES_BLOCK_def)
qed

end
