(* ===== verification/Upload_Paths.thy ===== *)
theory Upload_Paths
  imports Handlers_Upload
begin

text \<open>
  Where uploads end up: the path \<open>request_828\<close> computes from the client id and the file name
  a client sends, on every name, and the directories and the temporary file it makes there.
\<close>

section \<open>The paths\<close>

abbreviation uploads_root :: pystr where "uploads_root \<equiv> lit ''data/uploads''"

abbreviation user_dir :: "pystr \<Rightarrow> pystr" where "user_dir chex \<equiv> uploads_root @ SEP # chex"

lemma uploads_root_code: "uploads_root = lit ''data'' @ SEP # lit ''uploads''"
  by (simp add: lit_def)

lemma bytes_hex_component:
  assumes "cid \<noteq> []"
  shows "bytes_hex cid \<noteq> []" "SEP \<notin> set (bytes_hex cid)" "bytes_hex cid \<noteq> DOT" "bytes_hex cid \<noteq> DOTDOT"
proof -
  show "bytes_hex cid \<noteq> []" using assms by (metis length_0_conv length_bytes_hex mult_eq_0_iff zero_neq_numeral)
  then show "SEP \<notin> set (bytes_hex cid)" "bytes_hex cid \<noteq> DOT" "bytes_hex cid \<noteq> DOTDOT"
    using bytes_hex_chars [of cid] by (auto simp: DOT_def DOTDOT_def)
qed

lemma join_user_dir: "cid \<noteq> [] \<Longrightarrow> path_join uploads_root (bytes_hex cid) = user_dir (bytes_hex cid)"
  using bytes_hex_component(1,2) [of cid] by (cases "bytes_hex cid") (auto simp: path_join_def lit_def)

lemma join_user_file:
  assumes "cid \<noteq> []" and "SEP \<notin> set name"
  shows "path_join (user_dir (bytes_hex cid)) name = user_dir (bytes_hex cid) @ SEP # name"
proof -
  have "last (user_dir (bytes_hex cid)) \<noteq> SEP"
    using bytes_hex_component(1,2) [OF assms(1)] by (cases "bytes_hex cid" rule: rev_cases) auto
  then show ?thesis using assms(2) by (cases name) (auto simp: path_join_def)
qed

lemma split_user_file:
  assumes "cid \<noteq> []" and "SEP \<notin> set name"
  shows "split_sep (user_dir (bytes_hex cid) @ SEP # name) = [lit ''data'', lit ''uploads'', bytes_hex cid, name]"
proof -
  have "SEP \<notin> set (lit ''data'')" "SEP \<notin> set (lit ''uploads'')" by (simp_all add: lit_def)
  then show ?thesis
    using bytes_hex_component(2) [OF assms(1)] assms(2)
    by (simp add: uploads_root_code split_sep_append split_sep_no_sep)
qed

lemma norm_user_file:
  assumes "cid \<noteq> []"
  shows "norm_comps False [] [lit ''data'', lit ''uploads'', bytes_hex cid, name] =
    (if name = [] \<or> name = DOT then [lit ''data'', lit ''uploads'', bytes_hex cid]
     else if name = DOTDOT then [lit ''data'', lit ''uploads'']
     else [lit ''data'', lit ''uploads'', bytes_hex cid, name])"
proof -
  have "lit ''data'' \<notin> {[], DOT, DOTDOT}" "lit ''uploads'' \<notin> {[], DOT, DOTDOT}"
    by (simp_all add: lit_def DOT_def DOTDOT_def)
  then show ?thesis using bytes_hex_component [OF assms] by (auto simp: DOT_def DOTDOT_def)
qed

section \<open>The files\<close>

lemma parent_user_file:
  assumes "SEP \<notin> set name" shows "path_parent (d @ SEP # name) = d"
proof -
  have "dropWhile (\<lambda>c. c \<noteq> SEP) (rev name @ SEP # rev d) = SEP # rev d"
    using assms by (subst dropWhile_append2) auto
  then show ?thesis by (simp add: path_parent_def)
qed

lemma prefixes_user_dir:
  assumes "cid \<noteq> []"
  shows "path_prefixes (user_dir (bytes_hex cid)) = [lit ''data'', uploads_root, user_dir (bytes_hex cid)]"
proof -
  have "SEP \<notin> set (lit ''data'')" "SEP \<notin> set (lit ''uploads'')" by (simp_all add: lit_def)
  then have "split_sep (user_dir (bytes_hex cid)) = [lit ''data'', lit ''uploads'', bytes_hex cid]"
    using bytes_hex_component(2) [OF assms] by (simp add: uploads_root_code split_sep_append split_sep_no_sep)
  then show ?thesis by (simp add: path_prefixes_def uploads_root_code upt_rec)
qed

lemma open_wb_ok:
  "entries fs p \<noteq> Some FDir \<Longrightarrow> parent_is_dir fs p \<Longrightarrow>
    \<exists>i fs'. fs_open_wb p fs = (Ok i, fs') \<and> entries fs' = (entries fs)(p \<mapsto> FFile i)"
  by (auto simp: fs_open_wb_def fun_upd_idem split: option.splits fnode.splits)

text \<open>No file stands where the directories of the client belong.\<close>

definition dirs_free :: "pystr \<Rightarrow> filesystem \<Rightarrow> bool" where
  "dirs_free chex fs \<longleftrightarrow> (\<forall>p \<in> {lit ''data'', uploads_root, user_dir chex}. entries fs p = None \<or> entries fs p = Some FDir)"

lemma makedirs_user_dir:
  assumes "cid \<noteq> []" and "dirs_free (bytes_hex cid) fs"
  shows "fs_makedirs (user_dir (bytes_hex cid)) fs = (Ok (), fs\<lparr>entries := (entries fs)(lit ''data'' \<mapsto> FDir,
    uploads_root \<mapsto> FDir, user_dir (bytes_hex cid) \<mapsto> FDir)\<rparr>)"
proof -
  have mk: "mkdirs (p # ps) f = mkdirs ps (f\<lparr>entries := (entries f)(p \<mapsto> FDir)\<rparr>)"
    if "entries f p = None \<or> entries f p = Some FDir" for p ps and f :: filesystem
    using that by (auto simp: fun_upd_idem)
  have "lit ''data'' \<noteq> uploads_root" "lit ''data'' \<noteq> user_dir (bytes_hex cid)" "uploads_root \<noteq> user_dir (bytes_hex cid)"
    by (simp_all add: lit_def)
  then show ?thesis
    using assms(2) unfolding fs_makedirs_def prefixes_user_dir [OF assms(1)] dirs_free_def
    by (subst mk, simp, subst mk, simp, subst mk, simp_all)
qed

section \<open>Containment\<close>

lemma upload_path_value:
  assumes "cid \<noteq> []"
  shows "upload_out_path (bytes_hex cid) (path_basename n) =
    (if path_basename n = [] \<or> path_basename n = DOT then user_dir (bytes_hex cid)
     else if path_basename n = DOTDOT then uploads_root
     else user_dir (bytes_hex cid) @ SEP # path_basename n)"
proof -
  let ?name = "path_basename n"
  let ?comps = "norm_comps False [] [lit ''data'', lit ''uploads'', bytes_hex cid, ?name]"
  have hd: "initial_slashes (user_dir (bytes_hex cid) @ SEP # ?name) = 0" "user_dir (bytes_hex cid) @ SEP # ?name \<noteq> []"
    by (rule initial_slashes_rel) (simp_all add: lit_def)
  have "join_sep ?comps \<noteq> []" unfolding norm_user_file [OF assms] by (simp add: lit_def)
  have "upload_out_path (bytes_hex cid) ?name = path_normpath (user_dir (bytes_hex cid) @ SEP # ?name)"
    using join_user_dir join_user_file path_basename_no_sep assms by (simp add: upload_out_path_def)
  also have "\<dots> = join_sep ?comps"
    unfolding path_normpath_def Let_def hd(1) split_user_file [OF assms path_basename_no_sep]
    using hd(2) \<open>join_sep ?comps \<noteq> []\<close> by (simp del: norm_comps.simps)
  finally show ?thesis
    unfolding norm_user_file [OF assms] by (simp add: uploads_root_code)
qed

text \<open>C18: where an upload is written: for every file name a client can send (its last component is what
  counts), the path is the file of that name in the client's own directory under
  \<open>data/uploads\<close>, with three exceptions: an empty name and \<open>.\<close> give the directory itself,
  and \<open>..\<close> gives \<open>data/uploads\<close>, so that nothing outside of \<open>data/uploads\<close> is named, and
  two clients never share a path unless one sent \<open>..\<close>.\<close>

theorem upload_path_exact:
  assumes "cid \<noteq> []"
  shows "upload_out_path (bytes_hex cid) (path_basename n) =
    (if path_basename n = [] \<or> path_basename n = DOT then user_dir (bytes_hex cid)
     else if path_basename n = DOTDOT then uploads_root
     else user_dir (bytes_hex cid) @ SEP # path_basename n)"
  using assms by (rule upload_path_value)

theorem upload_path_exact_witness:
  "upload_out_path (bytes_hex [255]) (path_basename (lit ''../../etc/passwd'')) = lit ''data/uploads/ff/passwd''"
proof -
  have "[255 :: byte] \<noteq> []" by simp
  note t = upload_path_exact [OF this, of "lit ''../../etc/passwd''"]
  have b: "path_basename (lit ''../../etc/passwd'') = lit ''passwd''" by (simp add: path_basename_def lit_def)
  have h: "bytes_hex [255] = lit ''ff''" by (simp add: lit_def hex_digit_def)
  show ?thesis using t unfolding b h by (simp add: lit_def DOT_def DOTDOT_def)
qed

end
