(* ===== verification/Load_Client.thy ===== *)
theory Load_Client
  imports Handlers_Upload
begin

text \<open>
  The client side of the wire format, as the load generator \<open>server/tools/load_test.py\<close> has it:
  building requests, reading responses, cutting a ciphertext into packets. The facts are
  round trips with the server's own parsing and with its responses.
\<close>

section \<open>Requests\<close>

definition build_request_frame :: "bytes \<Rightarrow> int \<Rightarrow> bytes \<Rightarrow> bytes \<Rightarrow> bytes res" where
  "build_request_frame client_id code payload version =
     (if length client_id \<noteq> 16 then Raise ValueError
      else res_bnd (to_bytes 2 code) (\<lambda>c. res_bnd (to_bytes 4 (len payload)) (\<lambda>n.
        Ok (client_id @ version @ c @ n @ payload))))"

definition build_825_payload :: "pystr \<Rightarrow> bytes res" where
  "build_825_payload user = res_bnd (utf8_encode user) (\<lambda>name. Ok (name @ [0]))"

definition build_826_payload :: "pystr \<Rightarrow> bytes \<Rightarrow> bytes res" where
  "build_826_payload user public_b64 = res_bnd (utf8_encode user) (\<lambda>name. Ok (name @ [0] @ public_b64))"

definition build_828_packet :: "int \<Rightarrow> int \<Rightarrow> int \<Rightarrow> int \<Rightarrow> pystr \<Rightarrow> bytes \<Rightarrow> bytes res" where
  "build_828_packet csize osize pnum ptotal file_name chunk =
     res_bnd (to_bytes 4 csize) (\<lambda>a. res_bnd (to_bytes 4 osize) (\<lambda>b.
     res_bnd (to_bytes 2 pnum) (\<lambda>c. res_bnd (to_bytes 2 ptotal) (\<lambda>d.
     res_bnd (utf8_encode file_name) (\<lambda>name. Ok (a @ b @ c @ d @ name @ [0] @ chunk))))))"

text \<open>The payloads \<open>upload_client\<close> sends for one file: the IV in packet 0, then the chunks from packet 1 on.\<close>

primrec data_packets :: "int \<Rightarrow> int \<Rightarrow> int \<Rightarrow> pystr \<Rightarrow> int \<Rightarrow> bytes list \<Rightarrow> bytes list res" where
  "data_packets csize osize ptotal file_name idx [] = Ok []"
| "data_packets csize osize ptotal file_name idx (ch # chs) =
     res_bnd (build_828_packet csize osize idx ptotal file_name ch) (\<lambda>packet.
     res_bnd (data_packets csize osize ptotal file_name (idx + 1) chs) (\<lambda>packets. Ok (packet # packets)))"

definition upload_packets :: "int \<Rightarrow> int \<Rightarrow> int \<Rightarrow> pystr \<Rightarrow> bytes \<Rightarrow> bytes list \<Rightarrow> bytes list res" where
  "upload_packets csize osize ptotal file_name iv chunks =
     res_bnd (build_828_packet csize osize 0 ptotal file_name iv) (\<lambda>packet0.
     res_bnd (data_packets csize osize ptotal file_name 1 chunks) (\<lambda>packets. Ok (packet0 # packets)))"

text \<open>\<open>chunk_bytes\<close>: \<open>range(0, len(data), chunk_size)\<close> refuses a step of 0 and is empty for a negative one.\<close>

function chunks_from :: "nat \<Rightarrow> bytes \<Rightarrow> bytes list" where
  "chunks_from n data = (if data = [] \<or> n = 0 then [] else take n data # chunks_from n (drop n data))"
  by auto
termination by (relation "measure (length \<circ> snd)") auto

declare chunks_from.simps [simp del]

definition chunk_bytes :: "bytes \<Rightarrow> int \<Rightarrow> bytes list res" where
  "chunk_bytes data chunk_size =
     (if chunk_size = 0 then Raise ValueError else Ok (chunks_from (nat chunk_size) data))"

section \<open>Responses\<close>

text \<open>
  Reading a response from what the server has sent so far: \<open>None\<close> while it is not complete;
  otherwise the response and the bytes after it.
\<close>

definition read_exact :: "nat \<Rightarrow> bytes \<Rightarrow> (bytes \<times> bytes) option" where
  "read_exact n sent = (if length sent < n then None else Some (take n sent, drop n sent))"

definition RESPONSE_HEADER_LEN :: nat where "RESPONSE_HEADER_LEN = 7"

definition read_response_frame :: "bytes \<Rightarrow> ((bytes \<times> int \<times> bytes) \<times> bytes) option" where
  "read_response_frame sent = (case read_exact RESPONSE_HEADER_LEN sent of
      None \<Rightarrow> None
    | Some (header, rest) \<Rightarrow>
        let version = take 1 header; code = le_decode (take 2 (drop 1 header));
            payload_size = le_decode (take 4 (drop 3 header)) in
        if payload_size = 0 then Some ((version, code, []), rest)
        else (case read_exact (nat payload_size) rest of
            None \<Rightarrow> None
          | Some (payload, rest') \<Rightarrow> Some ((version, code, payload), rest')))"

definition parse_stage7_aes_key_response :: "bytes \<Rightarrow> bytes \<Rightarrow> pystr \<Rightarrow> (bytes \<times> bytes \<times> bytes) res" where
  "parse_stage7_aes_key_response payload expected name =
     (if length payload < 20 then Raise (LoadError (lit ''bad_'' @ name @ lit ''_payload_len''))
      else let returned = take 16 payload in
      if returned \<noteq> expected then Raise (LoadError (lit ''client_id_mismatch_after_'' @ name))
      else let enc_key_end = 18 + nat (le_decode (take 2 (drop 16 payload))) in
      if length payload < enc_key_end + 2 then Raise (LoadError (lit ''bad_'' @ name @ lit ''_enc_key_len''))
      else let encrypted = take (enc_key_end - 18) (drop 18 payload);
               sig_end = enc_key_end + 2 + nat (le_decode (take 2 (drop enc_key_end payload))) in
      if length payload \<noteq> sig_end then Raise (LoadError (lit ''bad_'' @ name @ lit ''_sig_len''))
      else Ok (returned, encrypted, drop (enc_key_end + 2) payload))"

section \<open>Round trips of requests\<close>

lemma chunks_from_concat: "0 < n \<Longrightarrow> concat (chunks_from n data) = data"
  by (induction n data rule: chunks_from.induct) (subst chunks_from.simps, auto)

lemma chunks_from_sizes: "c \<in> set (chunks_from n data) \<Longrightarrow> c \<noteq> [] \<and> length c \<le> n"
proof (induction n data rule: chunks_from.induct)
  case (1 n data)
  then show ?case by (subst (asm) (2) chunks_from.simps) (auto split: if_splits)
qed

lemma chunks_from_aligned:
  "n mod AES_BLOCK = 0 \<Longrightarrow> length data mod AES_BLOCK = 0 \<Longrightarrow> c \<in> set (chunks_from n data) \<Longrightarrow> length c mod AES_BLOCK = 0"
proof (induction n data rule: chunks_from.induct)
  case (1 n data)
  have "length (drop n data) mod AES_BLOCK = 0"
  proof (cases "n \<le> length data")
    case True
    then show ?thesis using 1(2,3) by (simp add: mod_eq_0_iff_dvd dvd_diff_nat)
  qed simp
  moreover have "length (take n data) mod AES_BLOCK = 0" using 1(2,3) by (simp add: min_def)
  moreover have "c \<in> set (if data = [] \<or> n = 0 then [] else take n data # chunks_from n (drop n data))"
    using 1(4) by (subst (asm) chunks_from.simps)
  ultimately show ?case using 1(1) [OF _ 1(2)] by (auto split: if_splits)
qed

text \<open>Cutting a ciphertext: for a positive chunk size \<open>chunk_bytes\<close> gives non-empty pieces of at most that
  size whose concatenation is the ciphertext, all of them whole AES blocks when the size and the
  ciphertext are.\<close>

lemma chunk_bytes_partition:
  assumes "0 < chunk_size"
  shows "\<exists>cs. chunk_bytes data chunk_size = Ok cs \<and> concat cs = data \<and>
    (\<forall>c \<in> set cs. c \<noteq> [] \<and> len c \<le> chunk_size) \<and>
    (nat chunk_size mod AES_BLOCK = 0 \<longrightarrow> length data mod AES_BLOCK = 0 \<longrightarrow> (\<forall>c \<in> set cs. length c mod AES_BLOCK = 0))"
proof (intro exI conjI)
  show "chunk_bytes data chunk_size = Ok (chunks_from (nat chunk_size) data)"
    using assms by (simp add: chunk_bytes_def)
  show "concat (chunks_from (nat chunk_size) data) = data" using assms by (simp add: chunks_from_concat)
  show "\<forall>c \<in> set (chunks_from (nat chunk_size) data). c \<noteq> [] \<and> len c \<le> chunk_size"
    using chunks_from_sizes assms by fastforce
  show "nat chunk_size mod AES_BLOCK = 0 \<longrightarrow> length data mod AES_BLOCK = 0 \<longrightarrow>
      (\<forall>c \<in> set (chunks_from (nat chunk_size) data). length c mod AES_BLOCK = 0)"
    by (intro impI ballI) (rule chunks_from_aligned)
qed

text \<open>A request survives the wire: the frame the client builds is one frame for the server's framer, and
  the router reads back the id, the version, the code and the payload the client put in.\<close>

lemma request_frame_fields:
  assumes "build_request_frame cid code payload version = Ok frame" and "length version = 1"
    and "len payload \<le> limit"
  shows "is_frame limit frame \<and> take 16 frame = cid \<and> take 1 (drop 16 frame) = version \<and>
    le_decode (take 2 (drop 17 frame)) = code \<and>
    take (nat (le_decode (take 4 (drop 19 frame)))) (drop 23 frame) = payload"
proof -
  have a: "length cid = 16" "0 \<le> code" "code < 256 ^ 2" "len payload < 256 ^ 4"
      "frame = cid @ version @ le_encode 2 code @ le_encode 4 (len payload) @ payload"
    using assms(1) by (auto simp: build_request_frame_def res_bnd_Ok to_bytes_Ok split: if_splits)
  have f: "take 16 frame = cid" "take 1 (drop 16 frame) = version" "take 2 (drop 17 frame) = le_encode 2 code"
      "take 4 (drop 19 frame) = le_encode 4 (len payload)" "drop 23 frame = payload" "length frame = 23 + length payload"
    using a(1) assms(2) by (simp_all add: a(5) del: le_encode.simps)
  have "header_payload_size frame = len payload"
    using f(4) a(4) by (simp add: header_payload_size_def PAYLOAD_SIZE_OFFSET_def HEADER_LEN_def le_decode_encode del: le_encode.simps)
  then have "is_frame limit frame" using f(6) assms(3) by (simp add: is_frame_def HEADER_LEN_def)
  then show ?thesis using f a(2-4) by (simp add: le_decode_encode del: le_encode.simps)
qed

text \<open>What \<open>request_828\<close> reads out of a packet.\<close>

lemma packet_828_fields:
  assumes "build_828_packet csize osize pnum ptotal name chunk = Ok p" and "0 \<notin> set name"
  shows "header_ints p = (csize, osize, pnum, ptotal)"
    and "find_nul (drop 12 p) = int (length (utf8_bytes name))"
    and "utf8_decode (take (nat (find_nul (drop 12 p))) (drop 12 p)) = Some name"
    and "drop (nat (find_nul (drop 12 p)) + 1) (drop 12 p) = chunk"
proof -
  have a: "0 \<le> csize" "csize < 256 ^ 4" "0 \<le> osize" "osize < 256 ^ 4" "0 \<le> pnum" "pnum < 256 ^ 2" "0 \<le> ptotal" "ptotal < 256 ^ 2"
      "list_all valid_cp name"
      "p = le_encode 4 csize @ le_encode 4 osize @ le_encode 2 pnum @ le_encode 2 ptotal @ utf8_bytes name @ 0 # chunk"
    using assms(1)
    by (auto simp: build_828_packet_def res_bnd_Ok to_bytes_Ok utf8_encode_def split: if_splits)
  have d: "take 4 p = le_encode 4 csize" "take 4 (drop 4 p) = le_encode 4 osize" "take 2 (drop 8 p) = le_encode 2 pnum"
      "take 2 (drop 10 p) = le_encode 2 ptotal" "drop 12 p = utf8_bytes name @ 0 # chunk"
    by (simp_all add: a(10) del: le_encode.simps)
  show "header_ints p = (csize, osize, pnum, ptotal)"
    using a(1-8) d by (simp add: header_ints_def le_decode_encode del: le_encode.simps)
  show f: "find_nul (drop 12 p) = int (length (utf8_bytes name))"
    unfolding d(5) by (rule find_nul_append) (rule utf8_bytes_no_nul [OF a(9) assms(2)])
  show "utf8_decode (take (nat (find_nul (drop 12 p))) (drop 12 p)) = Some name"
    using f d(5) utf8_decode_encode [OF a(9)] by simp
  show "drop (nat (find_nul (drop 12 p)) + 1) (drop 12 p) = chunk" using f d(5) by simp
qed

section \<open>Round trips of responses\<close>

text \<open>A response survives the wire: reading the bytes of a response the server has built gives back its
  version, code and payload and leaves what follows it, so responses sent back to back are
  read one by one.\<close>

lemma response_roundtrip:
  assumes "message_answer version code (len payload) payload = Ok m"
  shows "read_response_frame (m @ rest) = Some ((version, code, payload), rest)"
proof -
  have a: "length version = 1" "0 \<le> code" "code < 256 ^ 2" "len payload < 256 ^ 4"
      "m = version @ le_encode 2 code @ le_encode 4 (len payload) @ payload"
    using assms by (auto simp: message_answer_def res_bnd_Ok to_bytes_Ok split: if_splits)
  then obtain v where v: "version = [v]" by (auto simp: length_Suc_conv)
  let ?h = "v # le_encode 2 code @ le_encode 4 (len payload)"
  have h: "read_exact RESPONSE_HEADER_LEN (m @ rest) = Some (?h, payload @ rest)"
    by (simp add: read_exact_def RESPONSE_HEADER_LEN_def a(5) v del: le_encode.simps)
  have f: "le_decode (take 2 (drop 1 ?h)) = code" "le_decode (take 4 (drop 3 ?h)) = len payload"
    using a(2-4) by (simp_all add: le_decode_encode del: le_encode.simps)
  show ?thesis
    unfolding read_response_frame_def h option.case prod.case Let_def f by (simp add: read_exact_def v)
qed

lemma response_roundtrip_witness:
  "read_response_frame ([3] @ [65, 6] @ [0, 0, 0, 0] @ [8, 8]) = Some (([3], 1601, []), [8, 8])"
proof -
  have "message_answer [3] 1601 (len ([] :: bytes)) [] = Ok ([3] @ [65, 6] @ [0, 0, 0, 0])"
    by (simp add: message_answer_def to_bytes_def le_encode_fields)
  from response_roundtrip [OF this, of "[8, 8]"] show ?thesis by simp
qed

text \<open>C34: a bound AES key survives the wire: the client's parser takes the payload of a response 1602 or
  1605 apart into exactly the id, the encrypted key and the signature the server put in, and
  refuses it for any other client id.\<close>

theorem aes_key_response_roundtrip:
  assumes "build_bound_aes_key_payload E ct cid code s = Ok payload" and "length cid = 16"
  shows "parse_stage7_aes_key_response payload expected name =
    (if expected = cid then Ok (cid, ct, drop (20 + length ct) payload)
     else Raise (LoadError (lit ''client_id_mismatch_after_'' @ name))) \<and>
    (\<exists>sv cn sn. security_version s = Some sv \<and> client_nonce s = Some cn \<and> server_nonce s = Some sn \<and>
       sign_aes_key_binding E (server_identity_key s) sv cn sn cid code ct = Ok (drop (20 + length ct) payload))"
proof -
  obtain sv cn sn sig where s: "security_version s = Some sv" "client_nonce s = Some cn" "server_nonce s = Some sn"
      "sign_aes_key_binding E (server_identity_key s) sv cn sn cid code ct = Ok sig"
      "len ct < 256 ^ 2" "len sig < 256 ^ 2" and p: "payload = cid @ le_encode 2 (len ct) @ ct @ le_encode 2 (len sig) @ sig"
    using assms(1)
    by (auto simp: build_bound_aes_key_payload_def res_bnd_Ok to_bytes_Ok split: if_splits option.splits)
  have f: "take 16 payload = cid" "take 2 (drop 16 payload) = le_encode 2 (len ct)"
      "take (length ct) (drop 18 payload) = ct" "take 2 (drop (18 + length ct) payload) = le_encode 2 (len sig)"
      "drop (20 + length ct) payload = sig" "length payload = 20 + length ct + length sig"
    using assms(2) by (simp_all add: p del: le_encode.simps)
  have "le_decode (le_encode 2 (len ct)) = len ct" "le_decode (le_encode 2 (len sig)) = len sig"
    using s(5,6) by (simp_all add: le_decode_encode del: le_encode.simps)
  then have "parse_stage7_aes_key_response payload expected name =
      (if expected = cid then Ok (cid, ct, sig) else Raise (LoadError (lit ''client_id_mismatch_after_'' @ name)))"
    using f by (simp add: parse_stage7_aes_key_response_def Let_def del: le_encode.simps)
  with s f(5) show ?thesis by simp
qed

theorem aes_key_response_roundtrip_witness:
  "parse_stage7_aes_key_response (zeros 16 @ [1, 0] @ [9] @ [1, 0] @ [7]) (zeros 16) (lit ''1602'') = Ok (zeros 16, [9], [7])"
proof -
  let ?s = "session_example\<lparr>handshake_verified := True, security_version := Some 1, client_nonce := Some (zeros 32),
    server_nonce := Some (zeros 32)\<rparr>"
  have "build_bound_aes_key_payload env_example [9] (zeros 16) 1602 ?s = Ok (zeros 16 @ [1, 0] @ [9] @ [1, 0] @ [7])"
    by (simp add: build_bound_aes_key_payload_def sign_aes_key_binding_def aes_key_binding_transcript_def
        to_bytes_def le_encode_fields)
  from aes_key_response_roundtrip [OF this, of "zeros 16"] show ?thesis by simp
qed

end
