(* ===== verification/Upload_Session.thy ===== *)
theory Upload_Session
  imports Upload_Stream Upload_Paths Load_Client Key_Binding
begin

text \<open>
  A whole upload, packet by packet: the packets a client builds from a ciphertext, served in
  order by \<open>request_828\<close>, leave the plaintext under the upload path and answer 1603 with its
  CRC. \<open>uploading\<close> is the state between two packets.
\<close>

section \<open>An outside that works\<close>

definition all_well :: "env \<Rightarrow> bool" where
  "all_well E \<longleftrightarrow> cbc_streams E \<and> unpad_last_block E \<and> disk_works E \<and>
     (\<forall>n. drain_outcome E n = None) \<and> (\<forall>n. sql E n = SqlOk)"

lemma all_wellD:
  assumes "all_well E"
  shows "cbc_streams E" "unpad_last_block E" "disk_works E" "drain_outcome E n = None" "sql E n = SqlOk" "\<not> os_fails E n"
  using assms by (simp_all add: all_well_def disk_works_def)

text \<open>A store that is open and coherent and knows the client.\<close>

definition knows :: "pystr \<Rightarrow> store \<Rightarrow> bool" where
  "knows c st \<longleftrightarrow> store_inv st \<and> sqlite_connected st \<and> c \<in> client_id_hex ` set (clients_table st)"

lemma touch_client_ok:
  assumes "all_well E" and "knows c (w_store w)"
  shows "\<exists>st. touch_client E c' w = (Ok (), w\<lparr>w_tick := w_tick w + 2, w_store := st\<rparr>) \<and> knows c st \<and>
    uploads_table st = uploads_table (w_store w)"
proof -
  let ?f = "\<lambda>r. r\<lparr>last_seen := wall E (w_tick w)\<rparr>"
  obtain st where st: "update_client SqlOk c' ?f (w_store w) = (Ok (c' \<in> client_id_hex ` set (clients_table (w_store w))), st)"
      "store_inv st" "sqlite_connected st" "clients_table st = map (upd_row c' ?f) (clients_table (w_store w))"
      "uploads_table st = uploads_table (w_store w)"
    using update_client_run [of "w_store w" SqlOk ?f c'] assms(2) by (auto simp: knows_def)
  have "client_id_hex ` set (clients_table st) = client_id_hex ` set (clients_table (w_store w))"
    using st(4) by simp
  then have "knows c st" using assms(2) st(2,3) by (simp add: knows_def)
  moreover have "touch_client E c' w = (Ok (), w\<lparr>w_tick := w_tick w + 2, w_store := st\<rparr>)"
    using st(1) all_wellD(5) [OF assms(1)]
    by (simp add: touch_client_def next_of_def bnd_def on_store_def touch_client_last_seen_def)
  ultimately show ?thesis using st(5) by blast
qed

lemma knows_log [simp]: "knows c (log_append k e st) = knows c st"
  by (simp add: knows_def)

lemma mark_upload_progress_run:
  "mark_upload_progress E w = (Ok (), w\<lparr>w_tick := w_tick w + 2, w_sess := (w_sess w)\<lparr>
     xfer := (xfer (w_sess w))\<lparr>last_upload_progress_ts := Some (mono E (w_tick w))\<rparr>, last_activity := mono E (w_tick w + 1)\<rparr>\<rparr>)"
  by (simp add: mark_upload_progress_def mark_activity_def next_of_def bnd_def upd_xfer_def upd_sess_def)

section \<open>The state between two packets\<close>

record upload_plan =
  p_cid :: bytes
  p_version :: bytes
  p_key :: bytes
  p_iv :: bytes
  p_name :: pystr
  p_csize :: int
  p_osize :: int
  p_total :: int

abbreviation p_path :: "upload_plan \<Rightarrow> pystr" where
  "p_path P \<equiv> upload_out_path (bytes_hex (p_cid P)) (path_basename (p_name P))"

abbreviation p_header :: "upload_plan \<Rightarrow> int \<Rightarrow> bytes \<Rightarrow> header_828" where
  "p_header P k chunk \<equiv> \<lparr>content_size = p_csize P, orig_file_size = p_osize P, packet_num = k, total_packets = p_total P,
     h_file_name = path_basename (p_name P), cipher_chunk = chunk\<rparr>"

definition tmp_ready :: "upload_plan \<Rightarrow> pystr \<Rightarrow> nat \<Rightarrow> filesystem \<Rightarrow> bool" where
  "tmp_ready P tmp i fs \<longleftrightarrow> entries fs tmp = Some (FFile i) \<and> tmp \<noteq> p_path P \<and>
     entries fs (p_path P) \<noteq> Some FDir \<and> parent_is_dir fs (p_path P)"

text \<open>The upload's row in the database, before the client's verdict.\<close>

definition recorded :: "upload_plan \<Rightarrow> int option \<Rightarrow> store \<Rightarrow> bool" where
  "recorded P uid st \<longleftrightarrow> (\<exists>row \<in> set (uploads_table st). uid = Some (up_id row) \<and> up_client_id_hex row = bytes_hex (p_cid P) \<and>
     up_file_name row = path_basename (p_name P) \<and> up_orig_file_size row = p_osize P \<and> up_cipher_size row = p_csize P)"

lemma recorded_cong: "uploads_table st' = uploads_table st \<Longrightarrow> recorded P uid st' = recorded P uid st"
  by (simp add: recorded_def)

lemma recorded_log [simp]: "recorded P uid (log_append k e st) = recorded P uid st"
  by (simp add: recorded_def)

text \<open>The limiter once the upload holds its slot.\<close>

abbreviation slot_used :: "world \<Rightarrow> upload_limiter" where
  "slot_used w \<equiv> (w_limiter w)\<lparr>active_uploads := active_uploads (w_limiter w) + 1\<rparr>"

text \<open>Packets \<open>1\<close> to \<open>k\<close> have been taken; their ciphertext is \<open>fed\<close>.\<close>

definition uploading :: "env \<Rightarrow> upload_plan \<Rightarrow> upload_limiter \<Rightarrow> pystr \<Rightarrow> nat \<Rightarrow> int \<Rightarrow> bytes \<Rightarrow> world \<Rightarrow> bool" where
  "uploading E P L tmp i k fed w \<longleftrightarrow>
     stream E (p_key P) (p_iv P) i fed w \<and> tmp_ready P tmp i (w_fs w) \<and>
     transfer_iv (xf w) = Some (p_iv P) \<and> expected_packet_num (xf w) = Some (k + 1) \<and>
     expected_total_packets (xf w) = Some (p_total P) \<and> expected_content_size (xf w) = Some (p_csize P) \<and>
     expected_orig_file_size (xf w) = Some (p_osize P) \<and> received_cipher_bytes (xf w) = len fed \<and>
     upload_client_id_hex (xf w) = Some (bytes_hex (p_cid P)) \<and> upload_path (xf w) = Some (p_path P) \<and>
     upload_tmp_path (xf w) = Some tmp \<and> upload_filename (xf w) = Some (path_basename (p_name P)) \<and>
     recorded P (upload_id (xf w)) (w_store w) \<and> has_upload_slot (w_sess w) \<and> w_limiter w = L \<and>
     has_writer (w_sess w) \<and> knows (bytes_hex (p_cid P)) (w_store w)"

text \<open>Headers the plan's packets pass.\<close>

definition plan_ok :: "config \<Rightarrow> upload_plan \<Rightarrow> bool" where
  "plan_ok c P \<longleftrightarrow> 0 < p_total P \<and> p_total P \<le> max_packets c \<and> 0 < p_csize P \<and> p_csize P \<le> max_file_size c \<and>
     0 < p_osize P \<and> p_osize P \<le> max_file_size c \<and> p_iv P \<noteq> [] \<and> length (p_version P) = 1"

lemma plan_header: "plan_ok c P \<Longrightarrow> 0 \<le> k \<Longrightarrow> k \<le> p_total P \<Longrightarrow> validate_header c k (p_total P) (p_csize P) (p_osize P) = None"
  by (auto simp: plan_ok_def validate_header_def)

section \<open>One chunk\<close>

lemma receive_more:
  assumes E: "all_well E" and u: "uploading E P L tmp i k fed w"
    and c: "chunk \<noteq> []" "length chunk mod AES_BLOCK = 0" "len fed + len chunk \<le> p_csize P"
    and k: "0 < p_total P" "k + 1 < p_total P"
  shows "\<exists>w'. receive_chunk E cid version (p_header P (k + 1) chunk) w = (Ok (), w') \<and>
    uploading E P L tmp i (k + 1) (fed @ chunk) w' \<and> s_config (w_sess w') = s_config (w_sess w) \<and> w_out w' = w_out w"
proof -
  obtain w1 where m: "mark_upload_progress E w = (Ok (), w1)" and w1: "w1 = snd (mark_upload_progress E w)"
    by (simp add: mark_upload_progress_run)
  have s1: "stream E (p_key P) (p_iv P) i fed w1"
    using u by (simp add: w1 uploading_def stream_def mark_upload_progress_run)
  obtain w2 where w2: "process_streaming_cipher_chunk E chunk False w1 = (Ok (), w2)"
      "stream E (p_key P) (p_iv P) i (fed @ chunk) w2" "stream_frame i w1 w2"
    using process_more [OF all_wellD(1,3) [OF E] s1 c(1,2)] by blast
  let ?w3 = "w2\<lparr>w_sess := (w_sess w2)\<lparr>xfer := (xfer (w_sess w2))\<lparr>expected_packet_num := Some (k + 1 + 1),
      received_cipher_bytes := received_cipher_bytes (xf w2) + len chunk\<rparr>\<rparr>\<rparr>"
  have "receive_chunk E cid version (p_header P (k + 1) chunk) w = (Ok (), ?w3)"
    using u c(3) k m w2(1)
    by (simp add: receive_chunk_def draw_progress_def uploading_def try_except_def bnd_def upd_xfer_def upd_sess_def)
  moreover have "uploading E P L tmp i (k + 1) (fed @ chunk) ?w3"
    using u w2(2) by (simp add: uploading_def stream_def tmp_ready_def parent_is_dir_def
        stream_frame_fields [OF w2(3)] w1 mark_upload_progress_run)
  ultimately show ?thesis using stream_frame_fields [OF w2(3)] by (simp add: w1 mark_upload_progress_run)
qed

text \<open>What sending a response leaves alone.\<close>

definition steady :: "world \<Rightarrow> world \<Rightarrow> bool" where
  "steady w w' \<longleftrightarrow> w_limiter w' = w_limiter w \<and> has_upload_slot (w_sess w') = has_upload_slot (w_sess w) \<and>
     has_writer (w_sess w') = has_writer (w_sess w)"

text \<open>Sending, and the response 1603, in a world that works.\<close>

lemma session_send_well:
  assumes "all_well E" and "has_writer (w_sess w)" and "data \<noteq> []"
  shows "\<exists>w'. session_send E data w = (Ok (), w') \<and> w_out w' = w_out w @ [data] \<and> w_fs w' = w_fs w \<and>
    xf w' = xf w \<and> w_store w' = w_store w \<and> steady w w'"
  using assms all_wellD(4) [OF assms(1)]
  by (simp add: steady_def session_send_def try_except_def writer_write_def writer_drain_def next_of_def bnd_def
      on_frame_sent_def mark_activity_def upd_sess_def)

definition frame_1603 :: "upload_plan \<Rightarrow> u32 \<Rightarrow> bytes" where
  "frame_1603 P crc = (let payload = p_cid P @ le_encode 4 (p_csize P) @ (utf8_bytes (path_basename (p_name P)) @ [0]) @ le_encode 4 (uint crc)
     in p_version P @ le_encode 2 1603 @ le_encode 4 (len payload) @ payload)"

lemma answer_1603_well:
  assumes E: "all_well E" and "has_writer (w_sess w)" and "knows c (w_store w)" and "list_all valid_cp (path_basename (p_name P))"
    and "length (p_version P) = 1" and "0 \<le> p_csize P" and "p_csize P < 256 ^ 4"
    and "len (p_cid P @ utf8_bytes (path_basename (p_name P))) < 4000000000"
  shows "\<exists>w'. answer_1603 E (p_cid P) (p_version P) (path_basename (p_name P)) (p_csize P) crc w = (Ok (), w') \<and>
    w_out w' = w_out w @ [frame_1603 P crc] \<and> w_fs w' = w_fs w \<and> xf w' = xf w \<and> steady w w' \<and>
    knows c (w_store w') \<and> uploads_table (w_store w') = uploads_table (w_store w)"
proof -
  obtain st where t: "touch_client E (bytes_hex (p_cid P)) w = (Ok (), w\<lparr>w_tick := w_tick w + 2, w_store := st\<rparr>)"
      "knows c st" "uploads_table st = uploads_table (w_store w)"
    using touch_client_ok [OF E assms(3)] by blast
  obtain w1 where l: "log_event E (ById (p_cid P)) ''answer_1603'' (w\<lparr>w_tick := w_tick w + 2, w_store := st\<rparr>) = (Ok (), w1)"
      "w_out w1 = w_out w" "w_fs w1 = w_fs w" "xf w1 = xf w" "has_writer (w_sess w1)" "steady w w1"
      "knows c (w_store w1)" "uploads_table (w_store w1) = uploads_table (w_store w)"
    using assms(2) t(2,3) by (simp add: log_event_def next_of_def bnd_def steady_def)
  have "0 \<le> uint crc" "uint crc < 256 ^ 4" using uint_lt2p [of crc] by simp_all
  then have "res_bnd (to_bytes 4 (uint crc)) (\<lambda>checksum. res_bnd (to_bytes 4 (p_csize P)) (\<lambda>n.
      res_bnd (utf8_encode (path_basename (p_name P))) (\<lambda>name.
        let payload = p_cid P @ n @ (name @ [0]) @ checksum in message_answer (p_version P) 1603 (len payload) payload))) = Ok (frame_1603 P crc)"
    using assms(4-8) by (simp add: to_bytes_def utf8_encode_def message_answer_def frame_1603_def Let_def)
  moreover obtain w2 where "session_send E (frame_1603 P crc) w1 = (Ok (), w2)" "w_out w2 = w_out w1 @ [frame_1603 P crc]"
      "w_fs w2 = w_fs w1" "xf w2 = xf w1" "w_store w2 = w_store w1" "steady w1 w2"
    using session_send_well [OF E l(5), of "frame_1603 P crc"] by (auto simp: frame_1603_def Let_def)
  ultimately show ?thesis
    using t(1) l by (simp add: answer_1603_def bnd_def steady_def)
qed

text \<open>What the client of the plan can be told: ids and names a response can carry.\<close>

definition plan_sendable :: "upload_plan \<Rightarrow> bool" where
  "plan_sendable P \<longleftrightarrow> list_all valid_cp (path_basename (p_name P)) \<and> p_csize P < 256 ^ 4 \<and>
     len (p_cid P @ utf8_bytes (path_basename (p_name P))) < 4000000000"

definition uploaded :: "upload_plan \<Rightarrow> upload_limiter \<Rightarrow> pystr \<Rightarrow> bytes \<Rightarrow> world \<Rightarrow> world \<Rightarrow> bool" where
  "uploaded P L tmp plain w w' \<longleftrightarrow>
     file_at (w_fs w') (p_path P) = Some plain \<and> entries (w_fs w') tmp = None \<and>
     w_out w' = w_out w @ [frame_1603 P (crc32 plain 0)] \<and> upload_crc (xf w') = Some (crc32 plain 0) \<and>
     upload_path (xf w') = Some (p_path P) \<and> upload_filename (xf w') = Some (path_basename (p_name P)) \<and>
     upload_tmp_path (xf w') = None \<and> recorded P (upload_id (xf w')) (w_store w') \<and> has_upload_slot (w_sess w') \<and>
     w_limiter w' = L \<and> has_writer (w_sess w') \<and> knows (bytes_hex (p_cid P)) (w_store w')"

lemma finish_upload_well:
  assumes E: "all_well E" and s: "streamed i plain w" and t: "tmp_ready P tmp i (w_fs w)"
    and x: "received_cipher_bytes (xf w) = p_csize P" "expected_content_size (xf w) = Some (p_csize P)"
      "upload_path (xf w) = Some (p_path P)" "upload_tmp_path (xf w) = Some tmp"
      "upload_filename (xf w) = Some (path_basename (p_name P))" "recorded P (upload_id (xf w)) (w_store w)"
    and w: "has_upload_slot (w_sess w)" "w_limiter w = L" "has_writer (w_sess w)" "knows (bytes_hex (p_cid P)) (w_store w)"
    and P: "plan_ok c P" "plan_sendable P" "len plain = p_osize P"
  shows "\<exists>w'. finish_upload E (p_cid P) (p_version P) (p_header P k chunk) w = (Ok (), w') \<and> uploaded P L tmp plain w w'"
proof -
  obtain st where touch: "touch_client E (bytes_hex (p_cid P)) w = (Ok (), w\<lparr>w_tick := w_tick w + 2, w_store := st\<rparr>)"
      "knows (bytes_hex (p_cid P)) st" "uploads_table st = uploads_table (w_store w)"
    using touch_client_ok [OF E w(4)] by blast
  let ?fs = "(w_fs w)\<lparr>entries := (entries (w_fs w))(tmp := None, p_path P \<mapsto> FFile i)\<rparr>"
  let ?v = "w\<lparr>w_store := st, w_tick := w_tick w + 4, w_fs := ?fs, w_sess := (w_sess w)\<lparr>xfer := (xfer (w_sess w))\<lparr>
      upload_tmp_file := None, upload_tmp_path := None, upload_crc := Some (crc32 plain 0)\<rparr>\<rparr>\<rparr>"
  have rep: "fs_replace tmp (p_path P) (w_fs w) = (Ok (), ?fs)" using t by (simp add: fs_replace_def tmp_ready_def)
  obtain w' where ans: "answer_1603 E (p_cid P) (p_version P) (path_basename (p_name P)) (p_csize P) (crc32 plain 0) ?v = (Ok (), w')"
      "w_out w' = w_out ?v @ [frame_1603 P (crc32 plain 0)]" "w_fs w' = w_fs ?v" "xf w' = xf ?v" "steady ?v w'"
      "knows (bytes_hex (p_cid P)) (w_store w')" "uploads_table (w_store w') = uploads_table (w_store ?v)"
    using answer_1603_well [OF E, of ?v "bytes_hex (p_cid P)" P "crc32 plain 0"] w(3) touch(2) P
    by (auto simp: plan_ok_def plan_sendable_def)
  have "finish_upload E (p_cid P) (p_version P) (p_header P k chunk) w
      = answer_1603 E (p_cid P) (p_version P) (path_basename (p_name P)) (p_csize P) (crc32 plain 0) ?v"
    using x(1-4) s touch(1) rep all_wellD(6) [OF E] P(3)
    by (simp add: finish_upload_def streamed_def on_fs_def next_of_def bnd_def upd_xfer_def upd_sess_def eval_nat_numeral)
  moreover have "file_at (w_fs w') (p_path P) = Some plain" "entries (w_fs w') tmp = None"
    using ans(3) s t by (simp_all add: file_at_def streamed_def tmp_ready_def)
  moreover have "recorded P (upload_id (xf w)) (w_store w')"
    using recorded_cong [of "w_store w'" "w_store w" P "upload_id (xf w)"] ans(7) touch(3) x(6) by simp
  ultimately show ?thesis using ans x w by (simp add: uploaded_def steady_def)
qed

lemma receive_last:
  assumes E: "all_well E" and u: "uploading E P L tmp i k fed w"
    and c: "chunk \<noteq> []" "length chunk mod AES_BLOCK = 0" "len fed + len chunk = p_csize P"
    and k: "k + 1 = p_total P" and P: "plan_ok c P" "plan_sendable P"
    and plain: "unpad E (aes_cbc_dec E (p_key P) (p_iv P) [] (fed @ chunk)) AES_BLOCK = Some plain" "len plain = p_osize P"
  shows "\<exists>w'. receive_chunk E (p_cid P) (p_version P) (p_header P (k + 1) chunk) w = (Ok (), w') \<and> uploaded P L tmp plain w w'"
proof -
  obtain w1 where m: "mark_upload_progress E w = (Ok (), w1)" and w1: "w1 = snd (mark_upload_progress E w)"
    by (simp add: mark_upload_progress_run)
  have s1: "stream E (p_key P) (p_iv P) i fed w1"
    using u by (simp add: w1 uploading_def stream_def mark_upload_progress_run)
  obtain w2 where w2: "process_streaming_cipher_chunk E chunk True w1 = (Ok (), w2)" "streamed i plain w2" "stream_frame i w1 w2"
    using process_last [OF all_wellD(1-3) [OF E] s1 c(1,2)] plain(1) by auto
  let ?w3 = "w2\<lparr>w_sess := (w_sess w2)\<lparr>xfer := (xfer (w_sess w2))\<lparr>expected_packet_num := Some (k + 1 + 1),
      received_cipher_bytes := received_cipher_bytes (xf w2) + len chunk\<rparr>\<rparr>\<rparr>"
  have run: "receive_chunk E (p_cid P) (p_version P) (p_header P (k + 1) chunk) w =
      finish_upload E (p_cid P) (p_version P) (p_header P (k + 1) chunk) ?w3"
    using u c(3) k m w2(1) P(1)
    by (simp add: receive_chunk_def draw_progress_def uploading_def try_except_def bnd_def upd_xfer_def upd_sess_def plan_ok_def)
  note fields = stream_frame_fields [OF w2(3)] w1 mark_upload_progress_run
  have "\<exists>w'. finish_upload E (p_cid P) (p_version P) (p_header P (k + 1) chunk) ?w3 = (Ok (), w') \<and> uploaded P L tmp plain ?w3 w'"
    by (rule finish_upload_well [OF E _ _ _ _ _ _ _ _ _ _ _ _ P plain(2)])
      (use u w2(2) c(3) in \<open>simp_all add: uploading_def streamed_def tmp_ready_def parent_is_dir_def fields\<close>)
  then show ?thesis unfolding run by (auto simp: uploaded_def fields)
qed

section \<open>Packet 0 and packet 1\<close>

text \<open>Packet 0 has been taken.\<close>

definition prepared :: "upload_plan \<Rightarrow> world \<Rightarrow> bool" where
  "prepared P w \<longleftrightarrow> transfer_iv (xf w) = Some (p_iv P) \<and> expected_packet_num (xf w) = Some 1 \<and>
     expected_total_packets (xf w) = Some (p_total P) \<and> expected_content_size (xf w) = Some (p_csize P) \<and>
     expected_orig_file_size (xf w) = Some (p_osize P) \<and> received_cipher_bytes (xf w) = 0 \<and>
     upload_client_id_hex (xf w) = Some (bytes_hex (p_cid P)) \<and> upload_aes_key (xf w) = Some (p_key P) \<and>
     has_writer (w_sess w) \<and> knows (bytes_hex (p_cid P)) (w_store w)"

text \<open>The server has a slot and can open the temporary file \<open>tmp\<close> as inode \<open>i\<close>.\<close>

definition can_start :: "upload_plan \<Rightarrow> nat \<Rightarrow> world \<Rightarrow> bool" where
  "can_start P i w \<longleftrightarrow> \<not> has_upload_slot (w_sess w) \<and>
     active_uploads (w_limiter w) < max_concurrent_uploads (w_limiter w) \<and>
     (\<exists>fs1 fs2. fs_makedirs (path_join (lit ''data/uploads'') (bytes_hex (p_cid P))) (w_fs w) = (Ok (), fs1) \<and>
        fs_open_wb (upload_temp_path (p_path P) (connection_id (w_sess w))) fs1 = (Ok i, fs2) \<and>
        tmp_ready P (upload_temp_path (p_path P) (connection_id (w_sess w))) i fs2)"

lemma can_start_at_path:
  assumes c: "p_cid P \<noteq> []" and n: "path_basename (p_name P) \<notin> {[], DOT, DOTDOT}" and s: "\<not> has_upload_slot (w_sess w)"
    and l: "active_uploads (w_limiter w) < max_concurrent_uploads (w_limiter w)"
    and u: "connection_id (w_sess w) = bytes_hex u" and d: "dirs_free (bytes_hex (p_cid P)) (w_fs w)"
    and o: "entries (w_fs w) (p_path P) \<noteq> Some FDir"
    and t: "entries (w_fs w) (upload_temp_path (p_path P) (bytes_hex u)) \<noteq> Some FDir"
  shows "\<exists>i. can_start P i w"
proof -
  let ?d = "user_dir (bytes_hex (p_cid P))" and ?n = "path_basename (p_name P)"
  let ?f = "?n @ lit ''.tmp.'' @ bytes_hex u"
  have out: "p_path P = ?d @ SEP # ?n" using upload_path_value [OF c, of "p_name P"] n by simp
  have tmp: "upload_temp_path (p_path P) (bytes_hex u) = ?d @ SEP # ?f" by (simp add: out upload_temp_path_def)
  have "SEP \<notin> set (bytes_hex u)" using bytes_hex_chars [of u] by auto
  then have "SEP \<notin> set ?f" using path_basename_no_sep by (simp add: lit_def)
  then have par: "path_parent (?d @ SEP # ?n) = ?d" "path_parent (?d @ SEP # ?f) = ?d"
    using parent_user_file path_basename_no_sep by blast+
  have ne: "?d @ SEP # x \<notin> {lit ''data'', uploads_root, ?d}" for x by (simp add: lit_def)
  let ?fs1 = "(w_fs w)\<lparr>entries := (entries (w_fs w))(lit ''data'' \<mapsto> FDir, uploads_root \<mapsto> FDir, ?d \<mapsto> FDir)\<rparr>"
  have mk: "fs_makedirs (path_join uploads_root (bytes_hex (p_cid P))) (w_fs w) = (Ok (), ?fs1)"
    using makedirs_user_dir [OF c d] join_user_dir [OF c] by simp
  have e1: "entries ?fs1 (?d @ SEP # x) = entries (w_fs w) (?d @ SEP # x)" for x using ne [of x] by simp
  have "entries ?fs1 ?d = Some FDir" by simp
  then have pd: "parent_is_dir ?fs1 (?d @ SEP # ?f)" unfolding parent_is_dir_def par by blast
  have "entries ?fs1 (?d @ SEP # ?f) \<noteq> Some FDir" using t unfolding tmp e1 .
  then obtain i fs2 where op: "fs_open_wb (?d @ SEP # ?f) ?fs1 = (Ok i, fs2)" "entries fs2 = (entries ?fs1)(?d @ SEP # ?f \<mapsto> FFile i)"
    using open_wb_ok pd by blast
  have "?d \<noteq> ?d @ SEP # ?f" "?n \<noteq> ?f" by (simp_all add: lit_def)
  then have "tmp_ready P (?d @ SEP # ?f) i fs2"
    using o unfolding tmp_ready_def out op(2) parent_is_dir_def par by (simp add: e1 [simplified])
  then have "can_start P i w" unfolding can_start_def using s l mk op(1) u tmp by auto
  then show ?thesis ..
qed

lemma create_upload_ok:
  assumes "knows (bytes_hex (p_cid P)) st"
  shows "\<exists>uid st'. create_upload_record SqlOk now (bytes_hex (p_cid P)) (path_basename (p_name P)) (p_osize P) (p_csize P) status st
      = (Ok (Some uid), st') \<and> knows (bytes_hex (p_cid P)) st' \<and> recorded P (Some uid) st'"
proof -
  have "store_inv (snd (create_upload_record SqlOk now (bytes_hex (p_cid P)) (path_basename (p_name P)) (p_osize P) (p_csize P) status st))"
    by (rule create_upload_record_inv) (use assms in \<open>simp_all add: knows_def\<close>)
  with assms show ?thesis by (auto simp: create_upload_record_def knows_def Let_def recorded_def)
qed

lemma open_wb_empty: "fs_open_wb p fs = (Ok i, fs') \<Longrightarrow> inodes fs' i = []"
  by (auto simp: fs_open_wb_def split: option.splits fnode.splits if_splits)

lemma start_upload_well:
  assumes E: "all_well E" and p: "prepared P w" and slot: "has_upload_slot (w_sess w)" and key: "aes_key_ok E (p_key P) (p_iv P)"
    and fs: "fs_makedirs (path_join (lit ''data/uploads'') (bytes_hex (p_cid P))) (w_fs w) = (Ok (), fs1)"
      "fs_open_wb (upload_temp_path (p_path P) (connection_id (w_sess w))) fs1 = (Ok i, fs2)"
      "tmp_ready P (upload_temp_path (p_path P) (connection_id (w_sess w))) i fs2"
  shows "\<exists>w'. start_upload E (p_cid P) (p_version P) (p_header P 1 chunk) w = (Ok True, w') \<and>
    uploading E P (w_limiter w) (upload_temp_path (p_path P) (connection_id (w_sess w))) i 0 [] w' \<and>
    s_config (w_sess w') = s_config (w_sess w) \<and> w_out w' = w_out w"
proof -
  let ?hex = "bytes_hex (p_cid P)" and ?tmp = "upload_temp_path (p_path P) (connection_id (w_sess w))"
  obtain w1 where m: "mark_upload_progress E (w\<lparr>w_sess := (w_sess w)\<lparr>xfer := (xfer (w_sess w))\<lparr>
        upload_active := True, upload_filename := Some (path_basename (p_name P))\<rparr>\<rparr>\<rparr>) = (Ok (), w1)"
    and w1: "w1 = snd (mark_upload_progress E (w\<lparr>w_sess := (w_sess w)\<lparr>xfer := (xfer (w_sess w))\<lparr>
        upload_active := True, upload_filename := Some (path_basename (p_name P))\<rparr>\<rparr>\<rparr>))"
    by (simp add: mark_upload_progress_run)
  have k1: "knows ?hex (w_store w1)" using p by (simp add: w1 mark_upload_progress_run prepared_def)
  obtain st where t: "touch_client E ?hex w1 = (Ok (), w1\<lparr>w_tick := w_tick w1 + 2, w_store := st\<rparr>)" "knows ?hex st"
    using touch_client_ok [OF E k1] by blast
  obtain uid st' where cr: "create_upload_record SqlOk (wall E (w_tick w1 + 2)) ?hex (path_basename (p_name P)) (p_osize P)
      (p_csize P) ''in_progress'' st = (Ok (Some uid), st')" "knows ?hex st'" "recorded P (Some uid) st'"
    using create_upload_ok [OF t(2)] by blast
  have f1: "upload_aes_key (xf w1) = Some (p_key P)" "transfer_iv (xf w1) = Some (p_iv P)" "w_fs w1 = w_fs w"
      "expected_content_size (xf w1) = Some (p_csize P)" "connection_id (w_sess w1) = connection_id (w_sess w)"
    using p by (simp_all add: w1 mark_upload_progress_run prepared_def)
  let ?st'' = "log_append (ById (p_cid P)) (''request_828'', wall E (w_tick w1 + 6)) st'"
  let ?w2 = "w1\<lparr>w_store := ?st'', w_fs := fs2, w_tick := w_tick w1 + 7, w_sess := (w_sess w1)\<lparr>xfer := (xfer (w_sess w1))\<lparr>
        upload_id := Some uid, upload_path := Some (p_path P), upload_tmp_path := Some ?tmp, upload_tmp_file := Some i,
        upload_decrypt_cipher := Some \<lparr>ci_key = p_key P, ci_iv = p_iv P, ci_fed = []\<rparr>,
        upload_plain_tail := [], upload_plain_bytes_written := 0, upload_crc32_state := 0\<rparr>\<rparr>\<rparr>"
  have "start_upload E (p_cid P) (p_version P) (p_header P 1 chunk) w = (Ok True, ?w2)"
    using m t(1) cr(1) fs(1,2) key f1 all_wellD(5,6) [OF E]
    by (simp add: start_upload_def bnd_def upd_xfer_def upd_sess_def next_of_def on_store_def on_fs_def log_event_def
        Let_def eval_nat_numeral)
  moreover have "uploading E P (w_limiter w) ?tmp i 0 [] ?w2"
    using p slot fs(3) cr(2,3) open_wb_empty [OF fs(2)] cbc_nil [OF all_wellD(1) [OF E]]
    by (simp add: uploading_def stream_def prepared_def w1 mark_upload_progress_run)
  ultimately show ?thesis by (simp add: w1 mark_upload_progress_run)
qed

section \<open>Packets as the client builds them\<close>

abbreviation p_packet :: "upload_plan \<Rightarrow> int \<Rightarrow> bytes \<Rightarrow> bytes res" where
  "p_packet P k chunk \<equiv> build_828_packet (p_csize P) (p_osize P) k (p_total P) (p_name P) chunk"

abbreviation serve_packet :: "env \<Rightarrow> upload_plan \<Rightarrow> bytes \<Rightarrow> unit act" where
  "serve_packet E P p \<equiv> request_828 E p (p_version P) (p_cid P)"

lemma serve_data_packet:
  assumes "p_packet P k chunk = Ok p" and "0 \<notin> set (p_name P)" and "plan_ok (cfg w) P" and "0 < k" and "k \<le> p_total P"
    and "upload_client_id_hex (xf w) = Some (bytes_hex (p_cid P))"
  shows "serve_packet E P p w = data_packet E (p_cid P) (p_version P) (p_header P k chunk) w"
proof -
  have v: "validate_header (cfg w) k (p_total P) (p_csize P) (p_osize P) = None"
    using plan_header [OF assms(3)] assms(4,5) by simp
  note f = packet_828_fields [OF assms(1,2)]
  show ?thesis
    unfolding request_828_def f(1) prod.case Let_def f(3,4) option.case
    using f(2) assms(4,6) v by (simp add: bind_upload_client_def)
qed

lemma serve_packet_zero:
  assumes p0: "p_packet P 0 (p_iv P) = Ok p" and n: "0 \<notin> set (p_name P)" and ok: "plan_ok (cfg w) P" and iv: "length (p_iv P) = 16"
    and x: "xf w = no_transfer" and key: "p_key P \<noteq> []"
    and rec: "get_client_by_id (bytes_hex (p_cid P)) (w_store w) = Some found" "aes_key_b64 found = Some (b64encode (p_key P))"
    and w: "has_writer (w_sess w)" "knows (bytes_hex (p_cid P)) (w_store w)" and s: "can_start P i w"
  shows "\<exists>w'. serve_packet E P p w = (Ok (), w') \<and> prepared P w' \<and> can_start P i w' \<and>
    s_config (w_sess w') = s_config (w_sess w) \<and> w_out w' = w_out w \<and> connection_id (w_sess w') = connection_id (w_sess w) \<and>
    w_limiter w' = w_limiter w"
proof -
  have v: "validate_header (cfg w) 0 (p_total P) (p_csize P) (p_osize P) = None"
    using plan_header [OF ok] ok by (simp add: plan_ok_def)
  note f = packet_828_fields [OF p0 n]
  let ?w1 = "w\<lparr>w_sess := (w_sess w)\<lparr>xfer := no_transfer\<lparr>upload_username := Some (username found), upload_aes_key := Some (p_key P),
      upload_client_id_hex := Some (bytes_hex (p_cid P)), transfer_iv := Some (p_iv P), expected_packet_num := Some 1,
      expected_total_packets := Some (p_total P), expected_content_size := Some (p_csize P),
      expected_orig_file_size := Some (p_osize P), received_cipher_bytes := 0\<rparr>\<rparr>\<rparr>"
  have "serve_packet E P p w = (Ok (), ?w1)"
    unfolding request_828_def f(1) prod.case Let_def f(3,4) option.case
    using f(2) v iv x key rec
    by (simp add: bind_upload_client_def packet_zero_def upd_xfer_def upd_sess_def no_transfer_def is_set_def bnd_assoc)
  moreover have "prepared P ?w1" using w by (simp add: prepared_def)
  moreover have "can_start P i ?w1" using s by (simp add: can_start_def)
  ultimately show ?thesis by simp
qed

lemma data_packet_first:
  assumes E: "all_well E" and p: "prepared P w" and s: "can_start P i w" and ok: "plan_ok (cfg w) P"
    and key: "aes_key_ok E (p_key P) (p_iv P)"
  shows "\<exists>w1. uploading E P (slot_used w) (upload_temp_path (p_path P) (connection_id (w_sess w))) i 0 [] w1 \<and> cfg w1 = cfg w \<and> w_out w1 = w_out w \<and>
    (\<forall>chunk. len chunk \<le> max_chunk_size (cfg w) \<longrightarrow>
       data_packet E (p_cid P) (p_version P) (p_header P 1 chunk) w = receive_chunk E (p_cid P) (p_version P) (p_header P 1 chunk) w1)"
proof -
  obtain fs1 fs2 where fs: "fs_makedirs (path_join (lit ''data/uploads'') (bytes_hex (p_cid P))) (w_fs w) = (Ok (), fs1)"
      "fs_open_wb (upload_temp_path (p_path P) (connection_id (w_sess w))) fs1 = (Ok i, fs2)"
      "tmp_ready P (upload_temp_path (p_path P) (connection_id (w_sess w))) i fs2"
    using s by (auto simp: can_start_def)
  let ?v = "w\<lparr>w_limiter := (w_limiter w)\<lparr>active_uploads := active_uploads (w_limiter w) + 1\<rparr>,
      w_metrics := map_option (set_active_uploads (active_uploads (w_limiter w) + 1)) (w_metrics w),
      w_sess := (w_sess w)\<lparr>has_upload_slot := True\<rparr>\<rparr>"
  have acq: "acquire_upload_slot E (p_cid P) (p_version P) w = (Ok True, ?v)"
    using s by (simp add: acquire_upload_slot_def can_start_def upload_try_acquire_def upd_sess_def upd_metrics_def
        bnd_assoc upload_current_active_def)
  have "\<exists>w1. start_upload E (p_cid P) (p_version P) (p_header P 1 chunk) ?v = (Ok True, w1) \<and>
      uploading E P (slot_used w) (upload_temp_path (p_path P) (connection_id (w_sess w))) i 0 [] w1 \<and> cfg w1 = cfg w \<and> w_out w1 = w_out w" for chunk
    using start_upload_well [OF E _ _ key, of ?v fs1 i fs2 chunk] p fs by (simp add: prepared_def)
  moreover have "start_upload E (p_cid P) (p_version P) (p_header P 1 chunk) = start_upload E (p_cid P) (p_version P) (p_header P 1 [])" for chunk
    by (simp only: start_upload_def header_828.select_convs)
  ultimately obtain w1 where w1: "\<And>chunk. start_upload E (p_cid P) (p_version P) (p_header P 1 chunk) ?v = (Ok True, w1)"
      "uploading E P (slot_used w) (upload_temp_path (p_path P) (connection_id (w_sess w))) i 0 [] w1" "cfg w1 = cfg w" "w_out w1 = w_out w"
    by metis
  have "data_packet E (p_cid P) (p_version P) (p_header P 1 chunk) w = receive_chunk E (p_cid P) (p_version P) (p_header P 1 chunk) w1"
    if "len chunk \<le> max_chunk_size (cfg w)" for chunk
    using that p ok acq w1(1) [of chunk] by (simp add: data_packet_def prepared_def plan_ok_def is_set_def bnd_def)
  with w1(2-4) show ?thesis by blast
qed

lemma data_packet_next:
  assumes "uploading E P L tmp i k fed w" and "plan_ok (cfg w) P" and "0 < k" and "len chunk \<le> max_chunk_size (cfg w)"
  shows "data_packet E (p_cid P) (p_version P) (p_header P (k + 1) chunk) w =
    receive_chunk E (p_cid P) (p_version P) (p_header P (k + 1) chunk) w"
  using assms by (simp add: data_packet_def uploading_def plan_ok_def is_set_def)

section \<open>The whole upload\<close>

lemma serve_rest:
  assumes E: "all_well E" and n: "0 \<notin> set (p_name P)" and P: "plan_ok c P" "plan_sendable P"
  shows "uploading E P L tmp i k fed w1 \<Longrightarrow> 0 \<le> k \<Longrightarrow> cfg w = c \<Longrightarrow> cfg w1 = c \<Longrightarrow> w_out w1 = w_out w \<Longrightarrow>
    upload_client_id_hex (xf w) = Some (bytes_hex (p_cid P)) \<Longrightarrow>
    \<forall>chunk. len chunk \<le> max_chunk_size c \<longrightarrow>
       data_packet E (p_cid P) (p_version P) (p_header P (k + 1) chunk) w = receive_chunk E (p_cid P) (p_version P) (p_header P (k + 1) chunk) w1 \<Longrightarrow>
    chunks \<noteq> [] \<Longrightarrow> k + len chunks = p_total P \<Longrightarrow> len fed + len (concat chunks) = p_csize P \<Longrightarrow>
    \<forall>ch \<in> set chunks. ch \<noteq> [] \<and> length ch mod AES_BLOCK = 0 \<and> len ch \<le> max_chunk_size c \<Longrightarrow>
    data_packets (p_csize P) (p_osize P) (p_total P) (p_name P) (k + 1) chunks = Ok ps \<Longrightarrow>
    unpad E (aes_cbc_dec E (p_key P) (p_iv P) [] (fed @ concat chunks)) AES_BLOCK = Some plain \<Longrightarrow> len plain = p_osize P \<Longrightarrow>
    \<exists>w'. block (map (serve_packet E P) ps) w = (Ok (), w') \<and> uploaded P L tmp plain w w'"
proof (induction chunks arbitrary: k fed w w1 ps)
  case (Cons ch chs)
  obtain p ps' where p: "p_packet P (k + 1) ch = Ok p" "ps = p # ps'"
      "data_packets (p_csize P) (p_osize P) (p_total P) (p_name P) (k + 1 + 1) chs = Ok ps'"
    using Cons.prems(12) by (auto simp: res_bnd_Ok)
  have ch: "ch \<noteq> []" "length ch mod AES_BLOCK = 0" "len ch \<le> max_chunk_size c" using Cons.prems(11) by auto
  have tot: "k + 1 \<le> p_total P" using Cons.prems(9) by simp
  have first: "serve_packet E P p w = receive_chunk E (p_cid P) (p_version P) (p_header P (k + 1) ch) w1"
    using serve_data_packet [OF p(1) n, of w E] Cons.prems(2,3,6,7) P(1) tot ch(3) by simp
  show ?case
  proof (cases "chs = []")
    case True
    have "\<exists>w'. receive_chunk E (p_cid P) (p_version P) (p_header P (k + 1) ch) w1 = (Ok (), w') \<and> uploaded P L tmp plain w1 w'"
      by (rule receive_last [OF E Cons.prems(1) ch(1,2) _ _ P]) (use Cons.prems True in simp_all)
    then show ?thesis using first p True Cons.prems(5) by (auto simp: bnd_def uploaded_def)
  next
    case False
    have "len fed + len ch \<le> p_csize P" using Cons.prems(10) by simp
    moreover have "0 < p_total P" "k + 1 < p_total P" using P(1) False Cons.prems(9) by (auto simp: plan_ok_def neq_Nil_conv)
    ultimately obtain w2 where w2: "receive_chunk E (p_cid P) (p_version P) (p_header P (k + 1) ch) w1 = (Ok (), w2)"
        "uploading E P L tmp i (k + 1) (fed @ ch) w2" "cfg w2 = cfg w1" "w_out w2 = w_out w1"
      using receive_more [OF E Cons.prems(1) ch(1,2)] by blast
    have hex: "upload_client_id_hex (xf w2) = Some (bytes_hex (p_cid P))" using w2(2) by (simp add: uploading_def)
    have nxt: "\<forall>chunk. len chunk \<le> max_chunk_size c \<longrightarrow>
        data_packet E (p_cid P) (p_version P) (p_header P (k + 1 + 1) chunk) w2 = receive_chunk E (p_cid P) (p_version P) (p_header P (k + 1 + 1) chunk) w2"
      using data_packet_next [OF w2(2)] w2(3) Cons.prems(2,4) P(1) by simp
    have "\<exists>w'. block (map (serve_packet E P) ps') w2 = (Ok (), w') \<and> uploaded P L tmp plain w2 w'"
      by (rule Cons.IH [OF w2(2) _ _ _ refl hex nxt False _ _ _ p(3)])
        (use Cons.prems(2,4,9-11,13,14) w2(3) in auto)
    then show ?thesis using first p(2) w2(1,4) Cons.prems(5) by (auto simp: bnd_def uploaded_def)
  qed
qed simp

lemma serve_plan:
  assumes "all_well E" and "aes_key_ok E (p_key P) (p_iv P)" and "plan_ok (cfg w) P" and "plan_sendable P"
    and "0 \<notin> set (p_name P)" and "length (p_iv P) = 16" and "p_key P \<noteq> []"
    and "xf w = no_transfer" and "has_writer (w_sess w)" and "knows (bytes_hex (p_cid P)) (w_store w)"
    and "get_client_by_id (bytes_hex (p_cid P)) (w_store w) = Some found" and "aes_key_b64 found = Some (b64encode (p_key P))"
    and "can_start P i w"
    and "upload_packets (p_csize P) (p_osize P) (p_total P) (p_name P) (p_iv P) chunks = Ok ps"
    and "len chunks = p_total P" and "len (concat chunks) = p_csize P"
    and "\<forall>ch \<in> set chunks. ch \<noteq> [] \<and> length ch mod AES_BLOCK = 0 \<and> len ch \<le> max_chunk_size (cfg w)"
    and "unpad E (aes_cbc_dec E (p_key P) (p_iv P) [] (concat chunks)) AES_BLOCK = Some plain" and "len plain = p_osize P"
  shows "\<exists>w'. block (map (serve_packet E P) ps) w = (Ok (), w') \<and>
    uploaded P (slot_used w) (upload_temp_path (p_path P) (connection_id (w_sess w))) plain w w'"
proof -
  obtain p0 ps' where p: "p_packet P 0 (p_iv P) = Ok p0" "ps = p0 # ps'"
      "data_packets (p_csize P) (p_osize P) (p_total P) (p_name P) (0 + 1) chunks = Ok ps'"
    using assms(14) by (auto simp: upload_packets_def res_bnd_Ok)
  obtain w0 where w0: "serve_packet E P p0 w = (Ok (), w0)" "prepared P w0" "can_start P i w0" "cfg w0 = cfg w"
      "w_out w0 = w_out w" "connection_id (w_sess w0) = connection_id (w_sess w)" "w_limiter w0 = w_limiter w"
    using serve_packet_zero [OF p(1) assms(5,3,6,8,7,11,12,9,10,13)] by blast
  obtain w1 where w1: "uploading E P (slot_used w0) (upload_temp_path (p_path P) (connection_id (w_sess w0))) i 0 [] w1" "cfg w1 = cfg w0" "w_out w1 = w_out w0"
      "\<forall>chunk. len chunk \<le> max_chunk_size (cfg w0) \<longrightarrow> data_packet E (p_cid P) (p_version P) (p_header P 1 chunk) w0
         = receive_chunk E (p_cid P) (p_version P) (p_header P 1 chunk) w1"
    using data_packet_first [OF assms(1) w0(2,3) _ assms(2)] assms(3) w0(4) by auto
  have hex: "upload_client_id_hex (xf w0) = Some (bytes_hex (p_cid P))" using w0(2) by (simp add: prepared_def)
  have "\<exists>w'. block (map (serve_packet E P) ps') w0 = (Ok (), w') \<and>
      uploaded P (slot_used w0) (upload_temp_path (p_path P) (connection_id (w_sess w0))) plain w0 w'"
    by (rule serve_rest [OF assms(1,5,3,4) w1(1) _ w0(4) _ w1(3) hex _ _ _ _ assms(17) p(3)])
      (use w1(2,4) w0(4) assms(3,15,16,18,19) in \<open>auto simp: plan_ok_def\<close>)
  then show ?thesis using p(2) w0(1,5-7) by (auto simp: bnd_def uploaded_def)
qed

section \<open>The client's confirmation\<close>

text \<open>The upload's row once it is complete.\<close>

definition completed :: "upload_plan \<Rightarrow> u32 \<Rightarrow> store \<Rightarrow> bool" where
  "completed P crc st \<longleftrightarrow> (\<exists>row \<in> set (uploads_table st). up_client_id_hex row = bytes_hex (p_cid P) \<and>
     up_file_name row = path_basename (p_name P) \<and> up_orig_file_size row = p_osize P \<and> up_cipher_size row = p_csize P \<and>
     up_status row = ''completed'' \<and> up_stored_path row = Some (p_path P) \<and> up_server_crc32 row = Some (uint crc))"

lemma complete_recorded:
  assumes r: "recorded P uid st" and k: "knows c st"
  shows "\<exists>st'. complete_upload_record SqlOk uid (p_path P) (uint crc) now st = (Ok True, st') \<and> completed P crc st' \<and> knows c st'"
proof -
  let ?g = "\<lambda>row. row\<lparr>up_status := ''completed'', up_completed_at := Some now, up_server_crc32 := Some (uint crc),
      up_stored_path := Some (p_path P)\<rparr>"
  let ?st = "snd (complete_upload_record SqlOk uid (p_path P) (uint crc) now st)"
  obtain row where row: "row \<in> set (uploads_table st)" "uid = Some (up_id row)" "up_client_id_hex row = bytes_hex (p_cid P)"
      "up_file_name row = path_basename (p_name P)" "up_orig_file_size row = p_osize P" "up_cipher_size row = p_csize P"
    using r unfolding recorded_def by blast
  have tab: "complete_upload_record SqlOk uid (p_path P) (uint crc) now st = (Ok True, ?st)"
      "uploads_table ?st = map (\<lambda>u. if Some (up_id u) = uid then ?g u else u) (uploads_table st)"
    using k row(1,2) by (auto simp: complete_upload_record_def update_upload_def knows_def Let_def filter_empty_conv)
  have "?g row \<in> set (uploads_table ?st)" unfolding tab(2) using row(1,2) by force
  then have "completed P crc ?st" unfolding completed_def using row(3-6) by (intro bexI [of _ "?g row"]) simp_all
  moreover have "knows c ?st"
    using k upload_ops_clients(2) [of SqlOk uid "p_path P" "uint crc" now st]
    by (simp add: knows_def complete_upload_record_def update_upload_inv)
  ultimately show ?thesis using tab(1) by blast
qed

lemma completed_cong: "uploads_table st' = uploads_table st \<Longrightarrow> completed P crc st' = completed P crc st"
  by (simp add: completed_def)

definition frame_1604 :: "upload_plan \<Rightarrow> bytes" where
  "frame_1604 P = p_version P @ le_encode 2 1604 @ le_encode 4 16 @ p_cid P"

lemma answer_1604_well:
  assumes E: "all_well E" and "has_writer (w_sess w)" and k: "knows (bytes_hex (p_cid P)) (w_store w)" and "length (p_version P) = 1"
    and "length (p_cid P) = 16"
  shows "\<exists>w'. answer_1604 E (p_cid P) (p_version P) w = (Ok (), w') \<and> w_out w' = w_out w @ [frame_1604 P] \<and>
    w_fs w' = w_fs w \<and> xf w' = xf w \<and> steady w w' \<and> uploads_table (w_store w') = uploads_table (w_store w)"
proof -
  have "\<exists>w1. touch_if_known E (p_cid P) w = (Ok (), w1) \<and> w_out w1 = w_out w \<and> w_fs w1 = w_fs w \<and> w_sess w1 = w_sess w \<and>
      w_limiter w1 = w_limiter w \<and> uploads_table (w_store w1) = uploads_table (w_store w)"
    using touch_client_ok [OF E k] by (fastforce simp: touch_if_known_def split: option.split)
  then obtain w1 where w1: "touch_if_known E (p_cid P) w = (Ok (), w1)" "w_out w1 = w_out w" "w_fs w1 = w_fs w"
      "w_sess w1 = w_sess w" "w_limiter w1 = w_limiter w" "uploads_table (w_store w1) = uploads_table (w_store w)" by blast
  obtain w2 where l: "log_event E (ById (p_cid P)) ''answer_1604'' w1 = (Ok (), w2)"
      "w_out w2 = w_out w1" "w_fs w2 = w_fs w1" "w_sess w2 = w_sess w1" "w_limiter w2 = w_limiter w1"
      "uploads_table (w_store w2) = uploads_table (w_store w1)"
    by (simp add: log_event_def next_of_def bnd_def)
  have ne: "frame_1604 P \<noteq> []" using assms(4) by (auto simp: frame_1604_def)
  obtain w3 where "session_send E (frame_1604 P) w2 = (Ok (), w3)" "w_out w3 = w_out w2 @ [frame_1604 P]"
      "w_fs w3 = w_fs w2" "xf w3 = xf w2" "w_store w3 = w_store w2" "steady w2 w3"
    using session_send_well [OF E _ ne, of w2] assms(2) w1(4) l(4) by auto
  moreover have "message_answer (p_version P) 1604 16 (p_cid P) = Ok (frame_1604 P)"
    using assms(4,5) by (simp add: message_answer_def to_bytes_def frame_1604_def)
  ultimately show ?thesis using w1 l by (simp add: answer_1604_def bnd_def steady_def)
qed

text \<open>Request 900 after an upload: the row is completed, the slot is back, the session is free.\<close>

definition confirmed :: "upload_plan \<Rightarrow> upload_limiter \<Rightarrow> u32 \<Rightarrow> world \<Rightarrow> world \<Rightarrow> bool" where
  "confirmed P L crc w w' \<longleftrightarrow> completed P crc (w_store w') \<and> w_fs w' = w_fs w \<and> w_out w' = w_out w @ [frame_1604 P] \<and>
     xf w' = no_transfer \<and> \<not> has_upload_slot (w_sess w') \<and> w_limiter w' = upload_release L"

lemma release_and_reset:
  assumes "has_upload_slot (w_sess w)" and "upload_tmp_path (xf w) = None"
  shows "\<exists>w'. block [release_upload_slot, reset_transfer_state E] w = (Ok (), w') \<and> xf w' = no_transfer \<and>
    \<not> has_upload_slot (w_sess w') \<and> w_limiter w' = upload_release (w_limiter w) \<and> w_fs w' = w_fs w \<and> w_out w' = w_out w \<and>
    w_store w' = w_store w"
  using assms by (simp add: release_upload_slot_def reset_transfer_state_def remove_tmp_file_def upd_sess_def upd_metrics_def
      upd_xfer_def bnd_def)

lemma confirm_upload:
  assumes E: "all_well E" and u: "uploaded P L tmp plain w0 w" and v: "length (p_version P) = 1" "length (p_cid P) = 16"
    and n: "0 \<notin> set (p_name P)" "list_all valid_cp (path_basename (p_name P))"
  shows "\<exists>w'. request_900 E (utf8_bytes (path_basename (p_name P)) @ [0]) (p_version P) (p_cid P) w = (Ok (), w') \<and>
    confirmed P L (crc32 plain 0) w w'"
proof -
  let ?n = "path_basename (p_name P)" and ?hex = "bytes_hex (p_cid P)" and ?crc = "crc32 plain 0"
  have k: "knows ?hex (w_store w)" using u by (simp add: uploaded_def)
  have "utf8_bytes ?n @ [0] = utf8_bytes (?n @ [0])" by (simp add: utf8_bytes_def utf8_cp_def)
  then have dec: "utf8_decode (utf8_bytes ?n @ [0]) = Some (?n @ [0])"
    using utf8_decode_encode [of "?n @ [0]"] n(2) by (simp add: valid_cp_def is_surrogate_def)
  have "0 \<notin> set ?n" using n(1) path_basename_subset by blast
  then have strip: "str_rstrip_nul (?n @ [0]) = ?n"
    unfolding str_rstrip_nul_def by (intro rstrip_while_terminated) metis+
  obtain st where t: "touch_client E ?hex w = (Ok (), w\<lparr>w_tick := w_tick w + 2, w_store := st\<rparr>)" "knows ?hex st"
      "uploads_table st = uploads_table (w_store w)"
    using touch_client_ok [OF E k] by blast
  let ?st = "log_append (ById (p_cid P)) (''request_900'', wall E (w_tick w + 2)) st"
  have rec: "recorded P (upload_id (xf w)) ?st"
    using u recorded_cong [OF t(3)] by (simp add: uploaded_def)
  obtain st' where c: "complete_upload_record SqlOk (upload_id (xf w)) (p_path P) (uint ?crc) (wall E (w_tick w + 3)) ?st = (Ok True, st')"
      "completed P ?crc st'" "knows ?hex st'"
    using complete_recorded [OF rec, of ?hex] t(2) by auto
  let ?w1 = "w\<lparr>w_tick := w_tick w + 5, w_store := st'\<rparr>"
  obtain w2 where a: "answer_1604 E (p_cid P) (p_version P) ?w1 = (Ok (), w2)" "w_out w2 = w_out w @ [frame_1604 P]"
      "w_fs w2 = w_fs w" "xf w2 = xf w" "steady ?w1 w2" "uploads_table (w_store w2) = uploads_table st'"
    using answer_1604_well [OF E, of ?w1 P] c(3) v u by (auto simp: uploaded_def)
  obtain w3 where f: "block [release_upload_slot, reset_transfer_state E] w2 = (Ok (), w3)" "xf w3 = no_transfer"
      "\<not> has_upload_slot (w_sess w3)" "w_limiter w3 = upload_release (w_limiter w2)" "w_fs w3 = w_fs w2" "w_out w3 = w_out w2"
      "w_store w3 = w_store w2"
    using release_and_reset [of w2 E] a(4,5) u by (auto simp: uploaded_def steady_def)
  obtain uid where uid: "upload_id (xf w) = Some uid" using u by (auto simp: uploaded_def recorded_def)
  have "request_900 E (utf8_bytes ?n @ [0]) (p_version P) (p_cid P) w = (Ok (), w3)"
    using u dec strip t(1) c(1) a(1) f(1) uid all_wellD(5) [OF E]
    by (simp add: request_900_def uploaded_def Let_def bnd_def log_event_def next_of_def on_store_def eval_nat_numeral)
  moreover have "completed P ?crc (w_store w3)" using c(2) a(6) f(7) completed_cong by metis
  ultimately show ?thesis using f a u by (auto simp: confirmed_def steady_def uploaded_def)
qed

text \<open>A file cut into packets, and a server with room for it.\<close>

definition packets_of :: "env \<Rightarrow> config \<Rightarrow> upload_plan \<Rightarrow> bytes list \<Rightarrow> bytes list \<Rightarrow> bytes \<Rightarrow> bool" where
  "packets_of E c P chunks ps plain \<longleftrightarrow> aes_key_ok E (p_key P) (p_iv P) \<and> plan_ok c P \<and> plan_sendable P \<and>
     0 \<notin> set (p_name P) \<and> length (p_iv P) = 16 \<and> path_basename (p_name P) \<notin> {[], DOT, DOTDOT} \<and>
     upload_packets (p_csize P) (p_osize P) (p_total P) (p_name P) (p_iv P) chunks = Ok ps \<and>
     len chunks = p_total P \<and> len (concat chunks) = p_csize P \<and>
     (\<forall>ch \<in> set chunks. ch \<noteq> [] \<and> length ch mod AES_BLOCK = 0 \<and> len ch \<le> max_chunk_size c) \<and>
     unpad E (aes_cbc_dec E (p_key P) (p_iv P) [] (concat chunks)) AES_BLOCK = Some plain \<and> len plain = p_osize P"

definition room_for :: "upload_plan \<Rightarrow> pystr \<Rightarrow> world \<Rightarrow> bool" where
  "room_for P conn w \<longleftrightarrow> 0 \<le> active_uploads (w_limiter w) \<and> active_uploads (w_limiter w) < max_concurrent_uploads (w_limiter w) \<and>
     dirs_free (bytes_hex (p_cid P)) (w_fs w) \<and> entries (w_fs w) (p_path P) \<noteq> Some FDir \<and>
     entries (w_fs w) (upload_temp_path (p_path P) conn) \<noteq> Some FDir"

definition upload_requests :: "env \<Rightarrow> upload_plan \<Rightarrow> bytes list \<Rightarrow> unit act" where
  "upload_requests E P ps = block (map (\<lambda>p. request_828 E p (p_version P) (p_cid P)) ps @
     [request_900 E (utf8_bytes (path_basename (p_name P)) @ [0]) (p_version P) (p_cid P)])"

definition delivered :: "upload_plan \<Rightarrow> pystr \<Rightarrow> bytes \<Rightarrow> world \<Rightarrow> world \<Rightarrow> bool" where
  "delivered P conn plain w w' \<longleftrightarrow>
     file_at (w_fs w') (user_dir (bytes_hex (p_cid P)) @ SEP # path_basename (p_name P)) = Some plain \<and>
     entries (w_fs w') (upload_temp_path (p_path P) conn) = None \<and>
     w_out w' = w_out w @ [frame_1603 P (crc32 plain 0), frame_1604 P] \<and>
     completed P (crc32 plain 0) (w_store w') \<and>
     xf w' = no_transfer \<and> \<not> has_upload_slot (w_sess w') \<and> w_limiter w' = w_limiter w"

lemma upload_confirmed:
  assumes E: "all_well E" and pk: "packets_of E (cfg w) P chunks ps plain" and room: "room_for P (bytes_hex u) w"
    and key: "p_key P \<noteq> []" and cid16: "length (p_cid P) = 16"
    and s: "xf w = no_transfer" "has_writer (w_sess w)" "\<not> has_upload_slot (w_sess w)" "connection_id (w_sess w) = bytes_hex u"
    and st: "knows (bytes_hex (p_cid P)) (w_store w)" "get_client_by_id (bytes_hex (p_cid P)) (w_store w) = Some found"
      "aes_key_b64 found = Some (b64encode (p_key P))"
  shows "\<exists>w'. upload_requests E P ps w = (Ok (), w') \<and> delivered P (bytes_hex u) plain w w'"
proof -
  note a = pk [unfolded packets_of_def, THEN conjunct1] and r = room [unfolded room_for_def]
  have plan: "plan_ok (cfg w) P" "plan_sendable P" "0 \<notin> set (p_name P)" "length (p_iv P) = 16"
      "path_basename (p_name P) \<notin> {[], DOT, DOTDOT}" "list_all valid_cp (path_basename (p_name P))"
    using pk by (simp_all add: packets_of_def plan_sendable_def)
  have cid: "p_cid P \<noteq> []" using cid16 by auto
  obtain i where i: "can_start P i w" using can_start_at_path [OF cid plan(5) s(3) _ s(4)] r by blast
  have out: "p_path P = user_dir (bytes_hex (p_cid P)) @ SEP # path_basename (p_name P)"
    using upload_path_value [OF cid, of "p_name P"] plan(5) by simp
  obtain w1 where w1: "block (map (serve_packet E P) ps) w = (Ok (), w1)"
      "uploaded P (slot_used w) (upload_temp_path (p_path P) (connection_id (w_sess w))) plain w w1"
    using serve_plan [OF E a plan(1-4) key s(1,2) st i] pk unfolding packets_of_def by blast
  obtain w2 where w2: "request_900 E (utf8_bytes (path_basename (p_name P)) @ [0]) (p_version P) (p_cid P) w1 = (Ok (), w2)"
      "confirmed P (slot_used w) (crc32 plain 0) w1 w2"
    using confirm_upload [OF E w1(2) _ cid16 plan(3,6)] plan(1) by (auto simp: plan_ok_def)
  have "upload_release (slot_used w) = w_limiter w" using r by (simp add: upload_release_def)
  moreover have "upload_requests E P ps w = (Ok (), w2)"
    unfolding upload_requests_def using w1(1) w2(1) by (simp add: block_append bnd_def)
  ultimately show ?thesis using w1(2) w2(2) s(4) unfolding delivered_def out [symmetric] by (auto simp: uploaded_def confirmed_def)
qed

text \<open>C4: an upload arrives and is confirmed: a registered client with an AES key sends the packets of a
  ciphertext cut into block-aligned chunks within the configured limits, under a file name
  that is neither empty nor \<open>.\<close> nor \<open>..\<close>, and then request 900; the server has a free slot
  and no foreign file or directory in the way. Then the request handlers answer nothing
  until the last packet, then exactly one 1603 with the CRC-32 of the plaintext and, to the
  900, exactly one 1604; the plaintext, decrypted and unpadded, stands in the client's
  directory, the temporary file is gone, the upload's row is completed with its path and
  CRC, the upload slot is given back and the session is ready for the next upload.\<close>

theorem upload_end_to_end:
  assumes "all_well E" and "aes_key_ok E (p_key P) (p_iv P)" and "plan_ok (cfg w) P" and "plan_sendable P"
    and "0 \<notin> set (p_name P)" and "length (p_iv P) = 16" and "p_key P \<noteq> []"
    and "xf w = no_transfer" and "has_writer (w_sess w)" and "knows (bytes_hex (p_cid P)) (w_store w)"
    and "get_client_by_id (bytes_hex (p_cid P)) (w_store w) = Some found" and "aes_key_b64 found = Some (b64encode (p_key P))"
    and "length (p_cid P) = 16" and "path_basename (p_name P) \<notin> {[], DOT, DOTDOT}" and "\<not> has_upload_slot (w_sess w)"
    and "active_uploads (w_limiter w) < max_concurrent_uploads (w_limiter w)"
    and "connection_id (w_sess w) = bytes_hex u" and "dirs_free (bytes_hex (p_cid P)) (w_fs w)"
    and "entries (w_fs w) (p_path P) \<noteq> Some FDir" and "entries (w_fs w) (upload_temp_path (p_path P) (bytes_hex u)) \<noteq> Some FDir"
    and "upload_packets (p_csize P) (p_osize P) (p_total P) (p_name P) (p_iv P) chunks = Ok ps"
    and "len chunks = p_total P" and "len (concat chunks) = p_csize P"
    and "\<forall>ch \<in> set chunks. ch \<noteq> [] \<and> length ch mod AES_BLOCK = 0 \<and> len ch \<le> max_chunk_size (cfg w)"
    and "unpad E (aes_cbc_dec E (p_key P) (p_iv P) [] (concat chunks)) AES_BLOCK = Some plain" and "len plain = p_osize P"
    and "0 \<le> active_uploads (w_limiter w)"
  shows "\<exists>w'. block (map (\<lambda>p. request_828 E p (p_version P) (p_cid P)) ps @
        [request_900 E (utf8_bytes (path_basename (p_name P)) @ [0]) (p_version P) (p_cid P)]) w = (Ok (), w') \<and>
    file_at (w_fs w') (user_dir (bytes_hex (p_cid P)) @ SEP # path_basename (p_name P)) = Some plain \<and>
    entries (w_fs w') (upload_temp_path (p_path P) (bytes_hex u)) = None \<and>
    w_out w' = w_out w @ [frame_1603 P (crc32 plain 0), frame_1604 P] \<and>
    completed P (crc32 plain 0) (w_store w') \<and>
    xf w' = no_transfer \<and> \<not> has_upload_slot (w_sess w') \<and> w_limiter w' = w_limiter w"
  using upload_confirmed [of E w P chunks ps plain u found] assms
  by (simp add: packets_of_def room_for_def upload_requests_def delivered_def)

text \<open>A store with a second client, whose id has 16 bytes and who has an AES key.\<close>

definition cid_example :: bytes where "cid_example = replicate 16 1"

definition keyed_store_example :: store where
  "keyed_store_example = snd (set_client_aes_key SqlOk (bytes_hex cid_example) (b64encode [9])
     (snd (create_client SqlOk cid_example [50] [98] store_example)))"

lemma keyed_store_example_ok:
  "knows (bytes_hex cid_example) keyed_store_example"
  "\<exists>found. get_client_by_id (bytes_hex cid_example) keyed_store_example = Some found \<and> aes_key_b64 found = Some (b64encode [9])"
proof -
  let ?f = "\<lambda>r. r\<lparr>aes_key_b64 := Some (b64encode [9])\<rparr>" and ?hex = "bytes_hex cid_example"
  have "length ?hex \<noteq> length [48, 49 :: nat]" by (simp add: cid_example_def)
  then have "?hex \<noteq> [48, 49]" by metis
  then have new: "?hex \<notin> client_id_hex ` set (clients_table store_example)" "[98] \<notin> username ` set (clients_table store_example)"
    by (simp_all add: store_example_ok(3))
  obtain st where st: "st = snd (create_client SqlOk cid_example [50] [98] store_example)" "store_inv st" "sqlite_connected st"
      "?hex \<in> client_id_hex ` set (clients_table st)"
    using create_client_run [OF store_example_ok(1,2) new, of "[50]"] by fastforce
  obtain st' where st': "set_client_aes_key SqlOk ?hex (b64encode [9]) st = (Ok True, st')" "store_inv st'" "sqlite_connected st'"
      "clients_table st' = map (upd_row ?hex ?f) (clients_table st)"
    using update_client_run [OF st(2) refl st(3), of ?f ?hex] st(3,4) by (auto simp: set_client_aes_key_def)
  have k: "keyed_store_example = st'" by (simp only: keyed_store_example_def st(1) [symmetric] st'(1) snd_conv)
  show "knows ?hex keyed_store_example" using st(4) st' by (simp add: k knows_def)
  obtain r where "r \<in> set (clients_table st')" "client_id_hex r = ?hex" "aes_key_b64 r = Some (b64encode [9])"
    using st(4) st'(4) by (fastforce simp: upd_row_def)
  then show "\<exists>found. get_client_by_id ?hex keyed_store_example = Some found \<and> aes_key_b64 found = Some (b64encode [9])"
    using get_client_by_id_iff [OF st'(2,3)] unfolding k by blast
qed

theorem upload_end_to_end_witness:
  "\<exists>ps w'. upload_packets 32 16 2 [97] (zeros 16) [replicate 16 5, replicate 16 16] = Ok ps \<and>
     block (map (\<lambda>p. request_828 env_example p [3] cid_example) ps @ [request_900 env_example [97, 0] [3] cid_example])
       (world_example\<lparr>w_store := keyed_store_example\<rparr>) = (Ok (), w') \<and>
     file_at (w_fs w') (user_dir (bytes_hex cid_example) @ lit ''/a'') = Some (replicate 16 5) \<and>
     list_ex (\<lambda>row. up_status row = ''completed'' \<and> up_file_name row = [97]) (uploads_table (w_store w')) \<and>
     active_uploads (w_limiter w') = 0"
proof -
  let ?P = "\<lparr>p_cid = cid_example, p_version = [3], p_key = [9], p_iv = zeros 16, p_name = [97], p_csize = 32, p_osize = 16, p_total = 2\<rparr>"
  let ?w = "world_example\<lparr>w_store := keyed_store_example\<rparr>" and ?cs = "[replicate 16 5, replicate 16 16] :: bytes list"
  obtain ps where ps: "upload_packets 32 16 2 [97] (zeros 16) ?cs = Ok ps"
    by (simp add: upload_packets_def build_828_packet_def to_bytes_def utf8_encode_def valid_cp_def is_surrogate_def)
  obtain found where found: "get_client_by_id (bytes_hex cid_example) keyed_store_example = Some found"
      "aes_key_b64 found = Some (b64encode [9])"
    using keyed_store_example_ok(2) by blast
  have wd: "all_well env_example" "plan_ok config_example ?P" "plan_sendable ?P"
    using env_example_streams
    by (simp_all add: all_well_def plan_ok_def plan_sendable_def config_example_def Config_new_def cid_example_def
        path_basename_def valid_cp_def is_surrogate_def utf8_bytes_def utf8_cp_def zeros_def)
  have un: "pkcs7_unpad (replicate 16 5 @ replicate 16 16) 16 = Some (replicate 16 5)"
    by (simp add: pkcs7_unpad_append) (simp add: pkcs7_unpad_def)
  have base: "path_basename [97] = [97]" "utf8_bytes [97] = [97]" by (simp_all add: path_basename_def utf8_bytes_def utf8_cp_def)
  have "\<exists>w'. block (map (\<lambda>p. request_828 env_example p [3] cid_example) ps @ [request_900 env_example [97, 0] [3] cid_example]) ?w = (Ok (), w') \<and>
      file_at (w_fs w') (user_dir (bytes_hex cid_example) @ SEP # [97]) = Some (replicate 16 5) \<and>
      completed ?P (crc32 (replicate 16 5) 0) (w_store w') \<and> w_limiter w' = w_limiter ?w"
    using upload_end_to_end [where E = env_example and P = ?P and w = ?w and u = "replicate 16 7" and chunks = ?cs and ps = ps
        and plain = "replicate 16 5", OF wd(1) _ _ wd(3)] ps found wd un keyed_store_example_ok(1)
    by (auto simp: base AES_BLOCK_def dirs_free_def DOT_def DOTDOT_def config_example_def Config_new_def cid_example_def)
  then show ?thesis using ps by (force simp: completed_def list_ex_iff base lit_def)
qed

end
