(* ===== verification/Enrolment.thy ===== *)
theory Enrolment
  imports Upload_Session Handshake
begin

text \<open>
  A client's first connection, request by request: hello, acknowledgement, registration and
  key exchange, as the load test client builds them. Each request is answered once, and the
  store the last one leaves knows the client, its public key and the AES key it was sent, so
  that the client can upload (\<open>Upload_Session\<close>).
\<close>

section \<open>What the four requests leave alone\<close>

definition calm :: "world \<Rightarrow> world \<Rightarrow> bool" where
  "calm w w' \<longleftrightarrow> same_core (w_sess w) (w_sess w') \<and> w_fs w' = w_fs w \<and> w_limiter w' = w_limiter w"

lemma same_core_trans: "same_core s t \<Longrightarrow> same_core t u \<Longrightarrow> same_core s u"
  by (cases s; cases t; cases u) (simp add: same_core_def)

lemma same_core_verified: "same_core s t \<Longrightarrow> same_core (s\<lparr>handshake_verified := b\<rparr>) (t\<lparr>handshake_verified := b\<rparr>)"
  by (cases s; cases t) (simp add: same_core_def)

lemma calm_same_sess [simp]: "w_sess w' = w_sess w \<Longrightarrow> w_fs w' = w_fs w \<Longrightarrow> w_limiter w' = w_limiter w \<Longrightarrow> calm w w'"
  by (simp add: calm_def same_core_def)

lemma calm_trans: "calm u v \<Longrightarrow> calm v w \<Longrightarrow> calm u w"
  unfolding calm_def by (auto intro: same_core_trans)

lemma session_send_calm:
  assumes "all_well E" and "has_writer (w_sess w)" and "data \<noteq> []"
  shows "\<exists>w'. session_send E data w = (Ok (), w') \<and> w_out w' = w_out w @ [data] \<and> calm w w' \<and> w_store w' = w_store w \<and>
    w_tick w' = w_tick w + 2"
  using session_send_ok [OF assms(3,2) all_wellD(4) [OF assms(1)]] by (simp add: calm_def same_core_def)

lemma log_event_calm:
  "\<exists>w'. log_event E k what w = (Ok (), w') \<and> w_out w' = w_out w \<and> calm w w' \<and> w_sess w' = w_sess w \<and>
    (\<exists>e. w_store w' = log_append k e (w_store w))"
  by (auto simp: log_event_def next_of_def bnd_def)

section \<open>A client in the store\<close>

definition enrolled :: "pystr \<Rightarrow> pystr \<Rightarrow> bytes option \<Rightarrow> pystr option \<Rightarrow> store \<Rightarrow> bool" where
  "enrolled c name der aes st \<longleftrightarrow> store_inv st \<and> sqlite_connected st \<and>
     (\<exists>r \<in> set (clients_table st). client_id_hex r = c \<and> username r = name \<and> public_key_der r = der \<and> aes_key_b64 r = aes)"

lemma enrolled_knows: "enrolled c name der aes st \<Longrightarrow> knows c st"
  by (auto simp: enrolled_def knows_def)

lemma enrolled_found:
  "enrolled c name der aes st \<Longrightarrow> \<exists>r. get_client_by_id c st = Some r \<and> client_id_hex r = c \<and> username r = name \<and>
    public_key_der r = der \<and> aes_key_b64 r = aes"
  unfolding enrolled_def using get_client_by_id_iff by blast

lemma enrolled_log [simp]: "enrolled c name der aes (log_append k e st) = enrolled c name der aes st"
  by (simp add: enrolled_def)

lemma enrolled_update:
  assumes e: "enrolled c name der aes st" and f: "keeps_keys f"
    and k: "\<And>r. public_key_der r = der \<Longrightarrow> aes_key_b64 r = aes \<Longrightarrow> public_key_der (f r) = der' \<and> aes_key_b64 (f r) = aes'"
  shows "\<exists>st'. update_client SqlOk c f st = (Ok True, st') \<and> enrolled c name der' aes' st'"
proof -
  obtain r where r: "r \<in> set (clients_table st)" "client_id_hex r = c" "username r = name" "public_key_der r = der" "aes_key_b64 r = aes"
    using e unfolding enrolled_def by blast
  obtain st' where st': "update_client SqlOk c f st = (Ok (c \<in> client_id_hex ` set (clients_table st)), st')" "store_inv st'"
      "sqlite_connected st'" "clients_table st' = map (upd_row c f) (clients_table st)"
    using update_client_run [OF _ refl _ f] e unfolding enrolled_def by blast
  have "c \<in> client_id_hex ` set (clients_table st)" using r(1,2) by blast
  moreover have "upd_row c f r \<in> set (clients_table st')" using r(1) st'(4) by simp
  moreover have "client_id_hex (f r) = c" "username (f r) = name" using f r(2,3) by (auto simp: keeps_keys_def)
  ultimately show ?thesis using st' r(2) k [OF r(4,5)] unfolding enrolled_def upd_row_def by auto
qed

lemma touch_enrolled:
  assumes "all_well E" and "enrolled c name der aes (w_store w)"
  shows "\<exists>w'. touch_client E c w = (Ok (), w') \<and> w_out w' = w_out w \<and> w_sess w' = w_sess w \<and> calm w w' \<and>
    enrolled c name der aes (w_store w')"
proof -
  obtain st where "update_client SqlOk c (\<lambda>r. r\<lparr>last_seen := wall E (w_tick w)\<rparr>) (w_store w) = (Ok True, st)"
      "enrolled c name der aes st"
    using enrolled_update [OF assms(2), of "\<lambda>r. r\<lparr>last_seen := wall E (w_tick w)\<rparr>"] by auto
  then show ?thesis using all_wellD(5) [OF assms(1)]
    by (simp add: touch_client_def next_of_def bnd_def on_store_def touch_client_last_seen_def)
qed

section \<open>Hello and acknowledgement\<close>

text \<open>What the server's hello, its signature included, looks like.\<close>

definition frame_1608 :: "env \<Rightarrow> rsa_key \<Rightarrow> bytes \<Rightarrow> bytes \<Rightarrow> bytes \<Rightarrow> bytes" where
  "frame_1608 E key version cn sn = (let der = rsa_public_der E key; sig = rsa_sign E key (TRANSCRIPT_CONTEXT @ [1] @ cn @ sn @ der);
     body = [1] @ sn @ le_encode 2 (len der) @ der @ le_encode 2 (len sig) @ sig
     in version @ le_encode 2 1608 @ le_encode 4 (len body) @ body)"

text \<open>Responses the identity key can sign: its public key and its signatures fit their length fields.\<close>

definition signs :: "env \<Rightarrow> rsa_key \<Rightarrow> bool" where
  "signs E key \<longleftrightarrow> len (rsa_public_der E key) \<le> 65535 \<and> (\<forall>m. len (rsa_sign E key m) \<le> 65535)"

text \<open>A session before its handshake.\<close>

definition unstarted :: "session \<Rightarrow> bool" where
  "unstarted s \<longleftrightarrow> \<not> handshake_verified s \<and> client_nonce s = None \<and> server_nonce s = None \<and> security_version s = None"

lemma hello_run:
  fixes E :: env and w :: world and nonce version cid :: bytes
  defines "sn \<equiv> random_bytes E (w_tick w) 32"
  assumes E: "all_well E" and v: "length version = 1" and s: "signs E (server_identity_key (w_sess w))" and l: "length sn = 32"
    and h: "unstarted (w_sess w)" "length nonce = 32" "has_writer (w_sess w)"
  shows "\<exists>w'. request_829 E ([1] @ nonce @ [0]) version cid w = (Ok (), w') \<and>
    w_out w' = w_out w @ [frame_1608 E (server_identity_key (w_sess w)) version nonce sn] \<and> w_store w' = w_store w \<and>
    calm (w\<lparr>w_sess := (w_sess w)\<lparr>security_version := Some 1, client_nonce := Some nonce, server_nonce := Some sn\<rparr>\<rparr>) w' \<and>
    w_tick w' = w_tick w + 3"
proof -
  let ?key = "server_identity_key (w_sess w)" and ?der = "rsa_public_der E (server_identity_key (w_sess w))"
  let ?v = "w\<lparr>w_tick := w_tick w + 1, w_sess := (w_sess w)\<lparr>security_version := Some 1, client_nonce := Some nonce,
    server_nonce := Some sn\<rparr>\<rparr>"
  let ?sig = "rsa_sign E ?key (TRANSCRIPT_CONTEXT @ [1] @ nonce @ sn @ ?der)" and ?frame = "frame_1608 E ?key version nonce sn"
  have sign: "sign_server_hello E ?key 1 nonce sn ?der = Ok ?sig"
    by (simp add: sign_server_hello_def server_hello_transcript_def to_bytes_def le_encode_fields)
  have fit: "len ?der \<le> 65535" "len ?sig \<le> 65535" using s by (simp_all add: signs_def)
  have "request_829 E ([1] @ nonce @ [0]) version cid w = answer_1608 E version 1 sn ?der ?sig ?v"
    using h(1,2) sign by (simp add: unstarted_def request_829_def Let_def nth_append upd_sess_def next_of_def bnd_def get_public_key_der_def sn_def [symmetric])
  also have "\<dots> = session_send E ?frame ?v"
    using fit l v by (simp add: answer_1608_def to_bytes_def le_encode_fields message_answer_ok frame_1608_def Let_def message_answer_def)
  finally have run: "request_829 E ([1] @ nonce @ [0]) version cid w = session_send E ?frame ?v" .
  have "?frame \<noteq> []" using v by (auto simp: frame_1608_def Let_def)
  then obtain w' where "session_send E ?frame ?v = (Ok (), w')" "w_out w' = w_out ?v @ [?frame]" "calm ?v w'" "w_store w' = w_store ?v"
      "w_tick w' = w_tick ?v + 2"
    using session_send_calm [OF E, of ?v ?frame] h(3) by auto
  then show ?thesis unfolding run by (simp add: calm_def)
qed

lemma ack_run:
  assumes "phase (w_sess w) = HelloSent"
  shows "request_830 E [] version cid w = (Ok (), w\<lparr>w_sess := (w_sess w)\<lparr>handshake_verified := True\<rparr>\<rparr>)"
  using assms by (auto simp: request_830_def Let_def phase_def upd_sess_def split: if_splits option.splits)

section \<open>Registration\<close>

text \<open>Names the server accepts and a payload can carry.\<close>

definition name_ok :: "env \<Rightarrow> pystr \<Rightarrow> bool" where
  "name_ok E name \<longleftrightarrow> is_valid_username E name \<and> list_all (\<lambda>c. valid_cp c \<and> c \<noteq> 0 \<and> \<not> unicode_space c) name"

lemma name_okD:
  assumes "name_ok E name"
  shows "is_valid_username E name" "name \<noteq> []" "list_all valid_cp name" "0 \<notin> set name" "0 \<notin> set (utf8_bytes name)"
    "utf8_decode (utf8_bytes name) = Some name" "str_strip name = name"
proof -
  show v: "is_valid_username E name" "list_all valid_cp name" "0 \<notin> set name" using assms by (auto simp: name_ok_def list_all_iff)
  then show "name \<noteq> []" by (auto simp: is_valid_username_def)
  show "0 \<notin> set (utf8_bytes name)" by (rule utf8_bytes_no_nul [OF v(2,3)])
  show "utf8_decode (utf8_bytes name) = Some name" by (rule utf8_decode_encode [OF v(2)])
  show "str_strip name = name" unfolding str_strip_def using assms by (intro strip_while_id) (auto simp: name_ok_def list_all_iff)
qed

lemma rstrip_nul_name: "0 \<notin> set b \<Longrightarrow> rstrip_nul (b @ [0]) = b"
  unfolding rstrip_nul_def by (rule rstrip_while_terminated) auto

definition frame_1600 :: "bytes \<Rightarrow> bytes \<Rightarrow> bytes" where
  "frame_1600 version cid = version @ le_encode 2 1600 @ le_encode 4 16 @ cid"

lemma register_run:
  fixes E :: env and w :: world and name version :: bytes
  defines "cid \<equiv> uuid4 E (w_tick w)"
  assumes E: "all_well E" and n: "name_ok E n" and p: "build_825_payload n = Ok payload" and v: "length version = 1" "has_writer (w_sess w)"
    and st: "store_inv (w_store w)" "sqlite_connected (w_store w)" "n \<notin> username ` set (clients_table (w_store w))"
    and u: "length cid = 16" "bytes_hex cid \<notin> client_id_hex ` set (clients_table (w_store w))"
  shows "\<exists>w'. request_825 E payload version w = (Ok (), w') \<and> w_out w' = w_out w @ [frame_1600 version cid] \<and> calm w w' \<and>
    enrolled (bytes_hex cid) n None None (w_store w')"
proof -
  have pl: "payload = utf8_bytes n @ [0]" using p name_okD(3) [OF n] by (simp add: build_825_payload_def utf8_encode_def)
  have new: "\<not> client_exists_by_username n (w_store w)"
  proof -
    have "get_client_by_username n (w_store w) = None"
      using get_client_by_username_iff [OF st(1,2)] st(3) by (metis image_eqI not_Some_eq)
    then show ?thesis using st(1,2) by (auto simp: client_exists_by_username_def get_client_by_username_def store_inv_def
        indexed_def index_record_def)
  qed
  let ?now = "wall E (w_tick w + 1)"
  let ?r = "\<lparr>client_id_hex = bytes_hex cid, username = n, public_key_der = None, aes_key_b64 = None, created_at = ?now, last_seen = ?now\<rparr>"
  obtain s1 where s1: "create_client SqlOk cid ?now n (w_store w) = (Ok (Some ?r), s1)" "store_inv s1" "sqlite_connected s1"
      "clients_table s1 = clients_table (w_store w) @ [?r]"
    using create_client_run [OF st(1,2) u(2) st(3), of ?now] by blast
  let ?w1 = "w\<lparr>w_tick := w_tick w + 3, w_store := adopt_log n cid s1\<rparr>"
  have e1: "enrolled (bytes_hex cid) n None None (w_store ?w1)"
    using s1(2-4) by (auto simp: enrolled_def adopt_log_def store_inv_def db_ok_def indexed_def split: option.split)
  obtain w2 where w2: "log_event E (ById cid) ''request_825'' ?w1 = (Ok (), w2)" "w_out w2 = w_out ?w1" "calm ?w1 w2"
      "w_sess w2 = w_sess ?w1" "enrolled (bytes_hex cid) n None None (w_store w2)"
    using log_event_calm [of E "ById cid" "''request_825''" ?w1] e1 by auto
  obtain w3 where w3: "log_event E (ById cid) ''answer_1600'' w2 = (Ok (), w3)" "w_out w3 = w_out w2" "calm w2 w3"
      "w_sess w3 = w_sess w2" "enrolled (bytes_hex cid) n None None (w_store w3)"
    using log_event_calm [of E "ById cid" "''answer_1600''" w2] w2(5) by auto
  have m: "message_answer version 1600 16 cid = Ok (frame_1600 version cid)"
    using v(1) u(1) by (simp add: message_answer_def to_bytes_def frame_1600_def)
  have "frame_1600 version cid \<noteq> []" using v(1) by (auto simp: frame_1600_def)
  then obtain w4 where w4: "session_send E (frame_1600 version cid) w3 = (Ok (), w4)" "w_out w4 = w_out w3 @ [frame_1600 version cid]"
      "calm w3 w4" "w_store w4 = w_store w3"
    using session_send_calm [OF E, of w3] v(2) w2(4) w3(4) by auto
  have "request_825 E payload version w = (Ok (), w4)"
    using name_okD(1,6) [OF n] new s1(1) w2(1) w3(1) w4(1) m all_wellD(5) [OF E] rstrip_nul_name [OF name_okD(5) [OF n]]
    by (simp add: request_825_def pl next_of_def bnd_def on_store_def cid_def [symmetric] answer_1600_def eval_nat_numeral)
  moreover have "calm w w4" using calm_trans [OF calm_trans [OF calm_trans [OF _ w2(3)] w3(3)] w4(3)] by simp
  ultimately show ?thesis using w2(2) w3(2,5) w4(2,4) by simp
qed

section \<open>Key exchange\<close>

text \<open>A public key the server accepts, and that can encrypt an AES key.\<close>

definition key_accepted :: "env \<Rightarrow> bytes \<Rightarrow> rsa_key \<Rightarrow> bool" where
  "key_accepted E der key \<longleftrightarrow> rsa_import E der = Some key \<and> \<not> rsa_has_private E key \<and> rsa_size_in_bits E key = 2048 \<and>
     3 \<le> rsa_e E key \<and> rsa_e E key mod 2 = 1 \<and>
     (\<forall>n aes. length aes = 32 \<longrightarrow> (\<exists>ct. oaep_encrypt E n key aes = Ok ct \<and> len ct \<le> 65535))"

abbreviation b64_bytes :: "bytes \<Rightarrow> bytes" where
  "b64_bytes der \<equiv> map word_of_nat (b64encode der)"

lemma b64_char_range [simp]: "43 \<le> b64_char v" "b64_char v \<le> 122"
  by (auto simp: b64_char_def)

lemma b64encode_chars: "c \<in> set (b64encode b) \<Longrightarrow> 43 \<le> c \<and> c \<le> 122"
  by (induction b rule: b64encode.induct) auto

lemma unat_b64: "c \<in> set (b64encode b) \<Longrightarrow> unat (word_of_nat c :: byte) = c"
  using b64encode_chars [of c b] by simp

lemma b64_bytes_unat: "map unat (b64_bytes der) = b64encode der"
  by (simp add: unat_b64 comp_def cong: map_cong)

lemma b64_bytes_plain:
  assumes "b \<in> set (b64_bytes der)"
  shows "b \<noteq> 0 \<and> \<not> ascii_space (unat b) \<and> unat b < 128"
proof -
  obtain c where c: "c \<in> set (b64encode der)" "b = word_of_nat c" using assms by auto
  then have "unat b = c" "43 \<le> c" "c \<le> 122" using unat_b64 b64encode_chars by blast+
  then show ?thesis by (auto simp: ascii_space_def)
qed

lemma public_blob_826:
  assumes "0 \<notin> set name"
  shows "find_nul (name @ [0] @ b64_bytes der) = len name" "public_blob (name @ [0] @ b64_bytes der) = b64_bytes der"
proof -
  show f: "find_nul (name @ [0] @ b64_bytes der) = len name" using find_nul_append [OF assms] by simp
  have "rstrip_nul (b64_bytes der) = b64_bytes der"
    unfolding rstrip_nul_def using b64_bytes_plain [of "last (b64_bytes der)" der]
    by (intro rstrip_while_id) (metis last_in_set)
  moreover have "bytes_strip (b64_bytes der) = b64_bytes der"
    unfolding bytes_strip_def using b64_bytes_plain [of _ der] by (intro strip_while_id) (simp only: list_all_iff, blast)
  ultimately show "public_blob (name @ [0] @ b64_bytes der) = b64_bytes der"
    unfolding public_blob_def f by simp
qed

definition aes_key_body :: "bytes \<Rightarrow> bytes \<Rightarrow> bytes \<Rightarrow> bytes" where
  "aes_key_body cid ct sig = cid @ le_encode 2 (len ct) @ ct @ le_encode 2 (len sig) @ sig"

definition key_frame :: "env \<Rightarrow> session \<Rightarrow> int \<Rightarrow> bytes \<Rightarrow> bytes \<Rightarrow> bytes \<Rightarrow> bytes" where
  "key_frame E s code version cid ct = (let sig = rsa_sign E (server_identity_key s) (AES_KEY_BINDING_CONTEXT @ [1] @
       the (client_nonce s) @ the (server_nonce s) @ cid @ le_encode 2 code @ ct); body = aes_key_body cid ct sig
     in version @ le_encode 2 code @ le_encode 4 (len body) @ body)"

text \<open>A session whose handshake is done.\<close>

definition agreed :: "session \<Rightarrow> bool" where
  "agreed s \<longleftrightarrow> handshake_verified s \<and> security_version s = Some 1 \<and> client_nonce s \<noteq> None \<and> server_nonce s \<noteq> None"

lemma answer_key_run:
  assumes E: "all_well E" and a: "agreed (w_sess w)" "signs E (server_identity_key (w_sess w))" "has_writer (w_sess w)"
    and l: "length version = 1" "length cid = 16" "len ct \<le> 65535" and code: "0 \<le> code" "code < 65536"
    and e: "enrolled (bytes_hex cid) n der aes (w_store w)"
  shows "\<exists>w'. answer_aes_key E code what ct cid version w = (Ok (), w') \<and> w_out w' = w_out w @ [key_frame E (w_sess w) code version cid ct] \<and> calm w w' \<and>
    enrolled (bytes_hex cid) n der aes (w_store w')"
proof -
  obtain cn sn where n: "client_nonce (w_sess w) = Some cn" "server_nonce (w_sess w) = Some sn" using a(1) by (auto simp: agreed_def)
  let ?sig = "rsa_sign E (server_identity_key (w_sess w)) (AES_KEY_BINDING_CONTEXT @ [1] @ cn @ sn @ cid @ le_encode 2 code @ ct)"
  let ?frame = "key_frame E (w_sess w) code version cid ct"
  have sig: "len ?sig \<le> 65535" using a(2) by (simp add: signs_def)
  have "sign_aes_key_binding E (server_identity_key (w_sess w)) 1 cn sn cid code ct = Ok ?sig"
    using code by (simp add: sign_aes_key_binding_def aes_key_binding_transcript_def to_bytes_def le_encode_fields)
  then have body: "build_bound_aes_key_payload E ct cid code (w_sess w) = Ok (aes_key_body cid ct ?sig)"
    using a(1) n sig l(3) by (simp add: build_bound_aes_key_payload_def agreed_def to_bytes_def aes_key_body_def)
  have msg: "message_answer version code (len (aes_key_body cid ct ?sig)) (aes_key_body cid ct ?sig) = Ok ?frame"
    using message_answer_ok [OF l(1) code, of "aes_key_body cid ct ?sig"] sig l(2,3) n by (simp add: key_frame_def Let_def aes_key_body_def)
  have ne: "?frame \<noteq> []" using l(1) by (auto simp: key_frame_def Let_def)
  obtain w1 where w1: "touch_client E (bytes_hex cid) w = (Ok (), w1)" "w_out w1 = w_out w" "w_sess w1 = w_sess w" "calm w w1"
      "enrolled (bytes_hex cid) n der aes (w_store w1)"
    using touch_enrolled [OF E e] by blast
  obtain w2 where w2: "log_event E (ById cid) what w1 = (Ok (), w2)" "w_out w2 = w_out w1" "calm w1 w2"
      "w_sess w2 = w_sess w1" "enrolled (bytes_hex cid) n der aes (w_store w2)"
    using log_event_calm [of E "ById cid" what w1] w1(5) by auto
  obtain w3 where w3: "session_send E ?frame w2 = (Ok (), w3)" "w_out w3 = w_out w2 @ [?frame]" "calm w2 w3" "w_store w3 = w_store w2"
    using session_send_calm [OF E _ ne, of w2] a(3) w1(3) w2(4) by auto
  have "answer_aes_key E code what ct cid version w = (Ok (), w3)"
    using body msg w1(1) w2(1) w3(1) by (simp add: answer_aes_key_def bnd_def)
  then show ?thesis using calm_trans [OF calm_trans [OF w1(4) w2(3)] w3(3)] w1(2) w2(2,5) w3(2,4) by simp
qed

lemma fresh_key_run:
  assumes E: "all_well E" and e: "enrolled (bytes_hex cid) n der aes (w_store w)"
  shows "\<exists>w' t. fresh_aes_key E (bytes_hex cid) w = (Ok (random_bytes E t 32), w') \<and> w_out w' = w_out w \<and> w_sess w' = w_sess w \<and>
    calm w w' \<and> enrolled (bytes_hex cid) n der (Some (b64encode (random_bytes E t 32))) (w_store w')"
proof -
  let ?t = "w_tick w"
  obtain st where st: "set_client_aes_key SqlOk (bytes_hex cid) (b64encode (random_bytes E ?t 32)) (w_store w) = (Ok True, st)"
      "enrolled (bytes_hex cid) n der (Some (b64encode (random_bytes E ?t 32))) st"
    using enrolled_update [OF e, of "\<lambda>r. r\<lparr>aes_key_b64 := Some (b64encode (random_bytes E ?t 32))\<rparr>"] by (auto simp: set_client_aes_key_def)
  have "fresh_aes_key E (bytes_hex cid) w = (Ok (random_bytes E ?t 32), w\<lparr>w_tick := w_tick w + 2, w_store := st\<rparr>)"
    using st(1) all_wellD(5) [OF E] by (simp add: fresh_aes_key_def next_of_def on_store_def bnd_def eval_nat_numeral)
  then show ?thesis using st(2) by (intro exI [of _ "w\<lparr>w_tick := w_tick w + 2, w_store := st\<rparr>"] exI [of _ ?t]) simp
qed

lemma enrol_first_key:
  assumes E: "all_well E" and rec: "public_key_der r = None" and e: "enrolled (bytes_hex cid) n None None (w_store w)"
  shows "\<exists>w' t. enrol_key E cid version r der w = (Ok (Some (random_bytes E t 32)), w') \<and> w_out w' = w_out w \<and> w_sess w' = w_sess w \<and>
    calm w w' \<and> enrolled (bytes_hex cid) n (Some der) (Some (b64encode (random_bytes E t 32))) (w_store w')"
proof -
  obtain s1 where s1: "set_client_public_key SqlOk (bytes_hex cid) der (w_store w) = (Ok True, s1)"
      "enrolled (bytes_hex cid) n (Some der) None s1"
    using enrolled_update [OF e, of "\<lambda>r. r\<lparr>public_key_der := Some der\<rparr>"] by (auto simp: set_client_public_key_def)
  let ?w1 = "w\<lparr>w_tick := Suc (w_tick w), w_store := s1\<rparr>"
  obtain w2 t where w2: "fresh_aes_key E (bytes_hex cid) ?w1 = (Ok (random_bytes E t 32), w2)" "w_out w2 = w_out ?w1" "w_sess w2 = w_sess ?w1"
      "calm ?w1 w2" "enrolled (bytes_hex cid) n (Some der) (Some (b64encode (random_bytes E t 32))) (w_store w2)"
    using fresh_key_run [OF E, of cid n "Some der" None ?w1] s1(2) by auto
  have "enrol_key E cid version r der w = (Ok (Some (random_bytes E t 32)), w2)"
    using rec s1(1) w2(1) all_wellD(5) [OF E] by (simp add: enrol_key_def next_of_def on_store_def bnd_def)
  moreover have "calm w w2" using w2(4) by (simp add: calm_def)
  ultimately show ?thesis using w2(2,3,5) by auto
qed

lemma accept_key_run: "key_accepted E der key \<Longrightarrow> accept_rsa_key E cid version n der w = (Ok (Some key), w)"
  by (auto simp: key_accepted_def accept_rsa_key_def try_except_def)

lemma exchange_run:
  assumes E: "all_well E" and n: "name_ok E n" and p: "build_826_payload n (b64_bytes der) = Ok payload" and k: "key_accepted E der key"
    and a: "agreed (w_sess w)" "signs E (server_identity_key (w_sess w))" "has_writer (w_sess w)"
    and l: "length version = 1" "length cid = 16" and e: "enrolled (bytes_hex cid) n None None (w_store w)"
    and r: "\<And>t. length (random_bytes E t 32) = 32"
  shows "\<exists>w' aes ct t. request_826 E cid payload version w = (Ok (), w') \<and> length aes = 32 \<and> oaep_encrypt E t key aes = Ok ct \<and>
    w_out w' = w_out w @ [key_frame E (w_sess w) 1602 version cid ct] \<and> calm w w' \<and>
    enrolled (bytes_hex cid) n (Some der) (Some (b64encode aes)) (w_store w')"
proof -
  have pl: "payload = utf8_bytes n @ [0] @ b64_bytes der" using p name_okD(3) [OF n] by (simp add: build_826_payload_def utf8_encode_def)
  have ne: "0 < len (utf8_bytes n)"
    using name_okD(2,6) [OF n] by (cases "utf8_bytes n = []") auto
  note blob = public_blob_826 [OF name_okD(5) [OF n], of der]
  have ascii: "list_all (\<lambda>b. unat b < 128) (b64_bytes der)" using b64_bytes_plain by (simp only: list_all_iff) blast
  obtain rec where rec: "get_client_by_id (bytes_hex cid) (w_store w) = Some rec" "username rec = n" "public_key_der rec = None"
    using enrolled_found [OF e] by blast
  obtain w1 where w1: "touch_client E (bytes_hex cid) w = (Ok (), w1)" "w_out w1 = w_out w" "w_sess w1 = w_sess w" "calm w w1"
      "enrolled (bytes_hex cid) n None None (w_store w1)"
    using touch_enrolled [OF E e] by blast
  obtain w2 where w2: "log_event E (ById cid) ''request_826'' w1 = (Ok (), w2)" "w_out w2 = w_out w1" "calm w1 w2" "w_sess w2 = w_sess w1"
      "enrolled (bytes_hex cid) n None None (w_store w2)"
    using log_event_calm [of E "ById cid" "''request_826''" w1] w1(5) by auto
  obtain w3 t where w3: "enrol_key E cid version rec der w2 = (Ok (Some (random_bytes E t 32)), w3)" "w_out w3 = w_out w2" "w_sess w3 = w_sess w2"
      "calm w2 w3" "enrolled (bytes_hex cid) n (Some der) (Some (b64encode (random_bytes E t 32))) (w_store w3)"
    using enrol_first_key [OF E rec(3) w2(5)] by blast
  obtain ct where ct: "oaep_encrypt E (w_tick w3) key (random_bytes E t 32) = Ok ct" "len ct \<le> 65535"
    using k r [of t] unfolding key_accepted_def by blast
  let ?w4 = "w3\<lparr>w_tick := Suc (w_tick w3)\<rparr>"
  have s4: "w_sess ?w4 = w_sess w" using w1(3) w2(4) w3(3) by simp
  obtain w5 where w5: "answer_1602 E ct cid version ?w4 = (Ok (), w5)" "w_out w5 = w_out ?w4 @ [key_frame E (w_sess w) 1602 version cid ct]"
      "calm ?w4 w5" "enrolled (bytes_hex cid) n (Some der) (Some (b64encode (random_bytes E t 32))) (w_store w5)"
    using answer_key_run [OF E _ _ _ l ct(2), of ?w4 1602 n "Some der" "Some (b64encode (random_bytes E t 32))"] a w3(5) unfolding s4 answer_1602_def by auto
  have "request_826_known E cid payload version rec w = (Ok (), w5)"
    unfolding request_826_known_def pl Let_def blob b64_bytes_unat b64decode_encode
    using w1(1) w2(1) w3(1) ct(1) w5(1) ne rec(2) name_okD(6,7) [OF n] ascii accept_key_run [OF k]
    by (simp add: bnd_def next_of_def)
  then have "request_826 E cid payload version w = (Ok (), w5)" using rec(1) by (simp add: request_826_def)
  moreover have "calm w w5"
    using calm_trans [OF calm_trans [OF calm_trans [OF calm_trans [OF w1(4) w2(3)] w3(4)] _] w5(3)] by simp
  ultimately show ?thesis using w1(2) w2(2) w3(2) w5(2,4) ct(1) r [of t] by fastforce
qed

section \<open>The first connection\<close>

text \<open>What the code relies on from outside: a disk, a database and a connection that work, signatures
  that fit, random bytes as many as asked for, and uuids nobody has.\<close>

definition server_works :: "env \<Rightarrow> rsa_key \<Rightarrow> bool" where
  "server_works E key \<longleftrightarrow> all_well E \<and> signs E key \<and> (\<forall>t. length (random_bytes E t 32) = 32)"

definition outside_works :: "env \<Rightarrow> rsa_key \<Rightarrow> store \<Rightarrow> bool" where
  "outside_works E key st \<longleftrightarrow> server_works E key \<and>
     (\<forall>t. length (uuid4 E t) = 16 \<and> bytes_hex (uuid4 E t) \<notin> client_id_hex ` set (clients_table st))"

text \<open>The session after hello and acknowledgement.\<close>

abbreviation shaken :: "bytes \<Rightarrow> bytes \<Rightarrow> world \<Rightarrow> world" where
  "shaken cn sn w \<equiv> w\<lparr>w_sess := (w_sess w)\<lparr>security_version := Some 1, client_nonce := Some cn, server_nonce := Some sn,
     handshake_verified := True\<rparr>\<rparr>"

definition handshake_requests :: "env \<Rightarrow> bytes \<Rightarrow> bytes \<Rightarrow> unit act" where
  "handshake_requests E version nonce = block [
     request_829 E ([1] @ nonce @ [0]) version (zeros 16), request_830 E [] version (zeros 16)]"

lemma handshake_run:
  assumes o: "server_works E (server_identity_key (w_sess w))" and h: "unstarted (w_sess w)" "length nonce = 32" "has_writer (w_sess w)"
    and v: "length version = 1"
  shows "\<exists>sn w'. handshake_requests E version nonce w = (Ok (), w') \<and>
    w_out w' = w_out w @ [frame_1608 E (server_identity_key (w_sess w)) version nonce sn] \<and> w_store w' = w_store w \<and>
    calm (shaken nonce sn w) w'"
proof -
  let ?key = "server_identity_key (w_sess w)" and ?sn = "random_bytes E (w_tick w) 32"
  have E: "all_well E" "signs E ?key" "length ?sn = 32" using o by (simp_all add: server_works_def)
  obtain w1 where w1: "request_829 E ([1] @ nonce @ [0]) version (zeros 16) w = (Ok (), w1)"
      "w_out w1 = w_out w @ [frame_1608 E ?key version nonce ?sn]" "w_store w1 = w_store w"
      "calm (w\<lparr>w_sess := (w_sess w)\<lparr>security_version := Some 1, client_nonce := Some nonce, server_nonce := Some ?sn\<rparr>\<rparr>) w1"
    using hello_run [OF E(1) v E(2,3) h] by blast
  have c1: "same_core ((w_sess w)\<lparr>security_version := Some 1, client_nonce := Some nonce, server_nonce := Some ?sn\<rparr>) (w_sess w1)"
      "w_fs w1 = w_fs w" "w_limiter w1 = w_limiter w"
    using w1(4) by (simp_all add: calm_def)
  let ?w2 = "w1\<lparr>w_sess := (w_sess w1)\<lparr>handshake_verified := True\<rparr>\<rparr>"
  have "phase (w_sess w1) = HelloSent" using same_core_fields [OF c1(1)] h(1) by (simp add: phase_def unstarted_def)
  then have "handshake_requests E version nonce w = (Ok (), ?w2)"
    using w1(1) ack_run by (simp add: handshake_requests_def bnd_def)
  moreover have "calm (shaken nonce ?sn w) ?w2" using same_core_verified [OF c1(1), of True] c1(2,3) by (simp add: calm_def)
  ultimately show ?thesis using w1(2,3) by (intro exI [of _ ?sn] exI [of _ ?w2]) simp
qed

lemma shaken_fields:
  assumes "calm (shaken cn sn w) w'"
  shows "agreed (w_sess w')" "has_writer (w_sess w') = has_writer (w_sess w)" "server_identity_key (w_sess w') = server_identity_key (w_sess w)"
    "client_nonce (w_sess w') = Some cn" "server_nonce (w_sess w') = Some sn" "phase (w_sess w') = Verified"
    "cfg w' = cfg w" "xf w' = xf w" "has_upload_slot (w_sess w') = has_upload_slot (w_sess w)"
    "connection_id (w_sess w') = connection_id (w_sess w)" "w_fs w' = w_fs w" "w_limiter w' = w_limiter w"
proof -
  have c: "same_core (w_sess (shaken cn sn w)) (w_sess w')" "w_fs w' = w_fs w" "w_limiter w' = w_limiter w"
    using assms by (simp_all add: calm_def)
  note f = same_core_fields [OF c(1)]
  show "agreed (w_sess w')" "phase (w_sess w') = Verified" using f by (simp_all add: agreed_def phase_def)
qed (use assms [unfolded calm_def] same_core_fields [of "w_sess (shaken cn sn w)" "w_sess w'"] in simp_all)

lemma key_frame_calm: "calm w w' \<Longrightarrow> key_frame E (w_sess w') code version cid ct = key_frame E (w_sess w) code version cid ct"
  using same_core_fields [of "w_sess w" "w_sess w'"] by (simp add: key_frame_def calm_def)

definition first_requests :: "env \<Rightarrow> bytes \<Rightarrow> bytes \<Rightarrow> bytes \<Rightarrow> bytes \<Rightarrow> bytes \<Rightarrow> unit act" where
  "first_requests E version nonce p825 cid p826 = block [
     handshake_requests E version nonce, request_825 E p825 version, request_826 E cid p826 version]"

lemma first_requests_run:
  assumes o: "outside_works E (server_identity_key (w_sess w)) (w_store w)" and h: "unstarted (w_sess w)" "length nonce = 32" "has_writer (w_sess w)"
    and v: "length version = 1" and st: "store_inv (w_store w)" "sqlite_connected (w_store w)"
    and n: "name_ok E n" "n \<notin> username ` set (clients_table (w_store w))"
    and p: "build_825_payload n = Ok p825" "build_826_payload n (b64_bytes der) = Ok p826" and k: "key_accepted E der key"
  shows "\<exists>sn cid aes ct t w'. first_requests E version nonce p825 cid p826 w = (Ok (), w') \<and>
    w_out w' = w_out w @ [frame_1608 E (server_identity_key (w_sess w)) version nonce sn, frame_1600 version cid,
      key_frame E (w_sess w') 1602 version cid ct] \<and>
    oaep_encrypt E t key aes = Ok ct \<and> length aes = 32 \<and> length cid = 16 \<and>
    calm (shaken nonce sn w) w' \<and> enrolled (bytes_hex cid) n (Some der) (Some (b64encode aes)) (w_store w')"
proof -
  let ?key = "server_identity_key (w_sess w)"
  have o': "server_works E ?key" using o by (simp add: outside_works_def)
  have E: "all_well E" "signs E ?key" "\<And>t. length (random_bytes E t 32) = 32" "\<And>t. length (uuid4 E t) = 16"
      "\<And>t. bytes_hex (uuid4 E t) \<notin> client_id_hex ` set (clients_table (w_store w))"
    using o by (simp_all add: outside_works_def server_works_def)
  obtain sn w2 where w2: "handshake_requests E version nonce w = (Ok (), w2)"
      "w_out w2 = w_out w @ [frame_1608 E ?key version nonce sn]" "w_store w2 = w_store w" "calm (shaken nonce sn w) w2"
    using handshake_run [OF o' h v] by blast
  note f2 = shaken_fields [OF w2(4)]
  let ?cid = "uuid4 E (w_tick w2)"
  obtain w3 where w3: "request_825 E p825 version w2 = (Ok (), w3)" "w_out w3 = w_out w2 @ [frame_1600 version ?cid]" "calm w2 w3"
      "enrolled (bytes_hex ?cid) n None None (w_store w3)"
    using register_run [OF E(1) n(1) p(1) v, of w2] E(4,5) st n(2) w2(3) f2(2) h(3) by auto
  have c3: "calm (shaken nonce sn w) w3" by (rule calm_trans [OF w2(4) w3(3)])
  note f3 = shaken_fields [OF c3]
  obtain w4 aes ct t where w4: "request_826 E ?cid p826 version w3 = (Ok (), w4)" "length aes = 32" "oaep_encrypt E t key aes = Ok ct"
      "w_out w4 = w_out w3 @ [key_frame E (w_sess w3) 1602 version ?cid ct]" "calm w3 w4"
      "enrolled (bytes_hex ?cid) n (Some der) (Some (b64encode aes)) (w_store w4)"
    using exchange_run [OF E(1) n(1) p(2) k f3(1) _ _ v E(4) w3(4) E(3)] f3(2,3) h(3) E(2) by auto
  have "first_requests E version nonce p825 ?cid p826 w = (Ok (), w4)"
    unfolding first_requests_def using w2(1) w3(1) w4(1) by (simp add: bnd_def)
  then show ?thesis
    using w2(2) w3(2) w4(2-4,6) E(4) calm_trans [OF c3 w4(5)] key_frame_calm [OF w4(5)]
    by - (rule exI [of _ sn], rule exI [of _ ?cid], rule exI [of _ aes], rule exI [of _ ct], rule exI [of _ t], rule exI [of _ w4], simp)
qed

text \<open>Whoever has the key the store has for a client can upload, once the handshake is done.\<close>

lemma upload_after_handshake:
  assumes E: "all_well E" and c: "calm (shaken cn sn w) w1" and e: "enrolled (bytes_hex cid) n der (Some (b64encode aes)) (w_store w1)"
    and l: "length aes = 32" "length cid = 16"
    and s: "has_writer (w_sess w)" "xf w = no_transfer" "\<not> has_upload_slot (w_sess w)" "connection_id (w_sess w) = bytes_hex u"
    and P: "p_cid P = cid" "p_key P = aes" "packets_of E (cfg w) P chunks ps plain" "room_for P (bytes_hex u) w"
  shows "\<exists>w2. upload_requests E P ps w1 = (Ok (), w2) \<and> delivered P (bytes_hex u) plain w1 w2"
proof -
  obtain rec where rec: "get_client_by_id (bytes_hex cid) (w_store w1) = Some rec" "aes_key_b64 rec = Some (b64encode aes)"
    using enrolled_found [OF e] by blast
  show ?thesis
    by (rule upload_confirmed [OF E])
      (use P l shaken_fields [OF c] rec enrolled_knows [OF e] s in \<open>auto simp: room_for_def\<close>)
qed

text \<open>C3: a client's first connection, from hello to a stored file: on a fresh connection the client
  sends its hello (829), the acknowledgement (830), a name nobody has (825) and, under the id
  it was given, an RSA key the server accepts (826). Each is answered as the protocol has it,
  the acknowledgement with silence: the server's hello signed over both nonces, the new
  client id, and an AES key encrypted for the client and signed together with the nonces, the
  id and the code. Whatever file the client then encrypts with that key and sends in packets
  within the limits (828) and confirms (900), while the server has room for it, stands
  decrypted in the client's directory, with a completed row, one 1603 with its CRC and one 1604.\<close>

theorem client_session:
  assumes "outside_works E (server_identity_key (w_sess w)) (w_store w)" and "unstarted (w_sess w)" and "length nonce = 32"
    and "has_writer (w_sess w)" and "xf w = no_transfer" and "\<not> has_upload_slot (w_sess w)" and "connection_id (w_sess w) = bytes_hex u"
    and "length version = 1" and "store_inv (w_store w)" and "sqlite_connected (w_store w)"
    and "name_ok E n" and "n \<notin> username ` set (clients_table (w_store w))"
    and "build_825_payload n = Ok p825" and "build_826_payload n (b64_bytes der) = Ok p826" and "key_accepted E der key"
  shows "\<exists>sn cid aes ct t w1. first_requests E version nonce p825 cid p826 w = (Ok (), w1) \<and>
    w_out w1 = w_out w @ [frame_1608 E (server_identity_key (w_sess w)) version nonce sn, frame_1600 version cid,
      key_frame E (w_sess w1) 1602 version cid ct] \<and>
    oaep_encrypt E t key aes = Ok ct \<and> length aes = 32 \<and> length cid = 16 \<and>
    client_nonce (w_sess w1) = Some nonce \<and> server_nonce (w_sess w1) = Some sn \<and> phase (w_sess w1) = Verified \<and>
    (\<forall>P chunks ps plain. p_cid P = cid \<longrightarrow> p_key P = aes \<longrightarrow> packets_of E (cfg w) P chunks ps plain \<longrightarrow>
      room_for P (bytes_hex u) w \<longrightarrow>
      (\<exists>w2. upload_requests E P ps w1 = (Ok (), w2) \<and> delivered P (bytes_hex u) plain w1 w2))"
proof -
  obtain sn cid aes ct t w1 where r: "first_requests E version nonce p825 cid p826 w = (Ok (), w1)"
      "w_out w1 = w_out w @ [frame_1608 E (server_identity_key (w_sess w)) version nonce sn, frame_1600 version cid,
        key_frame E (w_sess w1) 1602 version cid ct]"
      "oaep_encrypt E t key aes = Ok ct" "length aes = 32" "length cid = 16"
      "calm (shaken nonce sn w) w1" "enrolled (bytes_hex cid) n (Some der) (Some (b64encode aes)) (w_store w1)"
    using first_requests_run [OF assms(1-4,8-15)] by blast
  have E: "all_well E" using assms(1) by (simp add: outside_works_def server_works_def)
  note up = upload_after_handshake [OF E r(6,7,4,5) assms(4-7)] and ph = shaken_fields(4-6) [OF r(6)]
  show ?thesis
    by (rule exI [of _ sn], rule exI [of _ cid], rule exI [of _ aes], rule exI [of _ ct], rule exI [of _ t], rule exI [of _ w1])
      (use r ph up in blast)
qed

section \<open>A later connection\<close>

definition returning_requests :: "env \<Rightarrow> bytes \<Rightarrow> bytes \<Rightarrow> bytes \<Rightarrow> bytes \<Rightarrow> unit act" where
  "returning_requests E version nonce cid p827 = block [
     handshake_requests E version nonce, request_827 E cid p827 version]"

lemma enrolled_found_by_name:
  "enrolled c name der aes st \<Longrightarrow> \<exists>r. get_client_by_username name st = Some r \<and> client_id_hex r = c \<and> public_key_der r = der"
  unfolding enrolled_def using get_client_by_username_iff by blast

lemma relogin_run:
  assumes E: "all_well E" and n: "name_ok E n" and p: "build_825_payload n = Ok payload" and k: "key_accepted E der key" "der \<noteq> []"
    and a: "agreed (w_sess w)" "signs E (server_identity_key (w_sess w))" "has_writer (w_sess w)"
    and l: "length version = 1" "length cid = 16" and e: "enrolled (bytes_hex cid) n (Some der) old (w_store w)"
    and r: "\<And>t. length (random_bytes E t 32) = 32"
  shows "\<exists>w' aes ct t t'. request_827 E cid payload version w = (Ok (), w') \<and> aes = random_bytes E t' 32 \<and> oaep_encrypt E t key aes = Ok ct \<and>
    w_out w' = w_out w @ [key_frame E (w_sess w) 1605 version cid ct] \<and> calm w w' \<and>
    enrolled (bytes_hex cid) n (Some der) (Some (b64encode aes)) (w_store w')"
proof -
  have pl: "payload = utf8_bytes n @ [0]" using p name_okD(3) [OF n] by (simp add: build_825_payload_def utf8_encode_def)
  obtain rec where rec: "get_client_by_username n (w_store w) = Some rec" "client_id_hex rec = bytes_hex cid" "public_key_der rec = Some der"
    using enrolled_found_by_name [OF e] by blast
  obtain w1 where w1: "touch_client E (bytes_hex cid) w = (Ok (), w1)" "w_out w1 = w_out w" "w_sess w1 = w_sess w" "calm w w1"
      "enrolled (bytes_hex cid) n (Some der) old (w_store w1)"
    using touch_enrolled [OF E e] by blast
  obtain w2 where w2: "log_event E (ById cid) ''request_827'' w1 = (Ok (), w2)" "w_out w2 = w_out w1" "calm w1 w2" "w_sess w2 = w_sess w1"
      "enrolled (bytes_hex cid) n (Some der) old (w_store w2)"
    using log_event_calm [of E "ById cid" "''request_827''" w1] w1(5) by auto
  obtain w3 t where w3: "fresh_aes_key E (bytes_hex cid) w2 = (Ok (random_bytes E t 32), w3)" "w_out w3 = w_out w2" "w_sess w3 = w_sess w2"
      "calm w2 w3" "enrolled (bytes_hex cid) n (Some der) (Some (b64encode (random_bytes E t 32))) (w_store w3)"
    using fresh_key_run [OF E w2(5)] by blast
  obtain ct where ct: "oaep_encrypt E (w_tick w3) key (random_bytes E t 32) = Ok ct" "len ct \<le> 65535"
    using k r [of t] unfolding key_accepted_def by blast
  let ?w4 = "w3\<lparr>w_tick := Suc (w_tick w3)\<rparr>"
  have s4: "w_sess ?w4 = w_sess w" using w1(3) w2(4) w3(3) by simp
  obtain w5 where w5: "answer_1605 E ct cid version ?w4 = (Ok (), w5)" "w_out w5 = w_out ?w4 @ [key_frame E (w_sess w) 1605 version cid ct]"
      "calm ?w4 w5" "enrolled (bytes_hex cid) n (Some der) (Some (b64encode (random_bytes E t 32))) (w_store w5)"
    using answer_key_run [OF E _ _ _ l ct(2), of ?w4 1605 n "Some der" "Some (b64encode (random_bytes E t 32))"] a w3(5)
    unfolding s4 answer_1605_def by auto
  obtain d ds where d: "der = d # ds" using k(2) by (cases der) auto
  have "request_827 E cid payload version w = (Ok (), w5)"
    unfolding request_827_def pl Let_def rstrip_nul_name [OF name_okD(5) [OF n]] name_okD(6) [OF n] option.case name_okD(7) [OF n]
    using w1(1) w2(1) w3(1) ct(1) w5(1) rec(1,2) rec(3) [unfolded d] k(1) [unfolded key_accepted_def d]
    by (simp add: bnd_def next_of_def)
  moreover have "calm w w5"
    using calm_trans [OF calm_trans [OF calm_trans [OF calm_trans [OF w1(4) w2(3)] w3(4)] _] w5(3)] by simp
  ultimately show ?thesis using w1(2) w2(2) w3(2) w5(2,4) ct(1)
    by - (rule exI [of _ w5], rule exI [of _ "random_bytes E t 32"], rule exI [of _ ct], rule exI [of _ "w_tick w3"], rule exI [of _ t], simp)
qed

text \<open>C23: a client that comes back: on a fresh connection a client that is registered with a public key the
  server can use sends its hello, the acknowledgement and request 827 under its id and name.
  It gets the signed hello and exactly one 1605 with a fresh AES key, encrypted for it and
  signed with the new nonces; the new key takes the old one's place in the store, the public
  key stays, and what the client encrypts with the new key and sends as an upload is
  delivered.\<close>

theorem returning_client:
  assumes "server_works E (server_identity_key (w_sess w))" and "unstarted (w_sess w)" and "length nonce = 32"
    and "has_writer (w_sess w)" and "xf w = no_transfer" and "\<not> has_upload_slot (w_sess w)" and "connection_id (w_sess w) = bytes_hex u"
    and "length version = 1" and "length cid = 16" and "enrolled (bytes_hex cid) n (Some der) old (w_store w)"
    and "name_ok E n" and "build_825_payload n = Ok p827" and "key_accepted E der key" and "der \<noteq> []"
  shows "\<exists>sn aes ct t t' w1. returning_requests E version nonce cid p827 w = (Ok (), w1) \<and>
    w_out w1 = w_out w @ [frame_1608 E (server_identity_key (w_sess w)) version nonce sn, key_frame E (w_sess w1) 1605 version cid ct] \<and>
    aes = random_bytes E t' 32 \<and> oaep_encrypt E t key aes = Ok ct \<and>
    client_nonce (w_sess w1) = Some nonce \<and> server_nonce (w_sess w1) = Some sn \<and> phase (w_sess w1) = Verified \<and>
    enrolled (bytes_hex cid) n (Some der) (Some (b64encode aes)) (w_store w1) \<and>
    (\<forall>P chunks ps plain. p_cid P = cid \<longrightarrow> p_key P = aes \<longrightarrow> packets_of E (cfg w) P chunks ps plain \<longrightarrow>
      room_for P (bytes_hex u) w \<longrightarrow>
      (\<exists>w2. upload_requests E P ps w1 = (Ok (), w2) \<and> delivered P (bytes_hex u) plain w1 w2))"
proof -
  have E: "all_well E" "signs E (server_identity_key (w_sess w))" "\<And>t. length (random_bytes E t 32) = 32"
    using assms(1) by (simp_all add: server_works_def)
  obtain sn w1 where w1: "handshake_requests E version nonce w = (Ok (), w1)"
      "w_out w1 = w_out w @ [frame_1608 E (server_identity_key (w_sess w)) version nonce sn]" "w_store w1 = w_store w" "calm (shaken nonce sn w) w1"
    using handshake_run [OF assms(1-4,8)] by blast
  note f1 = shaken_fields [OF w1(4)]
  obtain w2 aes ct t t' where w2: "request_827 E cid p827 version w1 = (Ok (), w2)" "aes = random_bytes E t' 32" "oaep_encrypt E t key aes = Ok ct"
      "w_out w2 = w_out w1 @ [key_frame E (w_sess w1) 1605 version cid ct]" "calm w1 w2"
      "enrolled (bytes_hex cid) n (Some der) (Some (b64encode aes)) (w_store w2)"
    using relogin_run [OF E(1) assms(11-14) f1(1) _ _ assms(8,9) _ E(3), where old = old] f1(2,3) assms(4,10) E(2) w1(3) by auto
  have c2: "calm (shaken nonce sn w) w2" by (rule calm_trans [OF w1(4) w2(5)])
  have len: "length aes = 32" using w2(2) E(3) by simp
  note up = upload_after_handshake [OF E(1) c2 w2(6) len assms(9,4-7)] and ph = shaken_fields(4-6) [OF c2]
  have run: "returning_requests E version nonce cid p827 w = (Ok (), w2)"
    unfolding returning_requests_def using w1(1) w2(1) by (simp add: bnd_def)
  have out: "w_out w2 = w_out w @ [frame_1608 E (server_identity_key (w_sess w)) version nonce sn, key_frame E (w_sess w2) 1605 version cid ct]"
    using w1(2) w2(4) key_frame_calm [OF w2(5)] by simp
  show ?thesis
    by (rule exI [of _ sn], rule exI [of _ aes], rule exI [of _ ct], rule exI [of _ t], rule exI [of _ t'], rule exI [of _ w2])
      (use run out w2(2,3,6) ph up in blast)
qed

section \<open>Concrete connections\<close>

lemma outside_example: "outside_works env_example key store_example"
proof -
  have "length (bytes_hex (replicate 16 (word_of_nat t))) \<noteq> length [48, 49 :: nat]" for t by simp
  then have "bytes_hex (replicate 16 (word_of_nat t)) \<noteq> [48, 49]" for t by metis
  then show ?thesis using env_example_streams
    by (simp add: outside_works_def server_works_def all_well_def signs_def store_example_ok(3) env_example_def)
qed

lemma packets_example:
  assumes "length cid = 16"
  shows "\<exists>ps. packets_of env_example config_example \<lparr>p_cid = cid, p_version = [3], p_key = aes, p_iv = zeros 16, p_name = [97],
      p_csize = 32, p_osize = 16, p_total = 2\<rparr> [replicate 16 5, replicate 16 16] ps (replicate 16 5)"
proof -
  obtain ps where ps: "upload_packets 32 16 2 [97] (zeros 16) [replicate 16 5, replicate 16 16] = Ok ps"
    by (simp add: upload_packets_def build_828_packet_def to_bytes_def utf8_encode_def valid_cp_def is_surrogate_def)
  have "pkcs7_unpad (replicate 16 5 @ replicate 16 16) 16 = Some (replicate 16 5)"
    by (simp add: pkcs7_unpad_append) (simp add: pkcs7_unpad_def)
  then show ?thesis using ps assms
    by (intro exI [of _ ps]) (simp add: packets_of_def plan_ok_def plan_sendable_def config_example_def Config_new_def path_basename_def
        valid_cp_def is_surrogate_def utf8_bytes_def utf8_cp_def zeros_def AES_BLOCK_def DOT_def DOTDOT_def)
qed

lemma name_example: "name_ok env_example [98]"
  by (simp add: name_ok_def is_valid_username_def env_example_def valid_cp_def is_surrogate_def unicode_space_def)

lemma payload_example: "build_825_payload [98] = Ok [98, 0]"
  by (simp add: build_825_payload_def utf8_encode_def valid_cp_def is_surrogate_def utf8_bytes_def utf8_cp_def)

lemma payload_826_example: "build_826_payload [98] (b64_bytes [48]) = Ok [98, 0, 77, 65, 61, 61]"
  by (simp add: build_826_payload_def utf8_encode_def valid_cp_def is_surrogate_def utf8_bytes_def utf8_cp_def b64_char_def)

lemma key_example: "key_accepted env_example [48] 0"
  by (simp add: key_accepted_def)

theorem client_session_witness:
  "\<exists>cid w1 P ps w2. first_requests env_example [3] (zeros 32) [98, 0] cid [98, 0, 77, 65, 61, 61] world_example = (Ok (), w1) \<and>
     upload_requests env_example P ps w1 = (Ok (), w2) \<and>
     file_at (w_fs w2) (user_dir (bytes_hex cid) @ lit ''/a'') = Some (replicate 16 5) \<and> length (w_out w2) = 5"
proof -
  note n = name_example and p = payload_example payload_826_example and k = key_example
  have w: "unstarted (w_sess world_example)" "xf world_example = no_transfer" "has_writer (w_sess world_example)"
    using session_init_fresh [OF session_example_simps(1)] by (simp_all add: unstarted_def)
  obtain cid aes w1 where r: "first_requests env_example [3] (zeros 32) [98, 0] cid [98, 0, 77, 65, 61, 61] world_example = (Ok (), w1)"
      "length (w_out w1) = 3" "length cid = 16"
      "\<And>P chunks ps plain. p_cid P = cid \<Longrightarrow> p_key P = aes \<Longrightarrow> packets_of env_example (cfg world_example) P chunks ps plain \<Longrightarrow>
        room_for P (bytes_hex (replicate 16 7)) world_example \<Longrightarrow>
        \<exists>w2. upload_requests env_example P ps w1 = (Ok (), w2) \<and> delivered P (bytes_hex (replicate 16 7)) plain w1 w2"
    using client_session [where E = env_example and w = world_example and nonce = "zeros 32" and u = "replicate 16 7" and
        version = "[3]" and n = "[98]" and der = "[48]" and key = 0, OF _ w(1) _ w(3,2) _ _ _ _ _ n _ p k] store_example_ok
      outside_example by fastforce
  let ?P = "\<lparr>p_cid = cid, p_version = [3], p_key = aes, p_iv = zeros 16, p_name = [97], p_csize = 32, p_osize = 16, p_total = 2\<rparr>"
  obtain ps where ps: "packets_of env_example config_example ?P [replicate 16 5, replicate 16 16] ps (replicate 16 5)"
    using packets_example [OF r(3)] by blast
  have "room_for ?P (bytes_hex (replicate 16 7)) world_example" by (simp add: room_for_def dirs_free_def)
  then obtain w2 where w2: "upload_requests env_example ?P ps w1 = (Ok (), w2)" "delivered ?P (bytes_hex (replicate 16 7)) (replicate 16 5) w1 w2"
    using r(4) [of ?P "[replicate 16 5, replicate 16 16]" ps "replicate 16 5"] ps by auto
  have "path_basename [97] = [97]" by (simp add: path_basename_def)
  then have "file_at (w_fs w2) (user_dir (bytes_hex cid) @ lit ''/a'') = Some (replicate 16 5)" "length (w_out w2) = 5"
    using w2(2) r(2) by (simp_all add: delivered_def lit_def)
  then show ?thesis using r(1) w2(1) by blast
qed

text \<open>A store with a client whose id has 16 bytes and who has a public key.\<close>

definition returning_store_example :: store where
  "returning_store_example = snd (set_client_public_key SqlOk (bytes_hex cid_example) [48]
     (snd (create_client SqlOk cid_example [50] [98] store_example)))"

lemma returning_store_example_ok: "enrolled (bytes_hex cid_example) [98] (Some [48]) None returning_store_example"
proof -
  let ?hex = "bytes_hex cid_example"
  have "length ?hex \<noteq> length [48, 49 :: nat]" by (simp add: cid_example_def)
  then have "?hex \<noteq> [48, 49]" by metis
  then have new: "?hex \<notin> client_id_hex ` set (clients_table store_example)" "[98] \<notin> username ` set (clients_table store_example)"
    by (simp_all add: store_example_ok(3))
  have "enrolled ?hex [98] None None (snd (create_client SqlOk cid_example [50] [98] store_example))"
    using create_client_run [OF store_example_ok(1,2) new, of "[50]"] by (auto simp: enrolled_def store_example_ok(2))
  from enrolled_update [OF this, of "\<lambda>r. r\<lparr>public_key_der := Some [48]\<rparr>" "Some [48]" None] show ?thesis
    unfolding returning_store_example_def set_client_public_key_def by force
qed

theorem returning_client_witness:
  "\<exists>w1 P ps w2. returning_requests env_example [3] (zeros 32) cid_example [98, 0]
       (world_example\<lparr>w_store := returning_store_example\<rparr>) = (Ok (), w1) \<and>
     upload_requests env_example P ps w1 = (Ok (), w2) \<and>
     file_at (w_fs w2) (user_dir (bytes_hex cid_example) @ lit ''/a'') = Some (replicate 16 5) \<and> length (w_out w2) = 4"
proof -
  let ?w = "world_example\<lparr>w_store := returning_store_example\<rparr>"
  have w: "unstarted (w_sess ?w)" "xf ?w = no_transfer" "has_writer (w_sess ?w)"
    using session_init_fresh [OF session_example_simps(1)] by (simp_all add: unstarted_def)
  have o: "server_works env_example (server_identity_key (w_sess ?w))" using outside_example by (simp add: outside_works_def)
  obtain aes w1 where r: "returning_requests env_example [3] (zeros 32) cid_example [98, 0] ?w = (Ok (), w1)" "length (w_out w1) = 2"
      "\<And>P chunks ps plain. p_cid P = cid_example \<Longrightarrow> p_key P = aes \<Longrightarrow> packets_of env_example (cfg ?w) P chunks ps plain \<Longrightarrow>
        room_for P (bytes_hex (replicate 16 7)) ?w \<Longrightarrow>
        \<exists>w2. upload_requests env_example P ps w1 = (Ok (), w2) \<and> delivered P (bytes_hex (replicate 16 7)) plain w1 w2"
    using returning_client [where E = env_example and w = ?w and nonce = "zeros 32" and u = "replicate 16 7" and version = "[3]" and
        n = "[98]" and der = "[48]" and key = 0 and cid = cid_example and old = None, OF o w(1) _ w(3,2) _ _ _ _ _ name_example payload_example key_example]
      returning_store_example_ok by (fastforce simp: cid_example_def)
  let ?P = "\<lparr>p_cid = cid_example, p_version = [3], p_key = aes, p_iv = zeros 16, p_name = [97], p_csize = 32, p_osize = 16, p_total = 2\<rparr>"
  obtain ps where ps: "packets_of env_example config_example ?P [replicate 16 5, replicate 16 16] ps (replicate 16 5)"
    using packets_example [of cid_example aes] by (auto simp: cid_example_def)
  have "room_for ?P (bytes_hex (replicate 16 7)) ?w" by (simp add: room_for_def dirs_free_def)
  then obtain w2 where w2: "upload_requests env_example ?P ps w1 = (Ok (), w2)" "delivered ?P (bytes_hex (replicate 16 7)) (replicate 16 5) w1 w2"
    using r(3) [of ?P "[replicate 16 5, replicate 16 16]" ps "replicate 16 5"] ps by auto
  have "path_basename [97] = [97]" by (simp add: path_basename_def)
  then have "file_at (w_fs w2) (user_dir (bytes_hex cid_example) @ lit ''/a'') = Some (replicate 16 5)" "length (w_out w2) = 4"
    using w2(2) r(2) by (simp_all add: delivered_def lit_def)
  then show ?thesis using r(1) w2(1) by blast
qed

end
