(* ===== verification/Wire.thy ===== *)
theory Wire
  imports Enrolment Connection
begin

text \<open>
  Requests on the wire: the bytes of one request frame, read by \<open>handle_client\<close> in pieces of at
  most 1024 bytes, put together by the framer, counted by the rate limiter, parsed and
  dispatched by the router, reach the request handler exactly once. Together with what the
  handlers do (\<open>Enrolment\<close>, \<open>Upload_Session\<close>) this gives what a connection does with a client's
  bytes.
\<close>

section \<open>What the handlers leave to the reader\<close>

text \<open>The parts of a session only the loop uses.\<close>

definition reader_kept :: "world \<Rightarrow> world \<Rightarrow> bool" where
  "reader_kept w w' \<longleftrightarrow> s_framer (w_sess w') = s_framer (w_sess w) \<and>
     request_timestamps (w_sess w') = request_timestamps (w_sess w) \<and> s_config (w_sess w') = s_config (w_sess w) \<and>
     connected_at (w_sess w') = connected_at (w_sess w) \<and>
     (handshake_verified (w_sess w) \<longrightarrow> handshake_verified (w_sess w'))"

lemma reader_same: "s_framer (w_sess w') = s_framer (w_sess w) \<Longrightarrow> request_timestamps (w_sess w') = request_timestamps (w_sess w) \<Longrightarrow>
    s_config (w_sess w') = s_config (w_sess w) \<Longrightarrow> connected_at (w_sess w') = connected_at (w_sess w) \<Longrightarrow>
    handshake_verified (w_sess w') = handshake_verified (w_sess w) \<Longrightarrow> reader_kept w w'"
  by (simp add: reader_kept_def)

interpretation reader: quiet_rel reader_kept E for E
proof unfold_locales
  show "reader_kept w u" if "reader_kept w v" "reader_kept v u" for w v u using that by (simp add: reader_kept_def)
qed (simp_all add: reader_same same_core_fields same_core_connected)

interpretation reader_auth: auth_rel reader_kept E for E
  by unfold_locales (simp_all add: reader_same reader.keeps_hand_out)

interpretation reader_serve: serving_rel reader_kept E for E
proof unfold_locales
  show "keeps reader_kept (request_829 E payload version cid)" for payload version cid
    by (rule reader.keeps_request_829) (auto simp: reader_kept_def)
  show "keeps reader_kept (request_830 E payload version cid)" for payload version cid
    by (rule reader.keeps_request_830) (auto simp: reader_kept_def)
  show "keeps reader_kept (request_826 E cid payload version)" for cid payload version
    unfolding request_826_def by (intro reader.answer_rules reader_auth.keeps_request_826_known) (simp add: reader_same)
qed (simp_all add: reader.keeps_slots_free reader_same)

section \<open>A frame in pieces\<close>

lemma frame_prefix_waits:
  assumes "is_frame m (p @ q)" and "q \<noteq> []"
  shows "feed_loop m p [] = (Ok [], p)"
proof (cases "length p < HEADER_LEN")
  case False
  then have "header_payload_size (p @ q) = header_payload_size p" by simp
  with assms(1) have h: "header_payload_size p \<le> m" "length p + length q = HEADER_LEN + nat (header_payload_size p)"
    by (simp_all add: is_frame_def)
  have "0 < length q" using assms(2) by simp
  with h(2) have "length p < HEADER_LEN + nat (header_payload_size p)" by linarith
  with False h(1) show ?thesis by (intro feed_loop_partial) simp_all
qed (simp add: feed_loop_short)

lemma frame_complete: "is_frame m f \<Longrightarrow> feed_loop m f [] = (Ok [f], [])"
  using feed_loop_frame [of m f "[]" "[]"] by (simp add: feed_loop_short HEADER_LEN_def)

text \<open>The world once (part of) a frame has been read: other bookkeeping, framer and request times.\<close>

definition arrived :: "world \<Rightarrow> world \<Rightarrow> bool" where
  "arrived w w' \<longleftrightarrow>
     w_store w' = w_store w \<and> w_limiter w' = w_limiter w \<and> w_metrics w' = w_metrics w \<and>
     w_fs w' = w_fs w \<and> w_out w' = w_out w \<and> w_conns w' = w_conns w \<and>
     w_closed w' = w_closed w \<and> s_config (w_sess w') = s_config (w_sess w) \<and> has_writer (w_sess w') = has_writer (w_sess w) \<and>
     connection_id (w_sess w') = connection_id (w_sess w) \<and> connected_at (w_sess w') = connected_at (w_sess w) \<and> has_upload_slot (w_sess w') = has_upload_slot (w_sess w) \<and>
     handshake_verified (w_sess w') = handshake_verified (w_sess w) \<and> client_nonce (w_sess w') = client_nonce (w_sess w) \<and> server_nonce (w_sess w') = server_nonce (w_sess w) \<and>
     security_version (w_sess w') = security_version (w_sess w) \<and> server_identity_key (w_sess w') = server_identity_key (w_sess w) \<and> xfer (w_sess w') = xfer (w_sess w)"

lemma arrived_refl [simp]: "arrived w w"
  by (simp add: arrived_def)

lemma arrived_trans: "arrived u v \<Longrightarrow> arrived v w \<Longrightarrow> arrived u w"
  by (simp add: arrived_def)

lemma arrived_fields:
  assumes "arrived w w'"
  shows
    "w_store w' = w_store w" "w_limiter w' = w_limiter w" "w_metrics w' = w_metrics w"
    "w_fs w' = w_fs w" "w_out w' = w_out w" "w_conns w' = w_conns w"
    "w_closed w' = w_closed w" "s_config (w_sess w') = s_config (w_sess w)" "has_writer (w_sess w') = has_writer (w_sess w)"
    "connection_id (w_sess w') = connection_id (w_sess w)" "connected_at (w_sess w') = connected_at (w_sess w)" "has_upload_slot (w_sess w') = has_upload_slot (w_sess w)"
    "handshake_verified (w_sess w') = handshake_verified (w_sess w)" "client_nonce (w_sess w') = client_nonce (w_sess w)" "server_nonce (w_sess w') = server_nonce (w_sess w)"
    "security_version (w_sess w') = security_version (w_sess w)" "server_identity_key (w_sess w') = server_identity_key (w_sess w)" "xfer (w_sess w') = xfer (w_sess w)"
  using assms by (simp_all add: arrived_def)

lemma read_piece:
  assumes "c \<noteq> []" and "feed_loop (max_payload_size (s_framer (w_sess w))) (buf (s_framer (w_sess w)) @ c) [] = (Ok fs, b)"
    and "handshake_verified (w_sess w) \<or> mono E (w_tick w) - connected_at (w_sess w) < handshake_timeout_s (cfg w)"
  shows "loop_iteration E (Chunk c) w = bnd (handle_frames E fs) (\<lambda>limited. ret (if limited then Leave else Go))
    (w\<lparr>w_tick := w_tick w + 2, w_sess := (w_sess w)\<lparr>bytes_in := bytes_in (w_sess w) + len c,
      last_activity := mono E (w_tick w + 1), s_framer := (s_framer (w_sess w))\<lparr>buf := b\<rparr>\<rparr>\<rparr>)"
  using assms
  by (auto simp: loop_iteration_def loop_head_def chunk_read_def on_frame_received_def mark_activity_def session_feed_def
      framer_feed_def next_of_def upd_sess_def bnd_def)

text \<open>All pieces but the last are only stored.\<close>

lemma read_pieces:
  assumes "is_frame m (b @ concat cs @ [x] @ q)" and "\<forall>c \<in> set cs. c \<noteq> []" and "s_framer (w_sess w) = \<lparr>max_payload_size = m, buf = b\<rparr>"
    and "handshake_verified (w_sess w) \<or> (\<forall>n < w_tick w + 2 * length cs. mono E n - connected_at (w_sess w) < handshake_timeout_s (cfg w))"
  shows "\<exists>w'. client_loop E (map Chunk cs @ evs) w = client_loop E evs w' \<and> arrived w w' \<and> w_tick w' = w_tick w + 2 * length cs \<and>
    s_framer (w_sess w') = \<lparr>max_payload_size = m, buf = b @ concat cs\<rparr> \<and> request_timestamps (w_sess w') = request_timestamps (w_sess w)"
  using assms
proof (induction cs arbitrary: b w)
  case Nil
  then show ?case by auto
next
  case (Cons c cs)
  define v where "v = w\<lparr>w_tick := w_tick w + 2, w_sess := (w_sess w)\<lparr>bytes_in := bytes_in (w_sess w) + len c,
      last_activity := mono E (w_tick w + 1), s_framer := \<lparr>max_payload_size = m, buf = b @ c\<rparr>\<rparr>\<rparr>"
  have "feed_loop m (b @ c) [] = (Ok [], b @ c)"
    using Cons.prems(1) by (intro frame_prefix_waits [of m _ "concat cs @ [x] @ q"]) auto
  then have it: "loop_iteration E (Chunk c) w = (Ok Go, v)"
    using read_piece [of c w "[]" "b @ c" E] Cons.prems(2-4) by (auto simp: v_def)
  have v: "arrived w v" "w_tick v = w_tick w + 2" "request_timestamps (w_sess v) = request_timestamps (w_sess w)"
    by (simp_all add: v_def arrived_def)
  obtain w' where w': "client_loop E (map Chunk cs @ evs) v = client_loop E evs w'" "arrived v w'"
      "w_tick w' = w_tick v + 2 * length cs" "s_framer (w_sess w') = \<lparr>max_payload_size = m, buf = (b @ c) @ concat cs\<rparr>"
      "request_timestamps (w_sess w') = request_timestamps (w_sess v)"
    using Cons.IH [of "b @ c" v] Cons.prems by (auto simp: v_def)
  show ?case using it w' v arrived_trans [OF v(1) w'(2)] by (intro exI [of _ w']) (simp add: bnd_def)
qed

section \<open>From the frame to the handler\<close>

definition hung_up :: "world \<Rightarrow> world" where
  "hung_up w = w\<lparr>w_sess := (w_sess w)\<lparr>request_id := Some (lit ''-'')\<rparr>\<rparr>"

lemma hung_up_same [simp]: "arrived w (hung_up w)" "s_framer (w_sess (hung_up w)) = s_framer (w_sess w)"
    "request_timestamps (w_sess (hung_up w)) = request_timestamps (w_sess w)" "w_tick (hung_up w) = w_tick w"
  by (simp_all add: hung_up_def arrived_def)

lemma handle_frame_dispatches:
  assumes f: "build_request_frame cid code payload version = Ok frame" "length version = 1"
  obtains w1 where "arrived w w1" "s_framer (w_sess w1) = s_framer (w_sess w)"
    "request_timestamps (w_sess w1) = request_timestamps (w_sess w)" "w_tick w1 = w_tick w + 1"
    "\<forall>w2. dispatch E code cid version payload w1 = (Ok (), w2) \<longrightarrow> handle_frame E frame w = (Ok (), hung_up w2)"
proof -
  note r = request_frame_fields [OF f order_refl]
  let ?w1 = "w\<lparr>w_tick := w_tick w + 1, w_sess := (w_sess w)\<lparr>request_id := Some (bytes_hex (uuid4 E (w_tick w))),
      last_client_id := Some cid, last_version := Some version, frames_ok := frames_ok (w_sess w) + 1\<rparr>\<rparr>"
  have c: "take 16 frame = cid" "take 1 (drop 16 frame) = version" "le_decode (take 2 (drop 17 frame)) = code"
      "take (nat (le_decode (take 4 (drop 19 frame)))) (drop 23 frame) = payload" and fr: "is_frame (len payload) frame"
    using r by blast+
  have l: "length frame = 23 + nat (le_decode (take 4 (drop 19 frame)))"
    using fr unfolding is_frame_def HEADER_LEN_def header_payload_size_def PAYLOAD_SIZE_OFFSET_def by blast
  moreover have "0 \<le> le_decode (take 4 (drop 19 frame))" by simp
  ultimately have l': "\<not> length frame < 17" "\<not> length frame < 23" "\<not> len frame < 23 + le_decode (take 4 (drop 19 frame))"
    by linarith+
  have body: "handle_frame_body E frame cid version = block [on_frame_ok, dispatch E code cid version payload]"
    unfolding handle_frame_body_def Let_def c(3,4) using l'(2,3) by (simp only: if_False)
  have "handle_frame E frame w = (Ok (), hung_up w2)" if "dispatch E code cid version payload ?w1 = (Ok (), w2)" for w2
    unfolding handle_frame_def Let_def c(1,2) body using l'(1) that
    by (simp add: next_of_def upd_sess_def on_frame_ok_def bnd_def try_finally_def try_except_def hung_up_def)
  then show thesis using that [of ?w1] by (simp add: arrived_def)
qed

definition pieces :: "bytes \<Rightarrow> bytes list" where
  "pieces frame = chunks_from 1024 frame"

lemma pieces_cases:
  assumes "frame \<noteq> []"
  obtains cs x q where "pieces frame = cs @ [x # q]" "concat cs @ [x] @ q = frame" "\<forall>c \<in> set cs. c \<noteq> []"
proof -
  have c: "concat (pieces frame) = frame" "\<forall>c \<in> set (pieces frame). c \<noteq> []"
    using chunks_from_concat [of 1024 frame] chunks_from_sizes by (auto simp: pieces_def)
  with assms obtain cs c where cs: "pieces frame = cs @ [c]" by (cases "pieces frame" rule: rev_cases) auto
  with c(2) obtain x q where "c = x # q" by (cases c) auto
  with that [of cs x q] c cs show thesis by simp
qed

text \<open>Clocks and limits under which the request is served.\<close>

definition in_time :: "env \<Rightarrow> nat \<Rightarrow> world \<Rightarrow> bool" where
  "in_time E n w \<longleftrightarrow> handshake_verified (w_sess w) \<or>
     (\<forall>t < w_tick w + 2 * n. mono E t - connected_at (w_sess w) < handshake_timeout_s (cfg w))"

definition admitted :: "int \<Rightarrow> world \<Rightarrow> bool" where
  "admitted code w \<longleftrightarrow> (code \<in> set CONTROL_PLANE_RATE_LIMITED_CODES \<longrightarrow>
     len (request_timestamps (w_sess w)) < max_req_per_window (cfg w))"

lemma rate_limiter_admits:
  assumes "len (request_timestamps s) < max_req_per_window (s_config s)"
  shows "\<exists>ts. allow_request_now now s = (True, s\<lparr>request_timestamps := ts\<rparr>) \<and> length ts \<le> Suc (length (request_timestamps s))"
proof -
  let ?kept = "dropWhile (\<lambda>t. t < now - req_window_s (s_config s)) (request_timestamps s)"
  have "length ?kept \<le> length (request_timestamps s)" by (rule length_dropWhile_le)
  with assms show ?thesis by (intro exI [of _ "?kept @ [now]"]) (simp add: allow_request_now_def Let_def)
qed

text \<open>How many entries of the rate limiter a request takes.\<close>

definition cost :: "int \<Rightarrow> nat" where
  "cost code = (if code \<in> set CONTROL_PLANE_RATE_LIMITED_CODES then 1 else 0)"

lemma cost_codes [simp]: "cost 825 = 1" "cost 826 = 1" "cost 827 = 1" "cost 829 = 1" "cost 830 = 1" "cost 900 = 1" "cost 828 = 0"
  by (simp_all add: cost_def CONTROL_PLANE_RATE_LIMITED_CODES_def)

lemma frame_admitted:
  assumes f: "build_request_frame cid code payload version = Ok frame" "length version = 1" and a: "admitted code v"
  obtains v2 where "arrived v v2" "s_framer (w_sess v2) = s_framer (w_sess v)"
    "length (request_timestamps (w_sess v2)) \<le> length (request_timestamps (w_sess v)) + cost code" "w_tick v2 = w_tick v + 1"
    "\<forall>w3. handle_frame E frame v2 = (Ok (), w3) \<longrightarrow> handle_frames E [frame] v = (Ok False, w3)"
proof -
  note r = request_frame_fields [OF f order_refl]
  have "23 \<le> length frame" using r by (auto simp: is_frame_def HEADER_LEN_def)
  then have p: "parse_frame_identity frame = (Some cid, Some version, Some code)"
    using r by (simp add: parse_frame_identity_def)
  show thesis
  proof (cases "code \<in> set CONTROL_PLANE_RATE_LIMITED_CODES")
    case True
    let ?now = "mono E (w_tick v)"
    obtain ts where ts: "allow_request_now ?now (w_sess v) = (True, (w_sess v)\<lparr>request_timestamps := ts\<rparr>)"
        "length ts \<le> Suc (length (request_timestamps (w_sess v)))"
      using rate_limiter_admits [of "w_sess v" ?now] a True by (auto simp: admitted_def)
    let ?v2 = "v\<lparr>w_tick := w_tick v + 1, w_sess := (w_sess v)\<lparr>request_timestamps := ts\<rparr>\<rparr>"
    have "handle_frames E [frame] v = (Ok False, w3)" if "handle_frame E frame ?v2 = (Ok (), w3)" for w3
      using that p True ts(1) by (simp add: next_of_def bnd_def is_control_plane_rate_limited_def ask_rate_limiter_def)
    then show thesis using that [of ?v2] ts(2) True by (simp add: arrived_def cost_def)
  next
    case False
    let ?v2 = "v\<lparr>w_tick := w_tick v + 1\<rparr>"
    have "handle_frames E [frame] v = (Ok False, w3)" if "handle_frame E frame ?v2 = (Ok (), w3)" for w3
      using that p False by (simp add: next_of_def bnd_def is_control_plane_rate_limited_def)
    then show thesis using that [of ?v2] by (simp add: arrived_def)
  qed
qed

lemma request_arrives:
  assumes f: "build_request_frame cid code payload version = Ok frame" "length version = 1" "len payload \<le> m"
    and w: "s_framer (w_sess w) = \<lparr>max_payload_size = m, buf = []\<rparr>" "in_time E (length (pieces frame)) w" "admitted code w"
  obtains w1 where "arrived w w1" "s_framer (w_sess w1) = s_framer (w_sess w)"
    "length (request_timestamps (w_sess w1)) \<le> length (request_timestamps (w_sess w)) + cost code"
    "w_tick w1 = w_tick w + 2 * length (pieces frame) + 2"
    "\<forall>w2. dispatch E code cid version payload w1 = (Ok (), w2) \<longrightarrow>
      client_loop E (map Chunk (pieces frame)) w = (Ok Go, hung_up w2)"
proof -
  have r: "is_frame m frame" "take 16 frame = cid" "take 1 (drop 16 frame) = version" "le_decode (take 2 (drop 17 frame)) = code"
    using request_frame_fields [OF f] by blast+
  have ne: "frame \<noteq> []" using is_frame_nonempty [OF r(1)] by simp
  obtain cs x q where p: "pieces frame = cs @ [x # q]" "concat cs @ [x] @ q = frame" "\<forall>c \<in> set cs. c \<noteq> []"
    by (rule pieces_cases [OF ne])
  obtain v where v: "client_loop E (map Chunk cs @ [Chunk (x # q)]) w = client_loop E [Chunk (x # q)] v" "arrived w v"
      "w_tick v = w_tick w + 2 * length cs" "s_framer (w_sess v) = \<lparr>max_payload_size = m, buf = concat cs\<rparr>"
      "request_timestamps (w_sess v) = request_timestamps (w_sess w)"
    using read_pieces [of m "[]" cs x q w E "[Chunk (x # q)]"] r(1) p w(1,2) by (auto simp: in_time_def)
  have "handshake_verified (w_sess v) \<or> mono E (w_tick v) - connected_at (w_sess v) < handshake_timeout_s (cfg v)"
    using w(2) v(3) p(1) arrived_fields [OF v(2)] by (auto simp: in_time_def)
  moreover have "feed_loop m (concat cs @ x # q) [] = (Ok [frame], [])" using frame_complete [OF r(1)] p(2) by simp
  moreover define v1 where "v1 = v\<lparr>w_tick := w_tick v + 2, w_sess := (w_sess v)\<lparr>bytes_in := bytes_in (w_sess v) + len (x # q),
        last_activity := mono E (w_tick v + 1), s_framer := s_framer (w_sess w)\<rparr>\<rparr>"
  ultimately have it: "loop_iteration E (Chunk (x # q)) v =
      bnd (handle_frames E [frame]) (\<lambda>limited. ret (if limited then Leave else Go)) v1"
    using read_piece [of "x # q" v "[frame]" "[]" E] v(4) w(1) by simp
  have b: "arrived v v1" "w_tick v1 = w_tick v + 2" "request_timestamps (w_sess v1) = request_timestamps (w_sess w)"
      "s_framer (w_sess v1) = s_framer (w_sess w)"
    using v(5) by (simp_all add: v1_def arrived_def)
  have "admitted code v1" using w(3) b(3) arrived_fields [OF arrived_trans [OF v(2) b(1)]] by (simp add: admitted_def)
  then obtain v2 where v2: "arrived v1 v2" "s_framer (w_sess v2) = s_framer (w_sess v1)"
      "length (request_timestamps (w_sess v2)) \<le> length (request_timestamps (w_sess v1)) + cost code" "w_tick v2 = w_tick v1 + 1"
      "\<forall>w3. handle_frame E frame v2 = (Ok (), w3) \<longrightarrow> handle_frames E [frame] v1 = (Ok False, w3)"
    by (rule frame_admitted [OF f(1,2), where E = E])
  obtain w1 where w1: "arrived v2 w1" "s_framer (w_sess w1) = s_framer (w_sess v2)"
      "request_timestamps (w_sess w1) = request_timestamps (w_sess v2)" "w_tick w1 = w_tick v2 + 1"
      "\<forall>w2. dispatch E code cid version payload w1 = (Ok (), w2) \<longrightarrow> handle_frame E frame v2 = (Ok (), hung_up w2)"
    by (rule handle_frame_dispatches [OF f(1,2), where E = E])
  have "client_loop E (map Chunk (pieces frame)) w = (Ok Go, hung_up w2)"
    if "dispatch E code cid version payload w1 = (Ok (), w2)" for w2
    using v(1) it v2(5) w1(5) that by (simp add: p(1) bnd_def)
  moreover have "arrived w w1" using arrived_trans [OF arrived_trans [OF v(2) b(1)] arrived_trans [OF v2(1) w1(1)]] .
  ultimately show thesis
    using that [of w1] b v2(2-4) w1(2-4) v(3) by (simp add: p(1))
qed

section \<open>A request and what its handler does\<close>

text \<open>The connection waits for the next request; \<open>k\<close> control requests are on record.\<close>

definition listening :: "int \<Rightarrow> nat \<Rightarrow> world \<Rightarrow> bool" where
  "listening m k w \<longleftrightarrow> s_framer (w_sess w) = \<lparr>max_payload_size = m, buf = []\<rparr> \<and> length (request_timestamps (w_sess w)) \<le> k"

lemma serve_request:
  assumes f: "build_request_frame cid code payload version = Ok frame" "length version = 1" "len payload \<le> m"
    and w: "listening m k w" "in_time E (length (pieces frame)) w" "int (k + cost code) \<le> max_req_per_window (cfg w)"
    and h: "\<And>w1. arrived w w1 \<Longrightarrow> w_tick w1 = w_tick w + 2 * length (pieces frame) + 2 \<Longrightarrow>
      \<exists>w2 outs. dispatch E code cid version payload w1 = (Ok (), w2) \<and> w_out w2 = w_out w @ outs \<and> Q outs w2"
  shows "\<exists>w2 outs. client_loop E (map Chunk (pieces frame)) w = (Ok Go, hung_up w2) \<and> w_out w2 = w_out w @ outs \<and> Q outs w2 \<and>
    listening m (k + cost code) (hung_up w2) \<and> cfg w2 = cfg w \<and> connected_at (w_sess w2) = connected_at (w_sess w) \<and>
    (handshake_verified (w_sess w) \<longrightarrow> handshake_verified (w_sess w2))"
proof -
  have adm: "admitted code w" using w(1,3) by (auto simp: admitted_def listening_def cost_def)
  have fr: "s_framer (w_sess w) = \<lparr>max_payload_size = m, buf = []\<rparr>" using w(1) by (simp add: listening_def)
  obtain w1 where w1: "arrived w w1" "s_framer (w_sess w1) = s_framer (w_sess w)"
      "length (request_timestamps (w_sess w1)) \<le> length (request_timestamps (w_sess w)) + cost code"
      "w_tick w1 = w_tick w + 2 * length (pieces frame) + 2"
      "\<forall>w2. dispatch E code cid version payload w1 = (Ok (), w2) \<longrightarrow> client_loop E (map Chunk (pieces frame)) w = (Ok Go, hung_up w2)"
    by (rule request_arrives [OF f fr w(2) adm])
  obtain w2 outs where w2: "dispatch E code cid version payload w1 = (Ok (), w2)" "w_out w2 = w_out w @ outs" "Q outs w2"
    using h [OF w1(1,4)] by blast
  have "reader_kept w1 w2" by (rule keepsD [OF reader_serve.keeps_dispatch w2(1)])
  with w(1) w1(2,3) arrived_fields [OF w1(1)] have "listening m (k + cost code) (hung_up w2)" "cfg w2 = cfg w"
      "connected_at (w_sess w2) = connected_at (w_sess w)" "handshake_verified (w_sess w) \<longrightarrow> handshake_verified (w_sess w2)"
    by (auto simp: listening_def reader_kept_def)
  with w2 w1(5) show ?thesis by blast
qed

definition answers :: "env \<Rightarrow> bytes \<Rightarrow> world \<Rightarrow> bytes list \<Rightarrow> world \<Rightarrow> bool" where
  "answers E bs w outs w' \<longleftrightarrow> client_loop E (map Chunk (pieces bs)) w = (Ok Go, w') \<and> w_out w' = w_out w @ outs"

text \<open>What the requests before an upload leave alone, the framer and the rate limiter included or not.\<close>

definition calmer :: "world \<Rightarrow> world \<Rightarrow> bool" where
  "calmer w w' \<longleftrightarrow> w_fs w' = w_fs w \<and> w_limiter w' = w_limiter w \<and> s_config (w_sess w') = s_config (w_sess w) \<and>
     has_writer (w_sess w') = has_writer (w_sess w) \<and> connection_id (w_sess w') = connection_id (w_sess w) \<and>
     connected_at (w_sess w') = connected_at (w_sess w) \<and> has_upload_slot (w_sess w') = has_upload_slot (w_sess w) \<and>
     handshake_verified (w_sess w') = handshake_verified (w_sess w) \<and> client_nonce (w_sess w') = client_nonce (w_sess w) \<and>
     server_nonce (w_sess w') = server_nonce (w_sess w) \<and> security_version (w_sess w') = security_version (w_sess w) \<and>
     server_identity_key (w_sess w') = server_identity_key (w_sess w) \<and> xfer (w_sess w') = xfer (w_sess w)"

lemma calmer_trans: "calmer u v \<Longrightarrow> calmer v w \<Longrightarrow> calmer u w"
  by (simp add: calmer_def)

lemma calm_calmer: "calm w w' \<Longrightarrow> calmer w w'"
  using same_core_fields [of "w_sess w" "w_sess w'"] same_core_connected [of "w_sess w" "w_sess w'"] by (simp add: calm_def calmer_def)

lemma arrived_calmer: "arrived w w' \<Longrightarrow> calmer w w'"
  by (simp add: arrived_def calmer_def)

lemma calmer_hung_up: "calmer w v \<Longrightarrow> calmer w (hung_up v)"
  using calmer_trans arrived_calmer hung_up_same(1) by blast

section \<open>The handshake\<close>

abbreviation greeted :: "bytes \<Rightarrow> bytes \<Rightarrow> world \<Rightarrow> world" where
  "greeted cn sn w \<equiv> w\<lparr>w_sess := (w_sess w)\<lparr>security_version := Some 1, client_nonce := Some cn, server_nonce := Some sn\<rparr>\<rparr>"

lemma pieces_short: "0 < length frame \<Longrightarrow> length frame \<le> 1024 \<Longrightarrow> pieces frame = [frame]"
  unfolding pieces_def by (subst chunks_from.simps) (auto simp: chunks_from.simps)

lemma frame_length:
  assumes "build_request_frame cid code payload version = Ok frame" and "length version = 1"
  shows "length frame = 23 + length payload"
  using assms by (auto simp: build_request_frame_def res_bnd_Ok to_bytes_def split: if_splits)

lemma hello_served:
  assumes E: "server_works E (server_identity_key (w_sess w))" and f: "build_request_frame cid 829 ([1] @ nonce @ [0]) version = Ok frame"
    and v: "length version = 1" "length nonce = 32" "34 \<le> m" and h: "unstarted (w_sess w)" "has_writer (w_sess w)"
    and w: "listening m k w" "int k < max_req_per_window (cfg w)"
      "\<forall>t < w_tick w + 9. mono E t - connected_at (w_sess w) < handshake_timeout_s (cfg w)"
  shows "\<exists>w' sn. answers E frame w [frame_1608 E (server_identity_key (w_sess w)) version nonce sn] w' \<and>
    length sn = 32 \<and> calmer (greeted nonce sn w) w' \<and> w_store w' = w_store w \<and> listening m (Suc k) w' \<and> w_tick w' = w_tick w + 7"
proof -
  have p: "length (pieces frame) = 1" using pieces_short [of frame] frame_length [OF f v(1)] v(2) by simp
  let ?Q = "\<lambda>outs w2. \<exists>sn. outs = [frame_1608 E (server_identity_key (w_sess w)) version nonce sn] \<and>
      length sn = 32 \<and> calmer (greeted nonce sn w) w2 \<and> w_store w2 = w_store w \<and> w_tick w2 = w_tick w + 7"
  have "\<exists>w2 outs. dispatch E 829 cid version ([1] @ nonce @ [0]) w1 = (Ok (), w2) \<and> w_out w2 = w_out w @ outs \<and> ?Q outs w2"
    if a: "arrived w w1" and t: "w_tick w1 = w_tick w + 2 * length (pieces frame) + 2" for w1
  proof -
    note a' = arrived_fields [OF a]
    let ?sn = "random_bytes E (w_tick w1) 32"
    have "unstarted (w_sess w1)" using h(1) a' by (simp add: unstarted_def)
    then obtain w2 where w2: "request_829 E ([1] @ nonce @ [0]) version cid w1 = (Ok (), w2)"
        "w_out w2 = w_out w1 @ [frame_1608 E (server_identity_key (w_sess w1)) version nonce ?sn]" "w_store w2 = w_store w1"
        "calm (greeted nonce ?sn w1) w2" "w_tick w2 = w_tick w1 + 3"
      using hello_run [of E version w1 nonce cid] E v h(2) a' by (auto simp: server_works_def)
    have "calmer (greeted nonce ?sn w) w2"
      using calm_calmer [OF w2(4)] a' by (simp add: calmer_def)
    moreover have "length ?sn = 32" using E by (simp add: server_works_def)
    moreover have "dispatch E 829 cid version ([1] @ nonce @ [0]) w1 = (Ok (), w2)"
      using w2(1) h(1) a' by (simp add: dispatch_def HANDSHAKE_CODES_def unstarted_def)
    ultimately show ?thesis using w2 a' t p by (intro exI [of _ w2]) auto
  qed
  then obtain w2 outs where "client_loop E (map Chunk (pieces frame)) w = (Ok Go, hung_up w2)" "w_out w2 = w_out w @ outs" "?Q outs w2"
      "listening m (Suc k) (hung_up w2)"
    using serve_request [OF f v(1) _ w(1), of E ?Q] v(2,3) w(2,3) p by (auto simp: in_time_def)
  then show ?thesis using calmer_hung_up by (auto simp: answers_def hung_up_def intro!: exI [of _ "hung_up w2"])
qed

lemma ack_served:
  assumes f: "build_request_frame cid 830 [] version = Ok frame" and v: "length version = 1" "0 \<le> m"
    and h: "\<not> handshake_verified (w_sess w)" "client_nonce (w_sess w) = Some cn" "server_nonce (w_sess w) = Some sn" "security_version (w_sess w) = Some 1"
    and w: "listening m k w" "int k < max_req_per_window (cfg w)"
      "\<forall>t < w_tick w + 2. mono E t - connected_at (w_sess w) < handshake_timeout_s (cfg w)"
  shows "\<exists>w'. answers E frame w [] w' \<and> calmer (shaken cn sn w) w' \<and> w_store w' = w_store w \<and> listening m (Suc k) w'"
proof -
  have p: "length (pieces frame) = 1" using pieces_short [of frame] frame_length [OF f v(1)] by simp
  let ?Q = "\<lambda>outs w2. outs = [] \<and> calmer (shaken cn sn w) w2 \<and> w_store w2 = w_store w"
  have "\<exists>w2 outs. dispatch E 830 cid version [] w1 = (Ok (), w2) \<and> w_out w2 = w_out w @ outs \<and> ?Q outs w2"
    if a: "arrived w w1" for w1
  proof -
    note a' = arrived_fields [OF a]
    let ?w2 = "w1\<lparr>w_sess := (w_sess w1)\<lparr>handshake_verified := True\<rparr>\<rparr>"
    have "phase (w_sess w1) = HelloSent" using h a' by (simp add: phase_def)
    then have "dispatch E 830 cid version [] w1 = (Ok (), ?w2)"
      using ack_run [of w1 E version cid] h(1) a' by (simp add: dispatch_def HANDSHAKE_CODES_def)
    moreover have "calmer (shaken cn sn w) ?w2" using h a' by (simp add: calmer_def)
    ultimately show ?thesis using a' by (intro exI [of _ ?w2]) simp
  qed
  then obtain w2 outs where "client_loop E (map Chunk (pieces frame)) w = (Ok Go, hung_up w2)" "w_out w2 = w_out w @ outs" "?Q outs w2"
      "listening m (Suc k) (hung_up w2)"
    using serve_request [OF f v(1) _ w(1), of E ?Q] v(2) w(2,3) p by (auto simp: in_time_def)
  then show ?thesis using calmer_hung_up by (auto simp: answers_def hung_up_def intro!: exI [of _ "hung_up w2"])
qed

section \<open>Requests after the handshake\<close>

lemma serve_verified:
  assumes f: "build_request_frame cid code payload version = Ok frame" "length version = 1" "len payload \<le> m"
    and w: "listening m k w" "int (k + cost code) \<le> max_req_per_window (cfg w)" "handshake_verified (w_sess w)"
    and h: "\<And>w1. arrived w w1 \<Longrightarrow> \<exists>w2 outs. dispatch E code cid version payload w1 = (Ok (), w2) \<and> w_out w2 = w_out w @ outs \<and> Q outs w2"
    and st: "\<And>outs w2. Q outs w2 \<Longrightarrow> Q outs (hung_up w2)"
  shows "\<exists>w' outs. answers E frame w outs w' \<and> Q outs w' \<and> listening m (k + cost code) w' \<and> cfg w' = cfg w \<and> handshake_verified (w_sess w')"
proof -
  have t: "in_time E (length (pieces frame)) w" using w(3) by (simp add: in_time_def)
  obtain w2 outs where w2: "client_loop E (map Chunk (pieces frame)) w = (Ok Go, hung_up w2)" "w_out w2 = w_out w @ outs" "Q outs w2"
      "listening m (k + cost code) (hung_up w2)" "cfg w2 = cfg w" "handshake_verified (w_sess w2)"
    using serve_request [OF f w(1) t w(2), of Q] h w(3) by blast
  show ?thesis
    by (rule exI [of _ "hung_up w2"], rule exI [of _ outs])
      (use w2 st [OF w2(3)] arrived_fields [OF hung_up_same(1) [of w2]] in \<open>simp add: answers_def\<close>)
qed

lemma register_served:
  assumes E: "outside_works E key (w_store w)" and n: "name_ok E n" "n \<notin> username ` set (clients_table (w_store w))"
    and p: "build_825_payload n = Ok payload" and f: "build_request_frame cid 825 payload version = Ok frame"
    and v: "length version = 1" "len payload \<le> m" and h: "handshake_verified (w_sess w)" "has_writer (w_sess w)"
    and st: "store_inv (w_store w)" "sqlite_connected (w_store w)" and w: "listening m k w" "int k < max_req_per_window (cfg w)"
  shows "\<exists>w' new. answers E frame w [frame_1600 version new] w' \<and> length new = 16 \<and> calmer w w' \<and>
    enrolled (bytes_hex new) n None None (w_store w') \<and> listening m (Suc k) w'"
proof -
  let ?Q = "\<lambda>outs w2. \<exists>new. outs = [frame_1600 version new] \<and> length new = 16 \<and> calmer w w2 \<and>
    enrolled (bytes_hex new) n None None (w_store w2)"
  have "\<exists>w2 outs. dispatch E 825 cid version payload w1 = (Ok (), w2) \<and> w_out w2 = w_out w @ outs \<and> ?Q outs w2" if a: "arrived w w1" for w1
  proof -
    note a' = arrived_fields [OF a]
    let ?cid = "uuid4 E (w_tick w1)"
    obtain w2 where w2: "request_825 E payload version w1 = (Ok (), w2)" "w_out w2 = w_out w1 @ [frame_1600 version ?cid]" "calm w1 w2"
        "enrolled (bytes_hex ?cid) n None None (w_store w2)"
      using register_run [of E n payload version w1] E n p v h st a' by (auto simp: outside_works_def server_works_def)
    have "dispatch E 825 cid version payload w1 = (Ok (), w2)"
      using w2(1) h(1) a' by (simp add: dispatch_def HANDSHAKE_CODES_def)
    moreover have "calmer w w2" using calmer_trans [OF arrived_calmer [OF a] calm_calmer [OF w2(3)]] .
    moreover have "length ?cid = 16" using E by (simp add: outside_works_def)
    ultimately show ?thesis using w2(2,4) a' by (intro exI [of _ w2]) auto
  qed
  then obtain w' outs where "answers E frame w outs w'" "?Q outs w'" "listening m (Suc k) w'"
    using serve_verified [OF f v w(1) _ h(1), of E ?Q] w(2) calmer_hung_up arrived_fields(1) [OF hung_up_same(1)] by fastforce
  then show ?thesis by blast
qed

lemma hung_up_store [simp]: "w_store (hung_up w) = w_store w" "w_out (hung_up w) = w_out w"
  by (simp_all add: hung_up_def)

text \<open>A key response for the session of \<open>w\<close>.\<close>

abbreviation key_answer :: "env \<Rightarrow> world \<Rightarrow> int \<Rightarrow> bytes \<Rightarrow> bytes \<Rightarrow> bytes \<Rightarrow> bytes" where
  "key_answer E w code version cid ct \<equiv> key_frame E (w_sess w) code version cid ct"

lemma key_answer_arrived: "arrived w w1 \<Longrightarrow> key_answer E w1 code version cid ct = key_answer E w code version cid ct"
  by (simp add: key_frame_def arrived_fields)

lemma exchange_served:
  assumes E: "server_works E (server_identity_key (w_sess w))" and n: "name_ok E n" and p: "build_826_payload n (b64_bytes der) = Ok payload"
    and key: "key_accepted E der key" and f: "build_request_frame cid 826 payload version = Ok frame"
    and v: "length version = 1" "len payload \<le> m" "length cid = 16" and h: "agreed (w_sess w)" "has_writer (w_sess w)"
    and e: "enrolled (bytes_hex cid) n None None (w_store w)" and w: "listening m k w" "int k < max_req_per_window (cfg w)"
  shows "\<exists>w' aes ct t. answers E frame w [key_answer E w 1602 version cid ct] w' \<and> length aes = 32 \<and> oaep_encrypt E t key aes = Ok ct \<and>
    len ct \<le> 65535 \<and> calmer w w' \<and> enrolled (bytes_hex cid) n (Some der) (Some (b64encode aes)) (w_store w') \<and> listening m (Suc k) w'"
proof -
  let ?Q = "\<lambda>outs w2. \<exists>aes ct t. outs = [key_answer E w 1602 version cid ct] \<and> length aes = 32 \<and> oaep_encrypt E t key aes = Ok ct \<and>
    len ct \<le> 65535 \<and> calmer w w2 \<and> enrolled (bytes_hex cid) n (Some der) (Some (b64encode aes)) (w_store w2)"
  have ver: "handshake_verified (w_sess w)" using h(1) by (simp add: agreed_def)
  have "\<exists>w2 outs. dispatch E 826 cid version payload w1 = (Ok (), w2) \<and> w_out w2 = w_out w @ outs \<and> ?Q outs w2" if a: "arrived w w1" for w1
  proof -
    note a' = arrived_fields [OF a]
    have s1: "agreed (w_sess w1)" "signs E (server_identity_key (w_sess w1))" "has_writer (w_sess w1)"
      using h E a' by (simp_all add: agreed_def server_works_def)
    obtain w2 aes ct t where w2: "request_826 E cid payload version w1 = (Ok (), w2)" "length aes = 32" "oaep_encrypt E t key aes = Ok ct"
        "w_out w2 = w_out w1 @ [key_answer E w1 1602 version cid ct]" "calm w1 w2"
        "enrolled (bytes_hex cid) n (Some der) (Some (b64encode aes)) (w_store w2)"
      using exchange_run [OF _ n p key s1 v(1,3)] E e a' by (auto simp: server_works_def)
    have "len ct \<le> 65535" using key w2(2,3) unfolding key_accepted_def by (metis res.inject(1))
    moreover have "dispatch E 826 cid version payload w1 = (Ok (), w2)"
      using w2(1) ver a' by (simp add: dispatch_def HANDSHAKE_CODES_def)
    moreover have "calmer w w2" using calmer_trans [OF arrived_calmer [OF a] calm_calmer [OF w2(5)]] .
    ultimately show ?thesis using w2(2-4,6) a' key_answer_arrived [OF a]
      by - (rule exI [of _ w2], rule exI [of _ "[key_answer E w 1602 version cid ct]"], simp, blast)
  qed
  then obtain w' outs where "answers E frame w outs w'" "?Q outs w'" "listening m (Suc k) w'"
    using serve_verified [OF f v(1,2) w(1) _ ver, of E ?Q] w(2) calmer_hung_up hung_up_store(1) by fastforce
  then show ?thesis by blast
qed

section \<open>The packets of an upload\<close>

lemma uploading_arrived: "uploading E P L tmp i k fed w \<Longrightarrow> arrived w w1 \<Longrightarrow> uploading E P L tmp i k fed w1"
  by (simp add: uploading_def stream_def arrived_fields)

lemma prepared_arrived: "prepared P w \<Longrightarrow> arrived w w1 \<Longrightarrow> prepared P w1"
  by (simp add: prepared_def arrived_fields)

lemma can_start_arrived: "can_start P i w \<Longrightarrow> arrived w w1 \<Longrightarrow> can_start P i w1"
  by (simp add: can_start_def arrived_fields)

lemma uploaded_arrived: "uploaded P L tmp plain w0 w \<Longrightarrow> arrived w w1 \<Longrightarrow> uploaded P L tmp plain w0 w1"
  by (simp add: uploaded_def arrived_fields)

lemma packet_zero_served:
  assumes p: "p_packet P 0 (p_iv P) = Ok payload" and f: "build_request_frame (p_cid P) 828 payload (p_version P) = Ok frame"
    and v: "len payload \<le> m" and P: "0 \<notin> set (p_name P)" "plan_ok (cfg w) P" "length (p_iv P) = 16" "p_key P \<noteq> []"
    and x: "xf w = no_transfer" "has_writer (w_sess w)" and e: "enrolled (bytes_hex (p_cid P)) n der (Some (b64encode (p_key P))) (w_store w)"
    and s: "can_start P i w" and w: "listening m k w" "int k \<le> max_req_per_window (cfg w)" "handshake_verified (w_sess w)"
  shows "\<exists>w'. answers E frame w [] w' \<and> prepared P w' \<and> can_start P i w' \<and> w_limiter w' = w_limiter w \<and>
    connection_id (w_sess w') = connection_id (w_sess w) \<and> listening m k w' \<and> cfg w' = cfg w \<and> handshake_verified (w_sess w')"
proof -
  let ?Q = "\<lambda>outs w2. outs = [] \<and> prepared P w2 \<and> can_start P i w2 \<and> w_limiter w2 = w_limiter w \<and>
    connection_id (w_sess w2) = connection_id (w_sess w)"
  have v1: "length (p_version P) = 1" using P(2) by (simp add: plan_ok_def)
  have "\<exists>w2 outs. dispatch E 828 (p_cid P) (p_version P) payload w1 = (Ok (), w2) \<and> w_out w2 = w_out w @ outs \<and> ?Q outs w2"
    if a: "arrived w w1" for w1
  proof -
    note a' = arrived_fields [OF a]
    obtain rec where rec: "get_client_by_id (bytes_hex (p_cid P)) (w_store w1) = Some rec" "aes_key_b64 rec = Some (b64encode (p_key P))"
      using enrolled_found [OF e] a'(1) by auto
    obtain w2 where w2: "serve_packet E P payload w1 = (Ok (), w2)" "prepared P w2" "can_start P i w2" "w_out w2 = w_out w1"
        "connection_id (w_sess w2) = connection_id (w_sess w1)" "w_limiter w2 = w_limiter w1"
      using serve_packet_zero [OF p P(1) _ P(3) _ P(4) rec _ _ can_start_arrived [OF s a], of E] P(2) x enrolled_knows [OF e] a' by auto
    have "dispatch E 828 (p_cid P) (p_version P) payload w1 = (Ok (), w2)"
      using w2(1) w(3) a' by (simp add: dispatch_def HANDSHAKE_CODES_def)
    then show ?thesis using w2 a' by (intro exI [of _ w2]) simp
  qed
  moreover have "?Q outs (hung_up w2)" if "?Q outs w2" for outs w2
    using that prepared_arrived [OF _ hung_up_same(1)] can_start_arrived [OF _ hung_up_same(1)] by (auto simp: hung_up_def)
  ultimately show ?thesis using serve_verified [OF f v1 v w(1) _ w(3), of E ?Q] w(2) by simp
qed

text \<open>The server is ready for packet \<open>k + 1\<close>; the ciphertext so far is \<open>fed\<close>.\<close>

definition expecting :: "env \<Rightarrow> upload_plan \<Rightarrow> upload_limiter \<Rightarrow> pystr \<Rightarrow> nat \<Rightarrow> int \<Rightarrow> bytes \<Rightarrow> world \<Rightarrow> bool" where
  "expecting E P L tmp i k fed w \<longleftrightarrow> 0 \<le> k \<and> (if k = 0
     then fed = [] \<and> prepared P w \<and> can_start P i w \<and> L = slot_used w \<and> tmp = upload_temp_path (p_path P) (connection_id (w_sess w))
     else uploading E P L tmp i k fed w)"

lemma expecting_arrived: "expecting E P L tmp i k fed w \<Longrightarrow> arrived w w1 \<Longrightarrow> expecting E P L tmp i k fed w1"
  using uploading_arrived prepared_arrived can_start_arrived by (auto simp: expecting_def arrived_fields)

lemma packet_received:
  assumes E: "all_well E" and x: "expecting E P L tmp i k fed w" and ok: "plan_ok (cfg w) P" and key: "aes_key_ok E (p_key P) (p_iv P)"
    and n: "0 \<notin> set (p_name P)" and p: "p_packet P (k + 1) chunk = Ok payload" "k + 1 \<le> p_total P" "len chunk \<le> max_chunk_size (cfg w)"
  shows "\<exists>w1. uploading E P L tmp i k fed w1 \<and> cfg w1 = cfg w \<and> w_out w1 = w_out w \<and>
    serve_packet E P payload w = receive_chunk E (p_cid P) (p_version P) (p_header P (k + 1) chunk) w1"
proof -
  have k: "0 < k + 1" "upload_client_id_hex (xf w) = Some (bytes_hex (p_cid P))"
    using x by (auto simp: expecting_def prepared_def uploading_def split: if_splits)
  note sp = serve_data_packet [OF p(1) n ok k(1) p(2) k(2), of E]
  show ?thesis
  proof (cases "k = 0")
    case True
    then have s: "prepared P w" "can_start P i w" and eq: "fed = []" "L = slot_used w" "tmp = upload_temp_path (p_path P) (connection_id (w_sess w))"
      using x by (simp_all add: expecting_def)
    obtain w1 where "uploading E P L tmp i 0 [] w1" "cfg w1 = cfg w" "w_out w1 = w_out w"
        "data_packet E (p_cid P) (p_version P) (p_header P 1 chunk) w = receive_chunk E (p_cid P) (p_version P) (p_header P 1 chunk) w1"
      using data_packet_first [OF E s ok key] p(3) unfolding eq by blast
    then show ?thesis using sp True eq(1) by auto
  next
    case False
    then have "uploading E P L tmp i k fed w" "0 < k" using x by (auto simp: expecting_def)
    then show ?thesis using data_packet_next [OF _ ok _ p(3)] sp by metis
  qed
qed

lemma packet_served:
  assumes E: "all_well E" and x: "expecting E P L tmp i k fed w" and ok: "plan_ok (cfg w) P" and key: "aes_key_ok E (p_key P) (p_iv P)"
    and n: "0 \<notin> set (p_name P)" and p: "p_packet P (k + 1) chunk = Ok payload"
    and f: "build_request_frame (p_cid P) 828 payload (p_version P) = Ok frame" "len payload \<le> m"
    and c: "chunk \<noteq> []" "length chunk mod AES_BLOCK = 0" "len chunk \<le> max_chunk_size (cfg w)" "len fed + len chunk \<le> p_csize P" "k + 1 < p_total P"
    and w: "listening m j w" "int j \<le> max_req_per_window (cfg w)" "handshake_verified (w_sess w)"
  shows "\<exists>w'. answers E frame w [] w' \<and> expecting E P L tmp i (k + 1) (fed @ chunk) w' \<and> listening m j w' \<and> cfg w' = cfg w \<and>
    handshake_verified (w_sess w')"
proof -
  let ?Q = "\<lambda>outs w2. outs = [] \<and> expecting E P L tmp i (k + 1) (fed @ chunk) w2"
  have v1: "length (p_version P) = 1" "0 < p_total P" using ok by (simp_all add: plan_ok_def)
  have k0: "0 \<le> k" using x by (simp add: expecting_def)
  have "\<exists>w2 outs. dispatch E 828 (p_cid P) (p_version P) payload w1 = (Ok (), w2) \<and> w_out w2 = w_out w @ outs \<and> ?Q outs w2"
    if a: "arrived w w1" for w1
  proof -
    note a' = arrived_fields [OF a]
    obtain w2 where w2: "uploading E P L tmp i k fed w2" "w_out w2 = w_out w1"
        "serve_packet E P payload w1 = receive_chunk E (p_cid P) (p_version P) (p_header P (k + 1) chunk) w2"
      using packet_received [OF E expecting_arrived [OF x a] _ key n p] ok c(3,5) a'(8) by auto
    obtain w3 where w3: "receive_chunk E (p_cid P) (p_version P) (p_header P (k + 1) chunk) w2 = (Ok (), w3)"
        "uploading E P L tmp i (k + 1) (fed @ chunk) w3" "w_out w3 = w_out w2"
      using receive_more [OF E w2(1) c(1,2,4) v1(2) c(5)] by blast
    have "dispatch E 828 (p_cid P) (p_version P) payload w1 = (Ok (), w3)"
      using w2(3) w3(1) w(3) a' by (simp add: dispatch_def HANDSHAKE_CODES_def)
    then show ?thesis using w3(2,3) w2(2) a' k0 by (intro exI [of _ w3]) (simp add: expecting_def)
  qed
  moreover have "?Q outs (hung_up w2)" if "?Q outs w2" for outs w2 using that expecting_arrived [OF _ hung_up_same(1)] by blast
  ultimately show ?thesis using serve_verified [OF f(1) v1(1) f(2) w(1) _ w(3), of E ?Q] w(2) by simp
qed

lemma last_packet_served:
  assumes E: "all_well E" and x: "expecting E P L tmp i k fed w" and ok: "plan_ok (cfg w) P" "plan_sendable P" and key: "aes_key_ok E (p_key P) (p_iv P)"
    and n: "0 \<notin> set (p_name P)" and p: "p_packet P (k + 1) chunk = Ok payload"
    and f: "build_request_frame (p_cid P) 828 payload (p_version P) = Ok frame" "len payload \<le> m"
    and c: "chunk \<noteq> []" "length chunk mod AES_BLOCK = 0" "len chunk \<le> max_chunk_size (cfg w)" "len fed + len chunk = p_csize P" "k + 1 = p_total P"
    and plain: "unpad E (aes_cbc_dec E (p_key P) (p_iv P) [] (fed @ chunk)) AES_BLOCK = Some plain" "len plain = p_osize P"
    and w: "listening m j w" "int j \<le> max_req_per_window (cfg w)" "handshake_verified (w_sess w)"
  shows "\<exists>w'. answers E frame w [frame_1603 P (crc32 plain 0)] w' \<and> uploaded P L tmp plain w w' \<and> listening m j w' \<and> cfg w' = cfg w \<and>
    handshake_verified (w_sess w')"
proof -
  let ?Q = "\<lambda>outs w2. outs = [frame_1603 P (crc32 plain 0)] \<and> uploaded P L tmp plain w w2"
  have v1: "length (p_version P) = 1" using ok(1) by (simp add: plan_ok_def)
  have "\<exists>w2 outs. dispatch E 828 (p_cid P) (p_version P) payload w1 = (Ok (), w2) \<and> w_out w2 = w_out w @ outs \<and> ?Q outs w2"
    if a: "arrived w w1" for w1
  proof -
    note a' = arrived_fields [OF a]
    obtain w2 where w2: "uploading E P L tmp i k fed w2" "w_out w2 = w_out w1"
        "serve_packet E P payload w1 = receive_chunk E (p_cid P) (p_version P) (p_header P (k + 1) chunk) w2"
      using packet_received [OF E expecting_arrived [OF x a] _ key n p] ok(1) c(3,5) a'(8) by auto
    obtain w3 where w3: "receive_chunk E (p_cid P) (p_version P) (p_header P (k + 1) chunk) w2 = (Ok (), w3)" "uploaded P L tmp plain w2 w3"
      using receive_last [OF E w2(1) c(1,2,4,5) ok plain] by blast
    have "dispatch E 828 (p_cid P) (p_version P) payload w1 = (Ok (), w3)"
      using w2(3) w3(1) w(3) a' by (simp add: dispatch_def HANDSHAKE_CODES_def)
    then show ?thesis using w3(2) w2(2) a' by (intro exI [of _ w3]) (simp add: uploaded_def)
  qed
  moreover have "?Q outs (hung_up w2)" if "?Q outs w2" for outs w2 using that uploaded_arrived [OF _ hung_up_same(1)] by blast
  ultimately show ?thesis using serve_verified [OF f(1) v1 f(2) w(1) _ w(3), of E ?Q] w(2) by simp
qed

lemma confirm_served:
  assumes E: "all_well E" and u: "uploaded P L tmp plain w0 w" and v: "length (p_version P) = 1" "length (p_cid P) = 16"
    and n: "0 \<notin> set (p_name P)" "list_all valid_cp (path_basename (p_name P))"
    and f: "build_request_frame (p_cid P) 900 (utf8_bytes (path_basename (p_name P)) @ [0]) (p_version P) = Ok frame"
      "len (utf8_bytes (path_basename (p_name P)) @ [0]) \<le> m"
    and w: "listening m j w" "int j < max_req_per_window (cfg w)" "handshake_verified (w_sess w)"
  shows "\<exists>w'. answers E frame w [frame_1604 P] w' \<and> confirmed P L (crc32 plain 0) w w'"
proof -
  let ?Q = "\<lambda>outs w2. outs = [frame_1604 P] \<and> confirmed P L (crc32 plain 0) w w2"
  let ?payload = "utf8_bytes (path_basename (p_name P)) @ [0]"
  have "\<exists>w2 outs. dispatch E 900 (p_cid P) (p_version P) ?payload w1 = (Ok (), w2) \<and> w_out w2 = w_out w @ outs \<and> ?Q outs w2"
    if a: "arrived w w1" for w1
  proof -
    note a' = arrived_fields [OF a]
    obtain w2 where w2: "request_900 E ?payload (p_version P) (p_cid P) w1 = (Ok (), w2)" "confirmed P L (crc32 plain 0) w1 w2"
      using confirm_upload [OF E uploaded_arrived [OF u a] v n] by blast
    have "dispatch E 900 (p_cid P) (p_version P) ?payload w1 = (Ok (), w2)"
      using w2(1) w(3) a' by (simp add: dispatch_def HANDSHAKE_CODES_def)
    then show ?thesis using w2(2) a' by (intro exI [of _ w2]) (simp add: confirmed_def)
  qed
  moreover have "?Q outs (hung_up w2)" if "?Q outs w2" for outs w2 using that by (auto simp: confirmed_def hung_up_def)
  ultimately have "\<exists>w' outs. answers E frame w outs w' \<and> ?Q outs w'"
    using serve_verified [OF f(1) v(1) f(2) w(1) _ w(3), of E ?Q] w(2) by fastforce
  then show ?thesis by blast
qed

end
