(* ===== verification/Report_Compare.thy ===== *)
theory Report_Compare
  imports Script_Io "HOL-Library.AList"
begin

text \<open>
  \<open>server/tools/compare_results.py\<close>: two reports of the load test side by side, for the
  loads that occur in both.
\<close>

section \<open>Reading reports\<close>

definition load_report :: "outside \<Rightarrow> pystr \<Rightarrow> json script" where
  "load_report X path = lift_res (report_at X path)"

text \<open>The comprehension over \<open>report.get("stages", [])\<close>: a later stage replaces one of the same load.\<close>

primrec by_load :: "py_text \<Rightarrow> (int \<times> json) list \<Rightarrow> json list \<Rightarrow> (int \<times> json) list res" where
  "by_load P d [] = Ok d"
| "by_load P d (stage # stages) = res_bnd (getitem stage ''load'') (\<lambda>l. res_bnd (to_int P l) (\<lambda>load.
     by_load P (AList.update load stage d) stages))"

definition stages_by_load :: "py_text \<Rightarrow> json \<Rightarrow> (int \<times> json) list res" where
  "stages_by_load P report = res_bnd (get_or report ''stages'' (JList [])) (\<lambda>ss.
     res_bnd (py_iter ss) (\<lambda>stages. by_load P [] stages))"

text \<open>\<open>sorted(set(a) & set(b))\<close>.\<close>

definition common_keys :: "(int \<times> 'a) list \<Rightarrow> (int \<times> 'b) list \<Rightarrow> int list" where
  "common_keys a b = sort (remdups (filter (\<lambda>k. k \<in> fst ` set b) (map fst a)))"

text \<open>\<open>stages[load]\<close>.\<close>

definition stage_at :: "(int \<times> json) list \<Rightarrow> int \<Rightarrow> json res" where
  "stage_at stages load = (case map_of stages load of Some stage \<Rightarrow> Ok stage | None \<Rightarrow> Raise KeyError)"

definition pct_change :: "real \<Rightarrow> real \<Rightarrow> pystr" where
  "pct_change old new =
     (if old = 0 then (if new = 0 then lit ''0.0%'' else lit ''n/a'')
      else signed_fixed 1 ((new - old) / old * 100) @ lit ''%'')"

primrec follow :: "json \<Rightarrow> json list \<Rightarrow> json option" where
  "follow cur [] = Some cur"
| "follow cur (key # path) = (case (cur, key) of
      (JObj kvs, JStr k) \<Rightarrow> (case map_of kvs k of Some v \<Rightarrow> follow v path | None \<Rightarrow> None)
    | _ \<Rightarrow> None)"

definition metric :: "py_text \<Rightarrow> json \<Rightarrow> json list \<Rightarrow> real \<Rightarrow> real res" where
  "metric P stage path dflt = (case follow stage path of
      None \<Rightarrow> Ok dflt
    | Some cur \<Rightarrow> (case to_float P cur of
        Ok x \<Rightarrow> Ok x
      | Raise e \<Rightarrow> if e = TypeError \<or> is_ValueError e then Ok dflt else Raise e))"

section \<open>Printing\<close>

definition print_metric :: "outside \<Rightarrow> string \<Rightarrow> real \<Rightarrow> real \<Rightarrow> string \<Rightarrow> unit script" where
  "print_metric X label old new unit = print_line X (lit ''  '' @ ljust 18 (lit label) @ lit '' '' @
     rjust 10 (fixed 2 old) @ lit unit @ lit '' -> '' @ rjust 10 (fixed 2 new) @ lit unit @
     lit '' ('' @ pct_change old new @ lit '')'')"

definition print_count :: "outside \<Rightarrow> string \<Rightarrow> int \<Rightarrow> int \<Rightarrow> unit script" where
  "print_count X label old new = print_line X (lit ''  '' @ ljust 18 (lit label) @ lit '' '' @
     rjust 10 (decimal old) @ lit '' -> '' @ rjust 10 (decimal new) @ lit '' ('' @ signed_decimal (new - old) @ lit '')'')"

text \<open>The calls of \<open>compare_stage\<close>: the metric of both stages, then the line.\<close>

definition both_metrics :: "outside \<Rightarrow> json \<Rightarrow> json \<Rightarrow> json list \<Rightarrow> (real \<Rightarrow> real \<Rightarrow> unit script) \<Rightarrow> unit script" where
  "both_metrics X b c path k = bnd (lift_res (metric (sc_text X) b path 0)) (\<lambda>old.
     bnd (lift_res (metric (sc_text X) c path 0)) (\<lambda>new. k old new))"

definition timings_of :: "json \<Rightarrow> json res" where
  "timings_of stage = res_bnd (get_or stage ''summary'' (JObj [])) (\<lambda>s. get_or s ''timings_ms'' (JObj []))"

definition common_timings :: "json \<Rightarrow> json \<Rightarrow> json list res" where
  "common_timings bt ct = res_bnd (py_set bt) (\<lambda>bs. res_bnd (py_set ct) (\<lambda>cs. py_sorted (filter (\<lambda>v. in_set v cs) bs)))"

definition compare_timing :: "outside \<Rightarrow> json \<Rightarrow> json \<Rightarrow> json \<Rightarrow> unit script" where
  "compare_timing X b c name = both_metrics X b c [jstr ''summary'', jstr ''timings_ms'', name, jstr ''avg''] (\<lambda>old new.
     if \<bar>old\<bar> < 1 / 100 \<and> \<bar>new\<bar> < 1 / 100 then ret ()
     else print_line X (lit ''    '' @ ljust 26 (py_str (sc_text X) name) @ lit '' '' @ rjust 10 (fixed 2 old) @ lit ''ms -> '' @
       rjust 10 (fixed 2 new) @ lit ''ms ('' @ pct_change old new @ lit '')''))"

definition compare_stage :: "outside \<Rightarrow> int \<Rightarrow> json \<Rightarrow> json \<Rightarrow> unit script" where
  "compare_stage X load b c = bnd (block [
       print_line X (10 # lit ''load '' @ decimal load @ lit '':''),
       both_metrics X b c [jstr ''summary'', jstr ''latency_ms'', jstr ''avg''] (\<lambda>old new. print_metric X ''avg_ms'' old new ''ms''),
       both_metrics X b c [jstr ''summary'', jstr ''latency_ms'', jstr ''p95''] (\<lambda>old new. print_metric X ''p95_ms'' old new ''ms''),
       both_metrics X b c [jstr ''summary'', jstr ''latency_ms'', jstr ''p99''] (\<lambda>old new. print_metric X ''p99_ms'' old new ''ms''),
       both_metrics X b c [jstr ''throughput_ops_per_s''] (\<lambda>old new. print_metric X ''throughput'' old new '' ops/s''),
       both_metrics X b c [jstr ''summary'', jstr ''ok''] (\<lambda>old new. print_count X ''ok'' (py_trunc old) (py_trunc new)),
       both_metrics X b c [jstr ''summary'', jstr ''rejected''] (\<lambda>old new. print_count X ''rejected'' (py_trunc old) (py_trunc new)),
       both_metrics X b c [jstr ''summary'', jstr ''failed''] (\<lambda>old new. print_count X ''failed'' (py_trunc old) (py_trunc new))])
     (\<lambda>_. bnd (lift_res (timings_of b)) (\<lambda>bt. bnd (lift_res (timings_of c)) (\<lambda>ct.
     bnd (lift_res (common_timings bt ct)) (\<lambda>names.
     if names = [] then ret ()
     else bnd (print_line X (lit ''  timings avg:'')) (\<lambda>_. for_each names (compare_timing X b c))))))"

section \<open>The comparison\<close>

text \<open>\<open>report.get(outer, {}).get(key, '-')\<close> in a line of text.\<close>

definition param_of :: "outside \<Rightarrow> json \<Rightarrow> string \<Rightarrow> string \<Rightarrow> pystr res" where
  "param_of X report outer key = res_bnd (get_or report outer (JObj [])) (\<lambda>v. res_bnd (get_or v key (jstr ''-'')) (\<lambda>x.
     Ok (py_str (sc_text X) x)))"

definition print_param :: "outside \<Rightarrow> string \<Rightarrow> json \<Rightarrow> json \<Rightarrow> string \<Rightarrow> string \<Rightarrow> unit script" where
  "print_param X label b c outer key = bnd (lift_res (param_of X b outer key)) (\<lambda>old.
     bnd (lift_res (param_of X c outer key)) (\<lambda>new. print_line X (lit label @ old @ lit '' -> '' @ new)))"

definition print_run_id :: "outside \<Rightarrow> string \<Rightarrow> json \<Rightarrow> unit script" where
  "print_run_id X label report = bnd (lift_res (get_or report ''run_id'' (jstr ''-''))) (\<lambda>v.
     print_line X (lit label @ py_str (sc_text X) v))"

definition compare_reports :: "outside \<Rightarrow> pystr \<Rightarrow> pystr \<Rightarrow> int script" where
  "compare_reports X baseline_path candidate_path =
     bnd (load_report X baseline_path) (\<lambda>b. bnd (load_report X candidate_path) (\<lambda>c.
     bnd (lift_res (stages_by_load (sc_text X) b)) (\<lambda>bs. bnd (lift_res (stages_by_load (sc_text X) c)) (\<lambda>cs.
     if common_keys bs cs = [] then bnd (print_line X (lit ''No matching load stages found between reports.'')) (\<lambda>_. ret 1)
     else bnd (block [
         print_line X (lit ''Comparing benchmark reports''),
         print_line X (lit ''baseline : '' @ baseline_path),
         print_line X (lit ''candidate: '' @ candidate_path),
         print_line X [],
         print_run_id X ''baseline run_id : '' b,
         print_run_id X ''candidate run_id: '' c,
         print_param X ''mode            : '' b c ''scenario'' ''mode'',
         print_param X ''file_size       : '' b c ''scenario_params'' ''file_size_bytes'',
         print_param X ''chunk_size      : '' b c ''scenario_params'' ''chunk_size_bytes'',
         print_param X ''rsa_key_pool    : '' b c ''scenario_params'' ''rsa_key_pool_size'',
         for_each (common_keys bs cs) (\<lambda>load. bnd (lift_res (stage_at bs load)) (\<lambda>bstage.
           bnd (lift_res (stage_at cs load)) (\<lambda>cstage. compare_stage X load bstage cstage)))])
       (\<lambda>_. ret 0)))))"

section \<open>What a comparison prints\<close>

text \<open>The headings of the stages in a run.\<close>

definition stage_heading :: "int \<Rightarrow> pystr" where
  "stage_heading load = 10 # lit ''load '' @ decimal load @ lit '':''"

fun heading_of :: "event \<Rightarrow> pystr list" where
  "heading_of (Print s) = (if s \<noteq> [] \<and> hd s = 10 then [s] else [])"
| "heading_of _ = []"

definition headings :: "event list \<Rightarrow> pystr list" where
  "headings tr = concat (map heading_of tr)"

lemma headings_simps [simp]:
  "headings [] = []" "headings (ev # tr) = heading_of ev @ headings tr" "headings (tr1 @ tr2) = headings tr1 @ headings tr2"
  by (simp_all add: headings_def)

text \<open>\<open>prints x H m\<close>: \<open>m\<close> returns \<open>x\<close> and what it adds to the run has the headings \<open>H\<close>.\<close>

definition prints :: "'a \<Rightarrow> pystr list \<Rightarrow> 'a script \<Rightarrow> bool" where
  "prints x H m \<longleftrightarrow> (\<forall>s. \<exists>tr. m s = (Ok x, s @ tr) \<and> headings tr = H)"

lemma prints_ret: "prints x [] (ret x)"
  by (simp add: prints_def)

lemma prints_lift: "prints x [] (lift_res (Ok x))"
  by (simp add: prints_def)

lemma prints_bnd: "prints y H m \<Longrightarrow> prints x H' (k y) \<Longrightarrow> prints x (H @ H') (bnd m k)"
  unfolding prints_def bnd_def by (metis (no_types, lifting) append.assoc case_prod_conv headings_simps(3) res.case(1))

lemma prints_seq: "prints y [] m \<Longrightarrow> prints x H (k y) \<Longrightarrow> prints x H (bnd m k)"
  using prints_bnd [of y "[]"] by simp

lemma prints_line: "(\<And>n. outcome X n = None) \<Longrightarrow> prints () (heading_of (Print s)) (print_line X s)"
  by (simp add: prints_def emit_def)

lemma prints_plain: "(\<And>n. outcome X n = None) \<Longrightarrow> s = [] \<or> hd s \<noteq> 10 \<Longrightarrow> prints () [] (print_line X s)"
  using prints_line [of X s] by auto

lemma prints_each:
  assumes "\<And>x. x \<in> set xs \<Longrightarrow> prints () (H x) (body x)"
  shows "prints () (concat (map H xs)) (for_each xs body)"
  using assms by (induction xs) (auto intro: prints_ret prints_bnd)

lemma concat_map_nil: "concat (map (\<lambda>_. []) xs) = []"
  by (induction xs) simp_all

text \<open>What the code relies on: \<open>float\<close> of a string gives a number or \<open>ValueError\<close>.\<close>

definition float_parses :: "py_text \<Rightarrow> bool" where
  "float_parses P \<longleftrightarrow> (\<forall>s e. parse_float P s = Raise e \<longrightarrow> is_ValueError e)"

lemma metric_total:
  assumes "float_parses P"
  shows "\<exists>x. metric P stage path d = Ok x"
proof -
  have "e = TypeError \<or> is_ValueError e" if "to_float P v = Raise e" for v e
    using that assms by (auto simp: to_float_def float_parses_def split: json.splits option.splits)
  then show ?thesis by (auto simp: metric_def split: option.split res.split)
qed

lemma prints_both:
  assumes "float_parses (sc_text X)" and "\<And>old new. prints () [] (k old new)"
  shows "prints () [] (both_metrics X b c path k)"
proof -
  obtain x y where "metric (sc_text X) b path 0 = Ok x" "metric (sc_text X) c path 0 = Ok y"
    using metric_total [OF assms(1)] by blast
  then show ?thesis unfolding both_metrics_def by (auto intro!: prints_seq prints_lift assms(2))
qed

lemma common_timings_objs: "\<exists>names. common_timings (JObj b) (JObj c) = Ok names"
proof -
  have "list_all is_str (once (map (\<lambda>(k, _). JStr k) kvs))" for kvs :: "(pystr \<times> json) list"
    by (induction kvs) (auto simp: is_str_def)
  then have "list_all is_str (filter q (once (map (\<lambda>(k, _). JStr k) kvs)))" for q and kvs :: "(pystr \<times> json) list"
    unfolding list_all_iff set_filter by blast
  then show ?thesis
    by (auto simp: common_timings_def py_set_def py_iter_def list_all_iff py_sorted_def)
qed

text \<open>A stage and a report that have the dictionaries the script looks into.\<close>

definition stage_readable :: "json \<Rightarrow> bool" where
  "stage_readable stage \<longleftrightarrow> (\<exists>t. timings_of stage = Ok (JObj t))"

definition report_readable :: "py_text \<Rightarrow> json \<Rightarrow> (int \<times> json) list \<Rightarrow> bool" where
  "report_readable P report stages \<longleftrightarrow> stages_by_load P report = Ok stages \<and> (\<forall>(l, stage) \<in> set stages. stage_readable stage) \<and>
     (\<exists>a b. get_or report ''scenario'' (JObj []) = Ok (JObj a) \<and> get_or report ''scenario_params'' (JObj []) = Ok (JObj b))"

lemma prints_stage:
  assumes X: "\<And>n. outcome X n = None" "float_parses (sc_text X)" and "stage_readable b" "stage_readable c"
  shows "prints () [stage_heading load] (compare_stage X load b c)"
proof -
  obtain bt ct where t: "timings_of b = Ok (JObj bt)" "timings_of c = Ok (JObj ct)"
    using assms(3,4) by (auto simp: stage_readable_def)
  obtain names where n: "common_timings (JObj bt) (JObj ct) = Ok names" using common_timings_objs by blast
  have h: "prints () [stage_heading load] (print_line X (10 # lit ''load '' @ decimal load @ lit '':''))"
    using prints_line [OF X(1), where s = "stage_heading load"] by (simp add: stage_heading_def)
  have each: "prints () [] (compare_timing X b c name)" for name
    unfolding compare_timing_def by (auto intro!: prints_both X prints_ret prints_plain simp: lit_def)
  have loop: "prints () [] (for_each names (compare_timing X b c))"
    using prints_each [of names "\<lambda>_. []", OF each] by (simp add: concat_map_nil)
  have m: "prints () [] (print_metric X l old new u)" "prints () [] (print_count X l i j)" for l old new u i j
    unfolding print_metric_def print_count_def by (auto intro!: prints_plain X simp: lit_def)
  have "prints () ([stage_heading load] @ []) (compare_stage X load b c)"
    unfolding compare_stage_def block.simps bnd_assoc t n
    by (rule prints_bnd [OF h], (rule prints_seq, rule prints_both, rule X, rule m)+)
      (auto intro!: prints_seq [OF prints_lift] prints_seq [OF prints_plain] prints_ret loop X simp: t n lit_def)
  then show ?thesis by simp
qed

lemma prints_param:
  assumes X: "\<And>n. outcome X n = None" and r: "report_readable P b bs" "report_readable P c cs" and l: "lit label \<noteq> []" "hd (lit label) \<noteq> 10"
    and o: "outer = ''scenario'' \<or> outer = ''scenario_params''"
  shows "prints () [] (print_param X label b c outer key)"
proof -
  have "\<exists>s. param_of X v outer key = Ok s" if "report_readable P v vs" for v vs
    using that o by (auto simp: report_readable_def param_of_def) (auto simp: get_key_def)
  then obtain s t where "param_of X b outer key = Ok s" "param_of X c outer key = Ok t" using r by blast
  then show ?thesis unfolding print_param_def using l by (auto intro!: prints_seq [OF prints_lift] prints_plain X)
qed

lemma prints_run_id:
  assumes X: "\<And>n. outcome X n = None" and "report_readable P v vs" and "lit label \<noteq> []" "hd (lit label) \<noteq> 10"
  shows "prints () [] (print_run_id X label v)"
  using assms(2-) unfolding print_run_id_def
  by (cases v) (auto simp: report_readable_def get_key_def intro!: prints_seq [OF prints_lift] prints_plain X)

lemma common_keys_exact: "common_keys a b = sorted_list_of_set (fst ` set a \<inter> fst ` set b)"
proof -
  have "set (filter (\<lambda>k. k \<in> fst ` set b) (map fst a)) = fst ` set a \<inter> fst ` set b" by auto
  then show ?thesis unfolding common_keys_def by (metis sorted_list_of_set_sort_remdups)
qed

lemma stage_at_common:
  assumes "report_readable P report stages" and "load \<in> fst ` set stages"
  shows "\<exists>stage. stage_at stages load = Ok stage \<and> stage_readable stage"
proof -
  obtain stage where "map_of stages load = Some stage" using assms(2) by (metis map_of_eq_None_iff option.exhaust_sel)
  moreover from this have "(load, stage) \<in> set stages" by (rule map_of_SomeD)
  ultimately show ?thesis using assms(1) by (auto simp: stage_at_def report_readable_def)
qed

lemma prints_sections:
  assumes X: "\<And>n. outcome X n = None" "float_parses (sc_text X)"
    and r: "report_readable (sc_text X) b bs" "report_readable (sc_text X) c cs"
  shows "prints () (map stage_heading (common_keys bs cs)) (for_each (common_keys bs cs) (\<lambda>load.
    bnd (lift_res (stage_at bs load)) (\<lambda>bstage. bnd (lift_res (stage_at cs load)) (\<lambda>cstage. compare_stage X load bstage cstage))))"
proof -
  have each: "prints () [stage_heading load] (bnd (lift_res (stage_at bs load)) (\<lambda>bstage.
      bnd (lift_res (stage_at cs load)) (\<lambda>cstage. compare_stage X load bstage cstage)))" if "load \<in> set (common_keys bs cs)" for load
  proof -
    from that have mem: "load \<in> fst ` set bs" "load \<in> fst ` set cs" by (simp_all add: common_keys_exact)
    obtain s where "stage_at bs load = Ok s" "stage_readable s" using mem(1) stage_at_common [OF r(1)] by blast
    moreover obtain t where "stage_at cs load = Ok t" "stage_readable t" using mem(2) stage_at_common [OF r(2)] by blast
    ultimately show ?thesis by (auto intro!: prints_seq [OF prints_lift] prints_stage X)
  qed
  have "concat (map (\<lambda>load. [stage_heading load]) ls) = map stage_heading ls" for ls by (induction ls) simp_all
  then show ?thesis using prints_each [of "common_keys bs cs" "\<lambda>load. [stage_heading load]", OF each] by simp
qed

text \<open>Comparing two reports: on reports that have the dictionaries the script looks into, \<open>compare_reports\<close>
  raises nothing, prints one section per load that occurs in both, in ascending order and
  each once, and returns 0; when no load occurs in both it returns 1 and prints no section.\<close>

lemma compare_sections:
  assumes X: "\<And>n. outcome X n = None" "float_parses (sc_text X)"
    and "report_at X bpath = Ok b" "report_at X cpath = Ok c"
    and r: "report_readable (sc_text X) b bs" "report_readable (sc_text X) c cs"
  shows "\<exists>tr. compare_reports X bpath cpath [] = (Ok (if fst ` set bs \<inter> fst ` set cs = {} then 1 else 0), tr) \<and>
    headings tr = map stage_heading (sorted_list_of_set (fst ` set bs \<inter> fst ` set cs))"
proof -
  let ?common = "fst ` set bs \<inter> fst ` set cs"
  have k: "common_keys bs cs = [] \<longleftrightarrow> ?common = {}" by (simp add: common_keys_exact)
  note loop = prints_sections [OF X r]
  have params: "prints () [] (print_run_id X ''baseline run_id : '' b)" "prints () [] (print_run_id X ''candidate run_id: '' c)"
    by (rule prints_run_id [OF X(1) r(1)] prints_run_id [OF X(1) r(2)]; simp add: lit_def)+
  have params2: "prints () [] (print_param X ''mode            : '' b c ''scenario'' ''mode'')"
      "prints () [] (print_param X ''file_size       : '' b c ''scenario_params'' ''file_size_bytes'')"
      "prints () [] (print_param X ''chunk_size      : '' b c ''scenario_params'' ''chunk_size_bytes'')"
      "prints () [] (print_param X ''rsa_key_pool    : '' b c ''scenario_params'' ''rsa_key_pool_size'')"
    by (rule prints_param [OF X(1) r]; simp add: lit_def)+
  have st: "stages_by_load (sc_text X) b = Ok bs" "stages_by_load (sc_text X) c = Ok cs" using r by (simp_all add: report_readable_def)
  have "prints (if ?common = {} then 1 else 0) (map stage_heading (common_keys bs cs)) (compare_reports X bpath cpath)"
  proof (cases "?common = {}")
    case True
    then have "common_keys bs cs = []" using k by simp
    moreover have "prints () [] (print_line X (lit ''No matching load stages found between reports.''))"
      by (rule prints_plain [OF X(1)]) (simp add: lit_def)
    ultimately show ?thesis
      unfolding compare_reports_def load_report_def assms(3,4) using True st
      by (auto intro!: prints_seq [OF prints_lift] prints_seq [where k = "\<lambda>_. ret 1"] prints_ret)
  next
    case False
    then have ne: "common_keys bs cs \<noteq> []" using k by simp
    have plain: "prints () [] (print_line X (lit ''Comparing benchmark reports''))" "prints () [] (print_line X [])"
        "prints () [] (print_line X (lit ''baseline : '' @ bpath))" "prints () [] (print_line X (lit ''candidate: '' @ cpath))"
      by (rule prints_plain [OF X(1)]; simp add: lit_def)+
    have "prints 0 (map stage_heading (common_keys bs cs) @ []) (compare_reports X bpath cpath)"
      unfolding compare_reports_def load_report_def assms(3,4) st block.simps bnd_assoc
      by ((rule prints_seq [OF prints_lift])+, unfold st, (rule prints_seq [OF prints_lift])+, unfold if_not_P [OF ne], (rule prints_seq, rule plain params params2)+,
          rule prints_bnd [OF loop], rule prints_seq, rule prints_ret, rule prints_ret)
    with False show ?thesis by simp
  qed
  then show ?thesis unfolding prints_def common_keys_exact by (metis append_Nil)
qed

text \<open>An outside for concrete runs.\<close>

definition text_example :: py_text where
  "text_example = \<lparr>digit_value = ascii_digit, parse_float = (\<lambda>_. Raise ValueError), float_repr = (\<lambda>_. lit ''0.0''), str_repr = (\<lambda>s. s)\<rparr>"

definition outside_example :: outside where
  "outside_example = \<lparr>sc_text = text_example,
     report_at = (\<lambda>_. Ok (JObj [])),
     path_exists = (\<lambda>_. True), outcome = (\<lambda>_. None), handles_labels = (\<lambda>_. (JNull, JNull))\<rparr>"

end
