(* ===== verification/Report_Plots.thy ===== *)
theory Report_Plots
  imports Report_Compare
begin

text \<open>
  \<open>server/tools/plot_results.py\<close>: the figures over the load test's reports. Matplotlib is
  outside: a figure is the sequence of calls the script makes, with their positional and
  keyword arguments (a tuple is a list), and each call may raise.
\<close>

section \<open>Series\<close>

definition load_run :: "outside \<Rightarrow> pystr \<Rightarrow> json script" where
  "load_run X path = (if \<not> path_exists X path then throw FileNotFoundError else lift_res (report_at X path))"

text \<open>The lists \<open>extract_series\<close> fills, one \<open>append\<close> after the other.\<close>

record series =
  v_loads :: "json list"
  v_latency_avg :: "json list"
  v_latency_p95 :: "json list"
  v_throughput :: "json list"
  v_success_rate :: "json list"
  v_rejected_rate :: "json list"
  v_failure_rate :: "json list"
  v_cpu_peak :: "json list"
  v_rss_peak :: "json list"

definition no_series :: series where
  "no_series = \<lparr>v_loads = [], v_latency_avg = [], v_latency_p95 = [], v_throughput = [], v_success_rate = [],
     v_rejected_rate = [], v_failure_rate = [], v_cpu_peak = [], v_rss_peak = []\<rparr>"

text \<open>\<open>xs.append(value)\<close> for the list that \<open>field\<close> updates; the value is computed first.\<close>

definition append_to :: "((json list \<Rightarrow> json list) \<Rightarrow> 's \<Rightarrow> 's) \<Rightarrow> json res \<Rightarrow> 's \<Rightarrow> 's res" where
  "append_to field value s = res_bnd value (\<lambda>v. Ok (field (\<lambda>xs. xs @ [v]) s))"

text \<open>A \<open>for\<close> loop over a list whose body updates \<open>s\<close> and may raise.\<close>

primrec res_fold :: "('s \<Rightarrow> 'x \<Rightarrow> 's res) \<Rightarrow> 's \<Rightarrow> 'x list \<Rightarrow> 's res" where
  "res_fold f s [] = Ok s"
| "res_fold f s (x # xs) = res_bnd (f s x) (\<lambda>s'. res_fold f s' xs)"

definition rate_of :: "json \<Rightarrow> string list \<Rightarrow> json res" where
  "rate_of v path = res_bnd (getpath v path) (\<lambda>r. times_float r 100)"

definition add_stage :: "series \<Rightarrow> json \<Rightarrow> series res" where
  "add_stage s stage =
     res_bnd (append_to v_loads_update (getitem stage ''load'') s) (\<lambda>s.
     res_bnd (append_to v_latency_avg_update (getpath stage [''summary'', ''latency_ms'', ''avg'']) s) (\<lambda>s.
     res_bnd (append_to v_latency_p95_update (getpath stage [''summary'', ''latency_ms'', ''p95'']) s) (\<lambda>s.
     res_bnd (append_to v_throughput_update (getitem stage ''throughput_ops_per_s'') s) (\<lambda>s.
     res_bnd (append_to v_success_rate_update (rate_of stage [''summary'', ''success_rate'']) s) (\<lambda>s.
     res_bnd (append_to v_rejected_rate_update (rate_of stage [''summary'', ''rejected_rate'']) s) (\<lambda>s.
     res_bnd (append_to v_failure_rate_update (rate_of stage [''summary'', ''failure_rate'']) s) (\<lambda>s.
     res_bnd (append_to v_cpu_peak_update (getpath stage [''server_metrics'', ''peak'', ''cpu_percent'']) s) (\<lambda>s.
     append_to v_rss_peak_update (getpath stage [''server_metrics'', ''peak'', ''rss_mb'']) s))))))))"

definition stages_of :: "json \<Rightarrow> json list res" where
  "stages_of run = res_bnd (getitem run ''stages'') py_iter"

definition extract_series :: "json \<Rightarrow> series res" where
  "extract_series run = res_bnd (stages_of run) (res_fold add_stage no_series)"

definition scenario_title :: "py_text \<Rightarrow> json \<Rightarrow> pystr res" where
  "scenario_title P run = res_bnd (getpath run [''scenario'', ''mode'']) (\<lambda>mode.
     res_bnd (getpath run [''scenario'', ''ramp'']) (\<lambda>ramp.
     Ok (py_str P mode @ lit '' | ramp='' @ py_str P ramp)))"

section \<open>Figures of one run\<close>

abbreviation plt :: "outside \<Rightarrow> string \<Rightarrow> json list \<Rightarrow> (string \<times> json) list \<Rightarrow> unit script" where
  "plt X f args kws \<equiv> emit X (Call f args kws)"

abbreviation import_plt :: "outside \<Rightarrow> unit script" where
  "import_plt X \<equiv> emit X (Import ''matplotlib.pyplot'')"

abbreviation pair_of :: "int \<Rightarrow> int \<Rightarrow> json" where
  "pair_of a b \<equiv> JList [JInt a, JInt b]"

text \<open>\<open>plt.plot(xs, ys, marker="o", ...)\<close>, also as a method \<open>f\<close> of a subplot.\<close>

definition draw_line :: "outside \<Rightarrow> string \<Rightarrow> json list \<Rightarrow> json list \<Rightarrow> (string \<times> json) list \<Rightarrow> unit script" where
  "draw_line X f xs ys kws = plt X f [JList xs, JList ys] ((''marker'', jstr ''o'') # kws)"

definition labels :: "outside \<Rightarrow> string \<Rightarrow> string \<Rightarrow> unit script" where
  "labels X xl yl = block [plt X ''xlabel'' [jstr xl] [], plt X ''ylabel'' [jstr yl] []]"

definition run_title :: "outside \<Rightarrow> json \<Rightarrow> string \<Rightarrow> unit script" where
  "run_title X run ending = bnd (lift_res (scenario_title (sc_text X) run)) (\<lambda>t. plt X ''title'' [JStr (t @ lit ending)] [])"

definition finish_plot :: "outside \<Rightarrow> pystr \<Rightarrow> unit script" where
  "finish_plot X out_path = block [plt X ''tight_layout'' [] [], plt X ''savefig'' [JStr out_path] [], plt X ''close'' [] []]"

definition plot_latency :: "outside \<Rightarrow> json \<Rightarrow> pystr \<Rightarrow> unit script" where
  "plot_latency X run out_path = bnd (import_plt X) (\<lambda>_. bnd (lift_res (extract_series run)) (\<lambda>s. block [
     plt X ''figure'' [] [(''figsize'', pair_of 8 5)],
     draw_line X ''plot'' (v_loads s) (v_latency_avg s) [(''label'', jstr ''avg'')],
     draw_line X ''plot'' (v_loads s) (v_latency_p95 s) [(''label'', jstr ''p95'')],
     labels X ''Load'' ''Latency (ms)'', run_title X run '' | Latency'',
     plt X ''legend'' [] [], plt X ''grid'' [JBool True] [], finish_plot X out_path]))"

definition plot_throughput :: "outside \<Rightarrow> json \<Rightarrow> pystr \<Rightarrow> unit script" where
  "plot_throughput X run out_path = bnd (import_plt X) (\<lambda>_. bnd (lift_res (extract_series run)) (\<lambda>s. block [
     plt X ''figure'' [] [(''figsize'', pair_of 8 5)],
     draw_line X ''plot'' (v_loads s) (v_throughput s) [],
     labels X ''Load'' ''Throughput (ops/s)'', run_title X run '' | Throughput'',
     plt X ''grid'' [JBool True] [], finish_plot X out_path]))"

definition plot_outcomes :: "outside \<Rightarrow> json \<Rightarrow> pystr \<Rightarrow> unit script" where
  "plot_outcomes X run out_path = bnd (import_plt X) (\<lambda>_. bnd (lift_res (extract_series run)) (\<lambda>s. block [
     plt X ''figure'' [] [(''figsize'', pair_of 8 5)],
     draw_line X ''plot'' (v_loads s) (v_success_rate s) [(''label'', jstr ''success %'')],
     draw_line X ''plot'' (v_loads s) (v_rejected_rate s) [(''label'', jstr ''rejected %'')],
     draw_line X ''plot'' (v_loads s) (v_failure_rate s) [(''label'', jstr ''failed %'')],
     labels X ''Load'' ''Rate (%)'', run_title X run '' | Outcomes'', plt X ''ylim'' [JInt 0, JInt 100] [],
     plt X ''legend'' [] [], plt X ''grid'' [JBool True] [], finish_plot X out_path]))"

definition plot_cpu :: "outside \<Rightarrow> json \<Rightarrow> pystr \<Rightarrow> unit script" where
  "plot_cpu X run out_path = bnd (import_plt X) (\<lambda>_. bnd (lift_res (extract_series run)) (\<lambda>s. block [
     plt X ''figure'' [] [(''figsize'', pair_of 8 5)],
     draw_line X ''plot'' (v_loads s) (v_cpu_peak s) [],
     labels X ''Load'' ''CPU peak (%)'', run_title X run '' | CPU Peak'',
     plt X ''grid'' [JBool True] [], finish_plot X out_path]))"

definition plot_rss :: "outside \<Rightarrow> json \<Rightarrow> pystr \<Rightarrow> unit script" where
  "plot_rss X run out_path = bnd (import_plt X) (\<lambda>_. bnd (lift_res (extract_series run)) (\<lambda>s. block [
     plt X ''figure'' [] [(''figsize'', pair_of 8 5)],
     draw_line X ''plot'' (v_loads s) (v_rss_peak s) [],
     labels X ''Load'' ''RSS peak (MB)'', run_title X run '' | RSS Peak'',
     plt X ''grid'' [JBool True] [], finish_plot X out_path]))"

definition slug_for_run :: "json \<Rightarrow> json res" where
  "slug_for_run run = getpath run [''scenario'', ''mode'']"

text \<open>\<open>SCRIPT_DIR\<close> is where the script lies; the module makes \<open>OUTPUT_DIR\<close> when it is loaded.\<close>

definition OUTPUT_DIR :: "pystr \<Rightarrow> pystr" where "OUTPUT_DIR dir = path_div dir (lit ''plots'')"
definition RESULTS_DIR :: "pystr \<Rightarrow> pystr" where "RESULTS_DIR dir = path_div dir (lit ''results'')"

definition generate_all :: "outside \<Rightarrow> pystr \<Rightarrow> pystr \<Rightarrow> unit script" where
  "generate_all X dir run_path = bnd (load_run X run_path) (\<lambda>run. bnd (lift_res (slug_for_run run)) (\<lambda>v.
     let slug = py_str (sc_text X) v; file = (\<lambda>ending. path_div (OUTPUT_DIR dir) (slug @ lit ending)) in block [
     plot_latency X run (file ''_latency.png''),
     plot_throughput X run (file ''_throughput.png''),
     plot_outcomes X run (file ''_outcomes.png''),
     plot_cpu X run (file ''_cpu.png''),
     plot_rss X run (file ''_rss.png''),
     print_line X (lit ''Generated plots for '' @ path_basename run_path)]))"

section \<open>Several runs side by side\<close>

definition extract_latency_series :: "json \<Rightarrow> string \<Rightarrow> (json list \<times> json list) res" where
  "extract_latency_series run latency_key = res_bnd (stages_of run) (res_fold (\<lambda>s stage.
     res_bnd (append_to apfst (getitem stage ''load'') s) (\<lambda>s.
     append_to apsnd (getpath stage [''summary'', ''latency_ms'', latency_key]) s)) ([], []))"

definition plot_latency_comparison :: "outside \<Rightarrow> json \<Rightarrow> json \<Rightarrow> json \<Rightarrow> pystr \<Rightarrow> string \<Rightarrow> unit script" where
  "plot_latency_comparison X register_run relogin_run upload_run out_path latency_key = bnd (import_plt X) (\<lambda>_.
     bnd (lift_res (extract_latency_series register_run latency_key)) (\<lambda>reg.
     bnd (lift_res (extract_latency_series relogin_run latency_key)) (\<lambda>rel.
     bnd (lift_res (extract_latency_series upload_run latency_key)) (\<lambda>up. block [
     plt X ''figure'' [] [(''figsize'', pair_of 9 6)],
     draw_line X ''plot'' (fst reg) (snd reg) [(''label'', JStr (lit ''register '' @ lit latency_key))],
     draw_line X ''plot'' (fst rel) (snd rel) [(''label'', JStr (lit ''relogin '' @ lit latency_key))],
     draw_line X ''plot'' (fst up) (snd up) [(''label'', JStr (lit ''upload '' @ lit latency_key))],
     plt X ''yscale'' [jstr ''log''] [],
     labels X ''Load'' ''Latency (ms)'',
     plt X ''title'' [JStr (lit ''Latency Comparison Across Scenarios ('' @ lit latency_key @ lit '')'')] [],
     plt X ''legend'' [] [], plt X ''grid'' [JBool True] [], finish_plot X out_path]))))"

definition extract_upload_size_series :: "json \<Rightarrow> (json \<times> series) res" where
  "extract_upload_size_series run = res_bnd (getpath run [''scenario_params'', ''file_size_bytes'']) (\<lambda>size.
     res_bnd (extract_series run) (\<lambda>s. Ok (size, s)))"

record op_series =
  o_loads :: "json list"
  o_latency_avg :: "json list"
  o_latency_p95 :: "json list"
  o_success_rate :: "json list"
  o_rejected_rate :: "json list"
  o_failure_rate :: "json list"

definition no_op_series :: op_series where
  "no_op_series = \<lparr>o_loads = [], o_latency_avg = [], o_latency_p95 = [], o_success_rate = [], o_rejected_rate = [], o_failure_rate = []\<rparr>"

text \<open>One stage; \<open>continue\<close> when it has nothing on the operation.\<close>

definition add_op_stage :: "string \<Rightarrow> op_series \<Rightarrow> json \<Rightarrow> op_series res" where
  "add_op_stage operation s stage = res_bnd (get_or stage ''per_operation_summaries'' JNull) (\<lambda>ops.
     if \<not> truthy ops then Ok s
     else res_bnd (py_contains ops (lit operation)) (\<lambda>found. if \<not> found then Ok s
     else res_bnd (getitem ops operation) (\<lambda>op.
       res_bnd (append_to o_loads_update (getitem stage ''load'') s) (\<lambda>s.
       res_bnd (append_to o_latency_avg_update (getpath op [''latency_ms'', ''avg'']) s) (\<lambda>s.
       res_bnd (append_to o_latency_p95_update (getpath op [''latency_ms'', ''p95'']) s) (\<lambda>s.
       res_bnd (append_to o_success_rate_update (rate_of op [''success_rate'']) s) (\<lambda>s.
       res_bnd (append_to o_rejected_rate_update (rate_of op [''rejected_rate'']) s) (\<lambda>s.
       append_to o_failure_rate_update (rate_of op [''failure_rate'']) s))))))))"

definition extract_mixed_operation_series :: "json \<Rightarrow> string \<Rightarrow> op_series res" where
  "extract_mixed_operation_series run operation = res_bnd (stages_of run) (res_fold (add_op_stage operation) no_op_series)"

definition human_file_size :: "py_text \<Rightarrow> json \<Rightarrow> pystr res" where
  "human_file_size P size_bytes = (case num_of size_bytes of
      None \<Rightarrow> Raise TypeError
    | Some x \<Rightarrow> Ok (if x \<ge> 1000000 then fixed 0 (x / 1000000) @ lit ''MB''
        else if x \<ge> 1000 then fixed 0 (x / 1000) @ lit ''KB''
        else py_str P size_bytes @ lit ''B''))"

text \<open>The loop of the figures by file size: the series of a run, its label, its line or lines.\<close>

definition by_size :: "outside \<Rightarrow> json \<Rightarrow> (series \<Rightarrow> json \<Rightarrow> 'a script) \<Rightarrow> 'a script" where
  "by_size X run body = bnd (lift_res (extract_upload_size_series run)) (\<lambda>(size, s).
     bnd (lift_res (human_file_size (sc_text X) size)) (\<lambda>label. body s (JStr label)))"

text \<open>The same, with the running maximum \<open>m = max(m, max(values))\<close>.\<close>

primrec by_size_max :: "outside \<Rightarrow> (series \<Rightarrow> json list) \<Rightarrow> json \<Rightarrow> json list \<Rightarrow> json script" where
  "by_size_max X value m [] = ret m"
| "by_size_max X value m (run # runs) = bnd (by_size X run (\<lambda>s label.
     bnd (draw_line X ''plot'' (v_loads s) (value s) [(''markersize'', JInt 8), (''label'', label)]) (\<lambda>_.
     bnd (lift_res (py_max (value s))) (\<lambda>v. lift_res (py_max [m, v]))))) (\<lambda>m'. by_size_max X value m' runs)"

definition legend_by_size :: "outside \<Rightarrow> unit script" where
  "legend_by_size X = plt X ''legend'' [] [(''title'', jstr ''File size'')]"

definition faint_grid :: "outside \<Rightarrow> string \<Rightarrow> unit script" where
  "faint_grid X f = plt X f [JBool True] [(''alpha'', JFloat (3 / 10))]"

definition plot_upload_size_latency_comparison :: "outside \<Rightarrow> json list \<Rightarrow> pystr \<Rightarrow> unit script" where
  "plot_upload_size_latency_comparison X runs out_path = bnd (import_plt X) (\<lambda>_.
     bnd (plt X ''figure'' [] [(''figsize'', pair_of 9 6)]) (\<lambda>_.
     bnd (by_size_max X v_latency_p95 (JFloat 0) runs) (\<lambda>max_y. block [
     plt X ''axvline'' [] [(''x'', JInt 25), (''linestyle'', jstr ''--''), (''alpha'', JFloat (6 / 10))],
     bnd (lift_res (times_float max_y (8 / 10))) (\<lambda>y.
       plt X ''text'' [JFloat (255 / 10), y, jstr ''capacity boundary''] [(''rotation'', JInt 90)]),
     plt X ''yscale'' [jstr ''log''] [],
     labels X ''Load'' ''p95 Latency (ms) [log scale]'',
     plt X ''title'' [jstr ''Upload p95 Latency by File Size''] [],
     legend_by_size X, faint_grid X ''grid'', finish_plot X out_path])))"

text \<open>\<open>xs[i]\<close> for \<open>0 <= i\<close>.\<close>

definition item_at :: "json list \<Rightarrow> nat \<Rightarrow> json res" where
  "item_at xs i = (if i < length xs then Ok (xs ! i) else Raise IndexError)"

definition plot_upload_size_throughput_comparison :: "outside \<Rightarrow> json list \<Rightarrow> pystr \<Rightarrow> unit script" where
  "plot_upload_size_throughput_comparison X runs out_path = bnd (import_plt X) (\<lambda>_. block [
     plt X ''figure'' [] [(''figsize'', pair_of 9 6)],
     for_each runs (\<lambda>run. by_size X run (\<lambda>s label.
       bnd (draw_line X ''plot'' (v_loads s) (v_throughput s) [(''markersize'', JInt 8), (''label'', label)]) (\<lambda>_.
       bnd (lift_res (peak_index (v_throughput s))) (\<lambda>i.
       bnd (lift_res (item_at (v_loads s) i)) (\<lambda>peak_load. bnd (lift_res (item_at (v_throughput s) i)) (\<lambda>peak_val.
       plt X ''annotate'' [jstr ''peak'', JList [peak_load, peak_val]]
         [(''textcoords'', jstr ''offset points''), (''xytext'', pair_of 5 5)])))))),
     labels X ''Load'' ''Throughput (ops/s)'',
     plt X ''title'' [jstr ''Upload Throughput by File Size''] [],
     legend_by_size X, faint_grid X ''grid'', finish_plot X out_path])"

definition plot_upload_size_rejected_comparison :: "outside \<Rightarrow> json list \<Rightarrow> pystr \<Rightarrow> unit script" where
  "plot_upload_size_rejected_comparison X runs out_path = bnd (import_plt X) (\<lambda>_. block [
     plt X ''figure'' [] [(''figsize'', pair_of 9 6)],
     for_each runs (\<lambda>run. by_size X run (\<lambda>s label. draw_line X ''plot'' (v_loads s) (v_rejected_rate s) [(''label'', label)])),
     labels X ''Load'' ''Rejected Rate (%)'',
     plt X ''title'' [jstr ''Upload Rejected Rate by File Size''] [],
     plt X ''ylim'' [JInt 0, JInt 100] [],
     legend_by_size X, plt X ''grid'' [JBool True] [], finish_plot X out_path])"

definition plot_upload_size_overload_comparison :: "outside \<Rightarrow> json list \<Rightarrow> pystr \<Rightarrow> unit script" where
  "plot_upload_size_overload_comparison X runs out_path = bnd (import_plt X) (\<lambda>_. block [
     plt X ''subplots'' [JInt 1, JInt 2] [(''figsize'', pair_of 14 5), (''sharey'', JBool True)],
     for_each runs (\<lambda>run. by_size X run (\<lambda>s label. block [
       draw_line X ''axes[0].plot'' (v_loads s) (v_rejected_rate s) [(''markersize'', JInt 8), (''label'', label)],
       draw_line X ''axes[1].plot'' (v_loads s) (v_failure_rate s) [(''markersize'', JInt 8), (''label'', label)]])),
     plt X ''axes[0].set_xlabel'' [jstr ''Load''] [], plt X ''axes[0].set_ylabel'' [jstr ''Rate (%)''] [],
     plt X ''axes[0].set_title'' [jstr ''Rejected Rate by File Size''] [],
     plt X ''axes[0].set_ylim'' [JInt 0, JInt 100] [], faint_grid X ''axes[0].grid'',
     plt X ''axes[1].set_xlabel'' [jstr ''Load''] [], plt X ''axes[1].set_title'' [jstr ''Failure Rate by File Size''] [],
     plt X ''axes[1].set_ylim'' [JInt 0, JInt 100] [], faint_grid X ''axes[1].grid'',
     plt X ''axes[0].get_legend_handles_labels'' [] [],
     rd (\<lambda>tr. case handles_labels X tr of (hs, ls) \<Rightarrow>
       plt X ''fig.legend'' [hs, ls] [(''title'', jstr ''File size''), (''loc'', jstr ''upper right'')]),
     plt X ''fig.suptitle'' [jstr ''Upload Overload Behavior by File Size''] [],
     plt X ''fig.tight_layout'' [] [], plt X ''savefig'' [JStr out_path] [], plt X ''close'' [] []])"

definition plot_upload_size_rss_comparison :: "outside \<Rightarrow> json list \<Rightarrow> pystr \<Rightarrow> unit script" where
  "plot_upload_size_rss_comparison X runs out_path = bnd (import_plt X) (\<lambda>_.
     bnd (plt X ''figure'' [] [(''figsize'', pair_of 9 6)]) (\<lambda>_.
     bnd (by_size_max X v_rss_peak (JFloat 0) runs) (\<lambda>max_rss. block [
     bnd (lift_res (times_float max_rss (12 / 10))) (\<lambda>top. plt X ''ylim'' [JInt 0, top] []),
     labels X ''Load'' ''RSS Peak (MB)'',
     plt X ''title'' [jstr ''Upload RSS Peak by File Size''] [],
     legend_by_size X, faint_grid X ''grid'', finish_plot X out_path])))"

section \<open>Mixed runs\<close>

text \<open>The line of one operation, left out when no stage has it.\<close>

definition op_line :: "outside \<Rightarrow> json \<Rightarrow> string \<Rightarrow> (op_series \<Rightarrow> json list) \<Rightarrow> (string \<times> json) list \<Rightarrow> unit script" where
  "op_line X run operation value kws = bnd (lift_res (extract_mixed_operation_series run operation)) (\<lambda>s.
     if o_loads s = [] then ret () else draw_line X ''plot'' (o_loads s) (value s) kws)"

definition OPERATIONS :: "string list" where "OPERATIONS = [''register'', ''relogin'', ''upload'']"

definition plot_mixed_operation_latency :: "outside \<Rightarrow> json \<Rightarrow> pystr \<Rightarrow> string \<Rightarrow> unit script" where
  "plot_mixed_operation_latency X run out_path latency_key = bnd (import_plt X) (\<lambda>_. block [
     plt X ''figure'' [] [(''figsize'', pair_of 9 6)],
     for_each OPERATIONS (\<lambda>op. op_line X run op (if latency_key = ''p95'' then o_latency_p95 else o_latency_avg) [(''label'', jstr op)]),
     labels X ''Load'' ''Latency (ms)'', run_title X run ('' | Mixed Per-Operation Latency ('' @ latency_key @ '')''),
     plt X ''legend'' [] [], plt X ''grid'' [JBool True] [], finish_plot X out_path])"

definition plot_mixed_operation_outcomes :: "outside \<Rightarrow> json \<Rightarrow> pystr \<Rightarrow> unit script" where
  "plot_mixed_operation_outcomes X run out_path = bnd (import_plt X) (\<lambda>_. block [
     plt X ''figure'' [] [(''figsize'', pair_of 9 6)],
     for_each OPERATIONS (\<lambda>op. op_line X run op o_rejected_rate [(''label'', jstr (op @ '' rejected %''))]),
     labels X ''Load'' ''Rejected Rate (%)'', run_title X run '' | Mixed Per-Operation Rejected Rate'',
     plt X ''ylim'' [JInt 0, JInt 100] [],
     plt X ''legend'' [] [], plt X ''grid'' [JBool True] [], finish_plot X out_path])"

definition plot_mixed_operation_success :: "outside \<Rightarrow> json \<Rightarrow> pystr \<Rightarrow> unit script" where
  "plot_mixed_operation_success X run out_path = bnd (import_plt X) (\<lambda>_. block [
     plt X ''figure'' [] [(''figsize'', pair_of 9 6)],
     for_each OPERATIONS (\<lambda>op. op_line X run op o_success_rate [(''label'', jstr (op @ '' success %''))]),
     labels X ''Load'' ''Success Rate (%)'', run_title X run '' | Mixed Per-Operation Success Rate'',
     plt X ''ylim'' [JInt 0, JInt 100] [],
     plt X ''legend'' [] [], plt X ''grid'' [JBool True] [], finish_plot X out_path])"

definition mixed_by_size :: "outside \<Rightarrow> (op_series \<Rightarrow> json list) \<Rightarrow> json \<Rightarrow> unit script" where
  "mixed_by_size X value run = bnd (lift_res (getpath run [''scenario_params'', ''file_size_bytes''])) (\<lambda>size.
     bnd (lift_res (human_file_size (sc_text X) size)) (\<lambda>label.
     op_line X run ''upload'' value [(''markersize'', JInt 8), (''label'', JStr label)]))"

definition plot_mixed_upload_latency_by_size :: "outside \<Rightarrow> json list \<Rightarrow> pystr \<Rightarrow> unit script" where
  "plot_mixed_upload_latency_by_size X runs out_path = bnd (import_plt X) (\<lambda>_. block [
     plt X ''figure'' [] [(''figsize'', pair_of 9 6)], for_each runs (mixed_by_size X o_latency_p95),
     labels X ''Load'' ''Upload p95 Latency (ms)'', plt X ''title'' [jstr ''Mixed Upload p95 Latency by File Size''] [],
     legend_by_size X, faint_grid X ''grid'', finish_plot X out_path])"

definition plot_mixed_upload_rejected_by_size :: "outside \<Rightarrow> json list \<Rightarrow> pystr \<Rightarrow> unit script" where
  "plot_mixed_upload_rejected_by_size X runs out_path = bnd (import_plt X) (\<lambda>_. block [
     plt X ''figure'' [] [(''figsize'', pair_of 9 6)], for_each runs (mixed_by_size X o_rejected_rate),
     labels X ''Load'' ''Upload Rejected Rate (%)'', plt X ''title'' [jstr ''Mixed Upload Rejected Rate by File Size''] [],
     plt X ''ylim'' [JInt 0, JInt 100] [],
     legend_by_size X, faint_grid X ''grid'', finish_plot X out_path])"

section \<open>Two reports, load by load\<close>

definition common_loads :: "py_text \<Rightarrow> json \<Rightarrow> json \<Rightarrow> int list res" where
  "common_loads P baseline candidate = res_bnd (stages_by_load P baseline) (\<lambda>bs.
     res_bnd (stages_by_load P candidate) (\<lambda>cs. Ok (common_keys bs cs)))"

text \<open>A list comprehension over \<open>loads\<close> that looks each one up in \<open>stages_by_load(run)\<close>.\<close>

definition values_by_load :: "py_text \<Rightarrow> json \<Rightarrow> int list \<Rightarrow> (json \<Rightarrow> json res) \<Rightarrow> json list res" where
  "values_by_load P run loads value = res_bnd (stages_by_load P run) (\<lambda>by_load.
     res_map (\<lambda>load. res_bnd (stage_at by_load load) value) loads)"

definition latency_values_by_load :: "py_text \<Rightarrow> json \<Rightarrow> int list \<Rightarrow> string \<Rightarrow> json list res" where
  "latency_values_by_load P run loads latency_key =
     values_by_load P run loads (\<lambda>stage. getpath stage [''summary'', ''latency_ms'', latency_key])"

definition as_float :: "py_text \<Rightarrow> json \<Rightarrow> json res" where
  "as_float P v = res_bnd (to_float P v) (\<lambda>x. Ok (JFloat x))"

definition timing_avg_value :: "py_text \<Rightarrow> pystr \<Rightarrow> json \<Rightarrow> json res" where
  "timing_avg_value P timing_key stage =
     res_bnd (get_or stage ''summary'' (JObj [])) (\<lambda>s. res_bnd (get_or s ''timings_ms'' (JObj [])) (\<lambda>t.
     res_bnd (get_key t timing_key JNull) (\<lambda>timing.
     if timing = JNull then Ok (JFloat 0)
     else res_bnd (get_or timing ''avg'' (JFloat 0)) (as_float P))))"

definition timing_avg_values_by_load :: "py_text \<Rightarrow> json \<Rightarrow> int list \<Rightarrow> pystr \<Rightarrow> json list res" where
  "timing_avg_values_by_load P run loads timing_key = values_by_load P run loads (timing_avg_value P timing_key)"

definition outcome_value :: "py_text \<Rightarrow> string \<Rightarrow> json \<Rightarrow> json res" where
  "outcome_value P key stage = res_bnd (getpath stage [''summary'', key]) (as_float P)"

definition outcome_values_by_load :: "py_text \<Rightarrow> json \<Rightarrow> int list \<Rightarrow> string \<Rightarrow> json list res" where
  "outcome_values_by_load P run loads key = values_by_load P run loads (outcome_value P key)"

definition throughput_value :: "py_text \<Rightarrow> json \<Rightarrow> json res" where
  "throughput_value P stage = res_bnd (get_or stage ''throughput_ops_per_s'' (JFloat 0)) (as_float P)"

definition throughput_values_by_load :: "py_text \<Rightarrow> json \<Rightarrow> int list \<Rightarrow> json list res" where
  "throughput_values_by_load P run loads = values_by_load P run loads (throughput_value P)"

definition resource_peak_value :: "py_text \<Rightarrow> string \<Rightarrow> json \<Rightarrow> json res" where
  "resource_peak_value P resource_key stage =
     res_bnd (get_or stage ''server_metrics'' (JObj [])) (\<lambda>m. res_bnd (get_or m ''peak'' JNull) (\<lambda>peak.
     if \<not> truthy peak then Ok (JFloat 0) else res_bnd (get_or peak resource_key (JFloat 0)) (as_float P)))"

definition resource_peak_values_by_load :: "py_text \<Rightarrow> json \<Rightarrow> int list \<Rightarrow> string \<Rightarrow> json list res" where
  "resource_peak_values_by_load P run loads resource_key = values_by_load P run loads (resource_peak_value P resource_key)"

definition describe_report :: "py_text \<Rightarrow> json \<Rightarrow> pystr res" where
  "describe_report P run = res_bnd (get_or run ''scenario'' (JObj [])) (\<lambda>scenario.
     res_bnd (get_or run ''scenario_params'' (JObj [])) (\<lambda>params.
     res_bnd (get_or scenario ''mode'' (jstr ''unknown'')) (\<lambda>mode.
     res_bnd (get_or params ''file_size_bytes'' JNull) (\<lambda>file_size.
     res_bnd (get_or params ''chunk_size_bytes'' JNull) (\<lambda>chunk_size.
     res_bnd (get_or params ''rsa_key_pool_size'' JNull) (\<lambda>rsa_pool.
     res_bnd (if file_size = JNull then Ok [] else res_bnd (to_int P file_size) (\<lambda>n.
         res_bnd (human_file_size P (JInt n)) (\<lambda>h. Ok [lit ''file='' @ h]))) (\<lambda>file_part.
     Ok (join_with (lit '' | '') ([py_str P mode] @ file_part @
       (if chunk_size = JNull then [] else [lit ''chunk='' @ py_str P chunk_size]) @
       (if rsa_pool = JNull then [] else [lit ''rsa_pool='' @ py_str P rsa_pool]))))))))))"

text \<open>The frame of these figures: the common loads or \<open>ValueError\<close>, the lines, labels, title.\<close>

definition compare_figure :: "outside \<Rightarrow> json \<Rightarrow> json \<Rightarrow> (int list \<Rightarrow> unit script) \<Rightarrow> string \<Rightarrow> pystr \<Rightarrow> pystr \<Rightarrow> unit script" where
  "compare_figure X baseline candidate lines ylab title_text out_path = bnd (import_plt X) (\<lambda>_.
     bnd (lift_res (common_loads (sc_text X) baseline candidate)) (\<lambda>loads.
     if loads = [] then throw ValueError
     else block [plt X ''figure'' [] [(''figsize'', pair_of 9 6)], lines loads, labels X ''Load'' ylab,
       plt X ''title'' [JStr title_text] [], plt X ''legend'' [] [], faint_grid X ''grid'', finish_plot X out_path]))"

definition value_line :: "outside \<Rightarrow> int list \<Rightarrow> json list res \<Rightarrow> (string \<times> json) list \<Rightarrow> unit script" where
  "value_line X loads vals kws = bnd (lift_res vals) (\<lambda>ys. draw_line X ''plot'' (map JInt loads) ys kws)"

abbreviation solid :: "pystr \<Rightarrow> (string \<times> json) list" where
  "solid label \<equiv> [(''label'', JStr label)]"

abbreviation dashed :: "pystr \<Rightarrow> (string \<times> json) list" where
  "dashed label \<equiv> [(''linestyle'', jstr ''--''), (''label'', JStr label)]"

definition plot_stage8_latency_comparison :: "outside \<Rightarrow> json \<Rightarrow> json \<Rightarrow> pystr \<Rightarrow> unit script" where
  "plot_stage8_latency_comparison X baseline candidate = compare_figure X baseline candidate (\<lambda>loads.
     let values = (\<lambda>run. latency_values_by_load (sc_text X) run loads) in block [
     value_line X loads (values baseline ''avg'') (solid (lit ''baseline avg'')),
     value_line X loads (values candidate ''avg'') (solid (lit ''candidate avg'')),
     value_line X loads (values baseline ''p95'') (dashed (lit ''baseline p95'')),
     value_line X loads (values candidate ''p95'') (dashed (lit ''candidate p95''))])
     ''Latency (ms)'' (lit ''Stage 8 Benchmark Latency Comparison'')"

definition plot_stage8_timing_comparison :: "outside \<Rightarrow> json \<Rightarrow> json \<Rightarrow> pystr \<Rightarrow> pystr \<Rightarrow> unit script" where
  "plot_stage8_timing_comparison X baseline candidate out_path timing_key = compare_figure X baseline candidate (\<lambda>loads.
     let values = (\<lambda>run. timing_avg_values_by_load (sc_text X) run loads timing_key) in block [
     value_line X loads (values baseline) (solid (lit ''baseline '' @ timing_key)),
     value_line X loads (values candidate) (solid (lit ''candidate '' @ timing_key))])
     ''Timing avg (ms)'' (lit ''Stage 8 Timing Comparison: '' @ timing_key) out_path"

definition plot_stage8_outcome_comparison :: "outside \<Rightarrow> json \<Rightarrow> json \<Rightarrow> pystr \<Rightarrow> unit script" where
  "plot_stage8_outcome_comparison X baseline candidate = compare_figure X baseline candidate (\<lambda>loads.
     let values = (\<lambda>run. outcome_values_by_load (sc_text X) run loads) in block [
     value_line X loads (values baseline ''rejected'') (solid (lit ''baseline rejected'')),
     value_line X loads (values candidate ''rejected'') (solid (lit ''candidate rejected'')),
     value_line X loads (values baseline ''failed'') (dashed (lit ''baseline failed'')),
     value_line X loads (values candidate ''failed'') (dashed (lit ''candidate failed''))])
     ''Count'' (lit ''Stage 8 Rejections and Failures Comparison'')"

text \<open>The names of the timings in the first stage of a report.\<close>

definition first_timing_keys :: "json \<Rightarrow> pystr list res" where
  "first_timing_keys run = res_bnd (get_or run ''stages'' (JList [JObj []])) (\<lambda>ss. res_bnd (getfirst ss) (\<lambda>stage.
     res_bnd (get_or stage ''summary'' (JObj [])) (\<lambda>s. res_bnd (get_or s ''timings_ms'' (JObj [])) dict_keys)))"

definition generate_stage8_compare_plots :: "outside \<Rightarrow> pystr \<Rightarrow> pystr \<Rightarrow> pystr \<Rightarrow> unit script" where
  "generate_stage8_compare_plots X baseline_path candidate_path out_dir =
     bnd (load_run X baseline_path) (\<lambda>baseline. bnd (load_run X candidate_path) (\<lambda>candidate.
     bnd (block [
       emit X (Mkdir out_dir),
       plot_stage8_latency_comparison X baseline candidate (path_div out_dir (lit ''latency_avg_p95_comparison.png'')),
       plot_stage8_outcome_comparison X baseline candidate (path_div out_dir (lit ''outcomes_comparison.png''))]) (\<lambda>_.
     bnd (lift_res (first_timing_keys baseline)) (\<lambda>bk. bnd (lift_res (first_timing_keys candidate)) (\<lambda>ck. block [
       for_each (sort (remdups (filter (\<lambda>k. k \<in> set ck) bk))) (\<lambda>timing_key.
         plot_stage8_timing_comparison X baseline candidate (path_div out_dir (lit ''timing_'' @ timing_key @ lit ''.png'')) timing_key),
       print_line X (lit ''Generated Stage 8 comparison plots''),
       print_line X (lit ''baseline : '' @ baseline_path),
       print_line X (lit ''candidate: '' @ candidate_path),
       print_line X (lit ''out_dir  : '' @ out_dir),
       bnd (lift_res (describe_report (sc_text X) baseline)) (\<lambda>d. print_line X (lit ''baseline : '' @ d)),
       bnd (lift_res (describe_report (sc_text X) candidate)) (\<lambda>d. print_line X (lit ''candidate: '' @ d))])))))"

section \<open>Stage 6 against stage 8\<close>

definition plot_stage6_vs_stage8_latency :: "outside \<Rightarrow> json \<Rightarrow> json \<Rightarrow> pystr \<Rightarrow> unit script" where
  "plot_stage6_vs_stage8_latency X stage6 stage8 = compare_figure X stage6 stage8 (\<lambda>loads. block [
     value_line X loads (latency_values_by_load (sc_text X) stage6 loads ''p95'') (solid (lit ''Stage 6 p95'')),
     value_line X loads (latency_values_by_load (sc_text X) stage8 loads ''p95'') (solid (lit ''Stage 8 p95''))])
     ''p95 latency (ms)'' (lit ''Upload p95 latency: Stage 6 baseline vs Stage 8 post-streaming'')"

definition plot_stage6_vs_stage8_outcomes :: "outside \<Rightarrow> json \<Rightarrow> json \<Rightarrow> pystr \<Rightarrow> unit script" where
  "plot_stage6_vs_stage8_outcomes X stage6 stage8 = compare_figure X stage6 stage8 (\<lambda>loads.
     let values = (\<lambda>run. outcome_values_by_load (sc_text X) run loads) in block [
     value_line X loads (values stage6 ''rejected'') (solid (lit ''Stage 6 rejected'')),
     value_line X loads (values stage8 ''rejected'') (solid (lit ''Stage 8 rejected'')),
     value_line X loads (values stage6 ''failed'') (dashed (lit ''Stage 6 failed'')),
     value_line X loads (values stage8 ''failed'') (dashed (lit ''Stage 8 failed''))])
     ''Count'' (lit ''Upload overload outcomes: Stage 6 vs Stage 8'')"

definition plot_stage6_vs_stage8_throughput :: "outside \<Rightarrow> json \<Rightarrow> json \<Rightarrow> pystr \<Rightarrow> unit script" where
  "plot_stage6_vs_stage8_throughput X stage6 stage8 = compare_figure X stage6 stage8 (\<lambda>loads. block [
     value_line X loads (throughput_values_by_load (sc_text X) stage6 loads) (solid (lit ''Stage 6 throughput'')),
     value_line X loads (throughput_values_by_load (sc_text X) stage8 loads) (solid (lit ''Stage 8 throughput''))])
     ''Throughput (ops/s)'' (lit ''Upload throughput: Stage 6 vs Stage 8'')"

definition plot_stage6_vs_stage8_cpu :: "outside \<Rightarrow> json \<Rightarrow> json \<Rightarrow> pystr \<Rightarrow> unit script" where
  "plot_stage6_vs_stage8_cpu X stage6 stage8 = compare_figure X stage6 stage8 (\<lambda>loads. block [
     value_line X loads (resource_peak_values_by_load (sc_text X) stage6 loads ''cpu_percent'') (solid (lit ''Stage 6 CPU peak %'')),
     value_line X loads (resource_peak_values_by_load (sc_text X) stage8 loads ''cpu_percent'') (solid (lit ''Stage 8 CPU peak %''))])
     ''CPU peak (%)'' (lit ''Upload CPU peak: Stage 6 vs Stage 8'')"

definition plot_stage6_vs_stage8_resources :: "outside \<Rightarrow> json \<Rightarrow> json \<Rightarrow> pystr \<Rightarrow> unit script" where
  "plot_stage6_vs_stage8_resources X stage6 stage8 = compare_figure X stage6 stage8 (\<lambda>loads. block [
     value_line X loads (resource_peak_values_by_load (sc_text X) stage6 loads ''rss_mb'') (solid (lit ''Stage 6 RSS peak MB'')),
     value_line X loads (resource_peak_values_by_load (sc_text X) stage8 loads ''rss_mb'') (solid (lit ''Stage 8 RSS peak MB''))])
     ''RSS peak (MB)'' (lit ''Upload RSS peak: Stage 6 vs Stage 8'')"

definition generate_stage6_vs_stage8_plots :: "outside \<Rightarrow> pystr \<Rightarrow> pystr \<Rightarrow> pystr \<Rightarrow> unit script" where
  "generate_stage6_vs_stage8_plots X stage6_path stage8_path out_dir =
     bnd (load_run X stage6_path) (\<lambda>stage6. bnd (load_run X stage8_path) (\<lambda>stage8. block [
       emit X (Mkdir out_dir),
       plot_stage6_vs_stage8_latency X stage6 stage8 (path_div out_dir (lit ''latency_p95_comparison.png'')),
       plot_stage6_vs_stage8_outcomes X stage6 stage8 (path_div out_dir (lit ''outcomes_comparison.png'')),
       plot_stage6_vs_stage8_resources X stage6 stage8 (path_div out_dir (lit ''rss_peak_comparison.png'')),
       plot_stage6_vs_stage8_throughput X stage6 stage8 (path_div out_dir (lit ''throughput_comparison.png'')),
       plot_stage6_vs_stage8_cpu X stage6 stage8 (path_div out_dir (lit ''cpu_peak_comparison.png'')),
       print_line X (lit ''Generated Stage 6 vs Stage 8 comparison plots''),
       print_line X (lit ''stage6 : '' @ stage6_path),
       print_line X (lit ''stage8 : '' @ stage8_path),
       print_line X (lit ''out_dir: '' @ out_dir),
       print_line X (lit ''Note: this is a behavioral comparison across major protocol/upload changes, not a strict apples-to-apples microbenchmark.'')]))"

section \<open>The script\<close>

definition generate_legacy_stage6_plots :: "outside \<Rightarrow> pystr \<Rightarrow> unit script" where
  "generate_legacy_stage6_plots X dir = (let report = (\<lambda>name. path_div (RESULTS_DIR dir) (lit name));
       file = (\<lambda>name. path_div (OUTPUT_DIR dir) (lit name)) in
     bnd (load_run X (report ''2026-03-29T14-53-45Z_register_ramp.json'')) (\<lambda>register_run.
     bnd (load_run X (report ''2026-03-30T09-45-42Z_relogin_ramp.json'')) (\<lambda>relogin_run.
     bnd (load_run X (report ''2026-03-30T09-47-58Z_upload_ramp.json'')) (\<lambda>upload_run.
     bnd (load_run X (report ''2026-03-30T10-59-28Z_upload_ramp.json'')) (\<lambda>upload_100kb.
     bnd (load_run X (report ''2026-03-30T11-01-19Z_upload_ramp.json'')) (\<lambda>upload_1mb.
     bnd (load_run X (report ''2026-03-30T11-03-05Z_upload_ramp.json'')) (\<lambda>upload_5mb.
     bnd (load_run X (report ''2026-04-16T13-43-51Z_mixed_ramp.json'')) (\<lambda>mixed_100kb.
     bnd (load_run X (report ''2026-04-16T13-46-20Z_mixed_ramp.json'')) (\<lambda>mixed_1mb.
     bnd (load_run X (report ''2026-04-16T13-48-36Z_mixed_ramp.json'')) (\<lambda>mixed_5mb.
     let upload_size_runs = [upload_100kb, upload_1mb, upload_5mb]; mixed_size_runs = [mixed_100kb, mixed_1mb, mixed_5mb] in block [
       generate_all X dir (report ''2026-03-29T14-53-45Z_register_ramp.json''),
       generate_all X dir (report ''2026-03-30T09-45-42Z_relogin_ramp.json''),
       generate_all X dir (report ''2026-03-30T09-47-58Z_upload_ramp.json''),
       plot_latency_comparison X register_run relogin_run upload_run (file ''comparison_latency_p95.png'') ''p95'',
       plot_upload_size_latency_comparison X upload_size_runs (file ''upload_size_latency_p95.png''),
       plot_upload_size_throughput_comparison X upload_size_runs (file ''upload_size_throughput.png''),
       plot_upload_size_rejected_comparison X upload_size_runs (file ''upload_size_rejected.png''),
       plot_upload_size_overload_comparison X upload_size_runs (file ''upload_size_overload.png''),
       plot_upload_size_rss_comparison X upload_size_runs (file ''upload_size_rss.png''),
       plot_mixed_operation_latency X mixed_100kb (file ''mixed_100kb_operation_latency_p95.png'') ''p95'',
       print_line X (lit ''Generated mixed_100kb_operation_latency_p95.png''),
       plot_mixed_operation_outcomes X mixed_100kb (file ''mixed_100kb_operation_rejected.png''),
       print_line X (lit ''Generated mixed_100kb_operation_rejected.png''),
       plot_mixed_operation_success X mixed_100kb (file ''mixed_100kb_operation_success.png''),
       print_line X (lit ''Generated mixed_100kb_operation_success.png''),
       plot_mixed_upload_latency_by_size X mixed_size_runs (file ''mixed_upload_latency_p95_by_size.png''),
       print_line X (lit ''Generated mixed_upload_latency_p95_by_size.png''),
       plot_mixed_upload_rejected_by_size X mixed_size_runs (file ''mixed_upload_rejected_by_size.png''),
       print_line X (lit ''Generated mixed_upload_rejected_by_size.png'')]))))))))))"

text \<open>What \<open>parse_args\<close> gives: one of three commands with its paths.\<close>

datatype plot_command =
    LegacyStage6
  | Stage8Compare pystr pystr pystr
  | Stage6VsStage8 pystr pystr pystr

definition plot_main :: "outside \<Rightarrow> pystr \<Rightarrow> plot_command \<Rightarrow> int script" where
  "plot_main X dir command = bnd (emit X (Mkdir (OUTPUT_DIR dir))) (\<lambda>_. bnd (case command of
      LegacyStage6 \<Rightarrow> generate_legacy_stage6_plots X dir
    | Stage8Compare baseline candidate out_dir \<Rightarrow> generate_stage8_compare_plots X baseline candidate out_dir
    | Stage6VsStage8 stage6 stage8 out_dir \<Rightarrow> generate_stage6_vs_stage8_plots X stage6 stage8 out_dir) (\<lambda>_. ret 0))"

section \<open>The lists of a series\<close>

text \<open>\<open>column f stages ys\<close>: the list \<open>ys\<close> has what \<open>f\<close> reads off each of the stages, in order.\<close>

definition column :: "(json \<Rightarrow> json res) \<Rightarrow> json list \<Rightarrow> json list \<Rightarrow> bool" where
  "column f stages ys \<longleftrightarrow> list_all2 (\<lambda>stage y. f stage = Ok y) stages ys"

lemma column_Nil: "column f [] []"
  by (simp add: column_def)

lemma column_snoc: "column f stages ys \<Longrightarrow> f stage = Ok y \<Longrightarrow> column f (stages @ [stage]) (ys @ [y])"
  by (simp add: column_def list_all2_appendI)

lemma append_to_Ok: "append_to field value s = Ok s' \<longleftrightarrow> (\<exists>v. value = Ok v \<and> s' = field (\<lambda>xs. xs @ [v]) s)"
  by (auto simp: append_to_def res_bnd_Ok)

text \<open>A loop keeps a relation between the elements it has passed and its state.\<close>

lemma res_fold_passed:
  assumes "I seen s" and "\<And>seen s x s'. I seen s \<Longrightarrow> f s x = Ok s' \<Longrightarrow> I (seen @ [x]) s'" and "res_fold f s xs = Ok t"
  shows "I (seen @ xs) t"
  using assms(1,3)
proof (induction xs arbitrary: seen s)
  case (Cons x xs)
  then obtain s' where "f s x = Ok s'" "res_fold f s' xs = Ok t" by (auto simp: res_bnd_Ok)
  with Cons.IH [of "seen @ [x]" s'] Cons.prems(1) assms(2) show ?case by simp
qed simp

lemma stage_loop:
  assumes "res_bnd (stages_of run) (res_fold f s0) = Ok t" and "I [] s0"
    and "\<And>seen s x s'. I seen s \<Longrightarrow> f s x = Ok s' \<Longrightarrow> I (seen @ [x]) s'"
  shows "\<exists>stages. stages_of run = Ok stages \<and> I stages t"
proof -
  obtain stages where "stages_of run = Ok stages" "res_fold f s0 stages = Ok t" using assms(1) by (auto simp: res_bnd_Ok)
  with res_fold_passed [of I "[]" s0 f] assms(2,3) show ?thesis by fastforce
qed

abbreviation load_item :: "json \<Rightarrow> json res" where
  "load_item stage \<equiv> getitem stage ''load''"

abbreviation latency_item :: "string \<Rightarrow> json \<Rightarrow> json res" where
  "latency_item key stage \<equiv> getpath stage [''summary'', ''latency_ms'', key]"

abbreviation rate_item :: "string \<Rightarrow> json \<Rightarrow> json res" where
  "rate_item key stage \<equiv> rate_of stage [''summary'', key]"

abbreviation peak_item :: "string \<Rightarrow> json \<Rightarrow> json res" where
  "peak_item key stage \<equiv> getpath stage [''server_metrics'', ''peak'', key]"

definition series_of :: "json list \<Rightarrow> series \<Rightarrow> bool" where
  "series_of stages s \<longleftrightarrow> column load_item stages (v_loads s) \<and> column (latency_item ''avg'') stages (v_latency_avg s) \<and>
     column (latency_item ''p95'') stages (v_latency_p95 s) \<and> column (\<lambda>st. getitem st ''throughput_ops_per_s'') stages (v_throughput s) \<and>
     column (rate_item ''success_rate'') stages (v_success_rate s) \<and> column (rate_item ''rejected_rate'') stages (v_rejected_rate s) \<and>
     column (rate_item ''failure_rate'') stages (v_failure_rate s) \<and> column (peak_item ''cpu_percent'') stages (v_cpu_peak s) \<and>
     column (peak_item ''rss_mb'') stages (v_rss_peak s)"

lemma add_stage_series: "series_of seen s \<Longrightarrow> add_stage s stage = Ok s' \<Longrightarrow> series_of (seen @ [stage]) s'"
  unfolding add_stage_def res_bnd_Ok append_to_Ok series_of_def
  by (elim exE conjE) (simp add: column_snoc del: getpath.simps)

lemma extract_series_of: "extract_series run = Ok s \<Longrightarrow> \<exists>stages. stages_of run = Ok stages \<and> series_of stages s"
  by (rule stage_loop [where I = series_of, OF _ _ add_stage_series])
    (simp_all only: extract_series_def, simp add: series_of_def no_series_def column_Nil)

lemma extract_latency_of:
  assumes "extract_latency_series run key = Ok p"
  shows "\<exists>stages. stages_of run = Ok stages \<and> column load_item stages (fst p) \<and> column (latency_item key) stages (snd p)"
  using assms unfolding extract_latency_series_def
  by (rule stage_loop [where I = "\<lambda>stages p. column load_item stages (fst p) \<and> column (latency_item key) stages (snd p)"])
    (auto simp: append_to_Ok res_bnd_Ok column_snoc column_Nil simp del: getpath.simps)

text \<open>What a stage has on an operation; the stages without it are passed over.\<close>

definition of_operation :: "string \<Rightarrow> (json \<Rightarrow> json res) \<Rightarrow> json \<Rightarrow> json res" where
  "of_operation operation f stage = res_bnd (get_or stage ''per_operation_summaries'' JNull) (\<lambda>ops. res_bnd (getitem ops operation) f)"

abbreviation op_latency :: "string \<Rightarrow> string \<Rightarrow> json \<Rightarrow> json res" where
  "op_latency operation key \<equiv> of_operation operation (\<lambda>op. getpath op [''latency_ms'', key])"

abbreviation op_rate :: "string \<Rightarrow> string \<Rightarrow> json \<Rightarrow> json res" where
  "op_rate operation key \<equiv> of_operation operation (\<lambda>op. rate_of op [key])"

definition op_series_of :: "string \<Rightarrow> json list \<Rightarrow> op_series \<Rightarrow> bool" where
  "op_series_of operation stages s \<longleftrightarrow> column load_item stages (o_loads s) \<and>
     column (op_latency operation ''avg'') stages (o_latency_avg s) \<and> column (op_latency operation ''p95'') stages (o_latency_p95 s) \<and>
     column (op_rate operation ''success_rate'') stages (o_success_rate s) \<and>
     column (op_rate operation ''rejected_rate'') stages (o_rejected_rate s) \<and>
     column (op_rate operation ''failure_rate'') stages (o_failure_rate s)"

lemma add_op_stage_series:
  assumes "op_series_of operation seen s" and "add_op_stage operation s stage = Ok s'"
  shows "s' = s \<or> op_series_of operation (seen @ [stage]) s'"
proof -
  obtain ops where ops: "get_or stage ''per_operation_summaries'' JNull = Ok ops" using assms(2) by (auto simp: add_op_stage_def res_bnd_Ok)
  show ?thesis
  proof (cases "s' = s")
    case False
    then obtain op where op: "getitem ops operation = Ok op"
      using assms(2) ops by (auto simp: add_op_stage_def res_bnd_Ok split: if_splits)
    have "of_operation operation f stage = f op" for f by (simp add: of_operation_def ops op)
    with assms False ops op show ?thesis
      unfolding add_op_stage_def op_series_of_def
      by (auto simp: res_bnd_Ok append_to_Ok column_snoc simp del: getpath.simps split: if_splits)
  qed simp
qed

lemma extract_mixed_of:
  assumes "extract_mixed_operation_series run operation = Ok s"
  shows "\<exists>all stages. stages_of run = Ok all \<and> set stages \<subseteq> set all \<and> op_series_of operation stages s"
proof -
  let ?I = "\<lambda>all s. \<exists>stages. set stages \<subseteq> set all \<and> op_series_of operation stages s"
  have "?I (seen @ [x]) s'" if i: "?I seen s" and o: "add_op_stage operation s x = Ok s'" for seen s x s'
  proof -
    obtain stages where "set stages \<subseteq> set seen" "op_series_of operation stages s" using i by blast
    with add_op_stage_series [OF this(2) o] show ?thesis
      by (elim disjE) (rule exI [of _ stages], simp, blast, rule exI [of _ "stages @ [x]"], auto)
  qed
  moreover have "?I [] no_op_series" by (simp add: op_series_of_def no_op_series_def column_Nil)
  ultimately show ?thesis
    using stage_loop [OF assms [unfolded extract_mixed_operation_series_def], of ?I] by blast
qed

lemma update_elem: "e \<in> set (AList.update k v d) \<Longrightarrow> e = (k, v) \<or> e \<in> set d"
  by (induction d) (auto split: if_splits)

lemma by_load_elem:
  "by_load P d stages = Ok d' \<Longrightarrow> (n, stage) \<in> set d' \<Longrightarrow>
    (n, stage) \<in> set d \<or> stage \<in> set stages \<and> (\<exists>l. load_item stage = Ok l \<and> to_int P l = Ok n)"
  by (induction stages arbitrary: d) (auto simp: res_bnd_Ok dest!: update_elem)

section \<open>Every point is drawn over its load\<close>

text \<open>What the figures show of a stage.\<close>

inductive reading :: "py_text \<Rightarrow> (json \<Rightarrow> json res) \<Rightarrow> bool" for P where
  latency: "reading P (latency_item key)"
| throughput_item: "reading P (\<lambda>st. getitem st ''throughput_ops_per_s'')"
| rate_item: "reading P (rate_item key)"
| peak_item: "reading P (peak_item key)"
| op_latency: "reading P (op_latency operation key)"
| op_rate: "reading P (op_rate operation key)"
| timing_avg: "reading P (timing_avg_value P timing)"
| outcome: "reading P (outcome_value P key)"
| throughput: "reading P (throughput_value P)"
| resource_peak: "reading P (resource_peak_value P key)"

text \<open>The load of a stage, as it stands or through \<open>int\<close>; a line over the stages of one report that was read.\<close>

definition at_load :: "py_text \<Rightarrow> json \<Rightarrow> json \<Rightarrow> bool" where
  "at_load P stage x \<longleftrightarrow> (\<exists>l. load_item stage = Ok l \<and> (x = l \<or> (\<exists>n. to_int P l = Ok n \<and> x = JInt n)))"

definition report_line :: "outside \<Rightarrow> json list \<Rightarrow> json list \<Rightarrow> bool" where
  "report_line X xs ys \<longleftrightarrow> (\<exists>path run stages value. report_at X path = Ok run \<and> stages_of run = Ok stages \<and> reading (sc_text X) value \<and>
     list_all2 (\<lambda>x y. \<exists>stage \<in> set stages. at_load (sc_text X) stage x \<and> value stage = Ok y) xs ys)"

definition loaded :: "outside \<Rightarrow> json \<Rightarrow> bool" where
  "loaded X run \<longleftrightarrow> (\<exists>path. report_at X path = Ok run)"

lemma column_line:
  assumes "loaded X run" "stages_of run = Ok all" "set stages \<subseteq> set all"
    and "column load_item stages xs" "column value stages ys" "reading (sc_text X) value"
  shows "report_line X xs ys"
proof -
  have "list_all2 (\<lambda>x y. \<exists>stage \<in> set all. at_load (sc_text X) stage x \<and> value stage = Ok y) xs ys"
    using assms(3-5) by (fastforce simp: column_def list_all2_conv_all_nth at_load_def)
  with assms(1,2,6) show ?thesis unfolding loaded_def report_line_def by blast
qed

lemma values_by_load_line:
  assumes "loaded X run" "values_by_load (sc_text X) run loads value = Ok ys" "loads \<noteq> []" "reading (sc_text X) value"
  shows "report_line X (map JInt loads) ys"
proof -
  let ?P = "sc_text X"
  obtain ss stages d where d: "get_or run ''stages'' (JList []) = Ok ss" "py_iter ss = Ok stages" "by_load ?P [] stages = Ok d"
      "res_map (\<lambda>load. res_bnd (stage_at d load) value) loads = Ok ys"
    using assms(2) by (auto simp: values_by_load_def stages_by_load_def res_bnd_Ok)
  have m: "list_all2 (\<lambda>x y. \<exists>stage \<in> set stages. at_load ?P stage x \<and> value stage = Ok y) (map JInt loads) ys"
    using d(4)
  proof (induction loads arbitrary: ys)
    case (Cons load loads)
    then obtain stage y ys' where y: "map_of d load = Some stage" "value stage = Ok y" "ys = y # ys'"
        "res_map (\<lambda>load. res_bnd (stage_at d load) value) loads = Ok ys'"
      by (auto simp: res_bnd_Ok stage_at_def split: option.splits)
    then have "stage \<in> set stages \<and> at_load ?P stage (JInt load)"
      using by_load_elem [OF d(3)] map_of_SomeD by (fastforce simp: at_load_def)
    with y Cons.IH show ?case by auto
  qed simp
  moreover from m assms(3) have "stages \<noteq> []" by (cases loads) (auto simp: list_all2_Cons1)
  then have "stages_of run = Ok stages"
    using d(1,2) by (auto simp: stages_of_def getitem_def get_key_def py_iter_def split: json.splits option.splits)
  ultimately show ?thesis using assms(1,4) unfolding loaded_def report_line_def by blast
qed

text \<open>A run goes from \<open>tr\<close> to \<open>tr'\<close> with such lines only.\<close>

definition plot_calls :: "string set" where
  "plot_calls = {''plot'', ''axes[0].plot'', ''axes[1].plot''}"

fun well_drawn :: "outside \<Rightarrow> event \<Rightarrow> bool" where
  "well_drawn X (Call f args kws) = (f \<in> plot_calls \<longrightarrow> (\<exists>xs ys. args = [JList xs, JList ys] \<and> report_line X xs ys))"
| "well_drawn X _ = True"

definition drawn :: "outside \<Rightarrow> event list \<Rightarrow> event list \<Rightarrow> bool" where
  "drawn X tr tr' \<longleftrightarrow> (\<forall>ev \<in> set tr'. ev \<in> set tr \<or> well_drawn X ev)"

interpretation drawn: change_rel "drawn X" for X
  by unfold_locales (auto simp: drawn_def)

lemma keeps_drawn_emit: "well_drawn X ev \<Longrightarrow> keeps (drawn X) (emit X ev)"
  by (auto simp: keeps_def emit_def drawn_def split: option.split)

lemma keeps_drawn_import: "keeps (drawn X) (import_plt X)" "keeps (drawn X) (print_line X l)" "keeps (drawn X) (emit X (Mkdir d))"
  by (simp_all add: keeps_drawn_emit)

lemma keeps_drawn_call: "f \<notin> plot_calls \<Longrightarrow> keeps (drawn X) (plt X f args kws)"
  by (simp add: keeps_drawn_emit)

lemma keeps_drawn_line: "report_line X xs ys \<Longrightarrow> keeps (drawn X) (draw_line X f xs ys kws)"
  unfolding draw_line_def by (simp add: keeps_drawn_emit)

lemma keeps_drawn_load:
  assumes "\<And>run. loaded X run \<Longrightarrow> keeps (drawn X) (k run)"
  shows "keeps (drawn X) (bnd (load_run X path) k)"
proof (cases "path_exists X path")
  case True
  show ?thesis using assms unfolding load_run_def loaded_def by (auto simp: True intro: drawn.keeps_bnd_lift)
qed (auto simp: load_run_def keeps_def drawn.R_refl)

lemmas drawn_rules = keeps_drawn_import keeps_drawn_load drawn.keeps_bnd_lift drawn.keeps_bnd drawn.keeps_ret drawn.keeps_throw
  drawn.keeps_lift_res drawn.keeps_rd drawn.keeps_if drawn.keeps_case_prod drawn.keeps_for_each

lemma keeps_drawn_parts:
  "keeps (drawn X) (labels X xl yl)" "keeps (drawn X) (run_title X run e)" "keeps (drawn X) (finish_plot X out)"
  "keeps (drawn X) (legend_by_size X)" "keeps (drawn X) (faint_grid X ''grid'')" "keeps (drawn X) (faint_grid X ''axes[0].grid'')"
  "keeps (drawn X) (faint_grid X ''axes[1].grid'')"
  unfolding labels_def run_title_def finish_plot_def legend_by_size_def faint_grid_def block.simps
  by (intro drawn_rules keeps_drawn_call; simp add: plot_calls_def)+

text \<open>The lines of the series of a report.\<close>

lemma series_lines:
  assumes "loaded X run" "extract_series run = Ok s"
  shows "report_line X (v_loads s) (v_latency_avg s)" "report_line X (v_loads s) (v_latency_p95 s)"
    "report_line X (v_loads s) (v_throughput s)" "report_line X (v_loads s) (v_success_rate s)"
    "report_line X (v_loads s) (v_rejected_rate s)" "report_line X (v_loads s) (v_failure_rate s)"
    "report_line X (v_loads s) (v_cpu_peak s)" "report_line X (v_loads s) (v_rss_peak s)"
proof -
  obtain stages where s: "stages_of run = Ok stages" "series_of stages s" using extract_series_of [OF assms(2)] by blast
  note line = column_line [OF assms(1) s(1) subset_refl]
  show "report_line X (v_loads s) (v_latency_avg s)" "report_line X (v_loads s) (v_latency_p95 s)"
    "report_line X (v_loads s) (v_throughput s)" "report_line X (v_loads s) (v_success_rate s)"
    "report_line X (v_loads s) (v_rejected_rate s)" "report_line X (v_loads s) (v_failure_rate s)"
    "report_line X (v_loads s) (v_cpu_peak s)" "report_line X (v_loads s) (v_rss_peak s)"
    using s(2) unfolding series_of_def by (blast intro: line reading.intros)+
qed

lemma latency_line:
  assumes "loaded X run" "extract_latency_series run key = Ok p"
  shows "report_line X (fst p) (snd p)"
  using extract_latency_of [OF assms(2)] column_line [OF assms(1)] reading.latency by blast

lemma op_lines:
  assumes "loaded X run" "extract_mixed_operation_series run operation = Ok s"
    and "value \<in> {o_latency_avg, o_latency_p95, o_success_rate, o_rejected_rate, o_failure_rate}"
  shows "report_line X (o_loads s) (value s)"
proof -
  obtain all stages where s: "stages_of run = Ok all" "set stages \<subseteq> set all" "op_series_of operation stages s"
    using extract_mixed_of [OF assms(2)] by blast
  note line = column_line [OF assms(1) s(1,2)]
  show ?thesis using s(3) assms(3) unfolding op_series_of_def by (auto intro: line reading.op_latency reading.op_rate simp del: getpath.simps)
qed

lemma keeps_drawn_run:
  assumes "loaded X run"
  shows "keeps (drawn X) (plot_latency X run out)" "keeps (drawn X) (plot_throughput X run out)" "keeps (drawn X) (plot_outcomes X run out)"
    "keeps (drawn X) (plot_cpu X run out)" "keeps (drawn X) (plot_rss X run out)"
  unfolding plot_latency_def plot_throughput_def plot_outcomes_def plot_cpu_def plot_rss_def block.simps
  by (intro drawn_rules keeps_drawn_parts keeps_drawn_line series_lines [OF assms] keeps_drawn_call; simp add: plot_calls_def)+

lemma keeps_drawn_all: "keeps (drawn X) (generate_all X dir path)"
  unfolding generate_all_def block.simps Let_def by (intro drawn_rules keeps_drawn_run)

lemma keeps_drawn_latency_comparison:
  assumes "loaded X a" "loaded X b" "loaded X c"
  shows "keeps (drawn X) (plot_latency_comparison X a b c out key)"
  unfolding plot_latency_comparison_def block.simps
  by (intro drawn_rules keeps_drawn_parts keeps_drawn_line keeps_drawn_call;
      (erule latency_line [OF assms(1)] latency_line [OF assms(2)] latency_line [OF assms(3)])?; simp add: plot_calls_def)

lemma keeps_drawn_by_size:
  assumes "loaded X run" "\<And>s label. extract_series run = Ok s \<Longrightarrow> keeps (drawn X) (body s label)"
  shows "keeps (drawn X) (by_size X run body)"
  unfolding by_size_def extract_upload_size_series_def by (intro drawn_rules assms(2)) (auto simp: res_bnd_Ok)

lemma keeps_drawn_size_max:
  assumes "\<And>run. run \<in> set runs \<Longrightarrow> loaded X run" and "value = v_latency_p95 \<or> value = v_rss_peak"
  shows "keeps (drawn X) (by_size_max X value m runs)"
  using assms(1)
proof (induction runs arbitrary: m)
  case (Cons run runs)
  have l: "report_line X (v_loads s) (value s)" if "extract_series run = Ok s" for s
    using series_lines [OF Cons.prems [of run] that] assms(2) by auto
  show ?case unfolding by_size_max.simps
    by (intro drawn_rules keeps_drawn_by_size keeps_drawn_line l Cons.IH) (use Cons.prems in simp_all)
qed (simp add: drawn.keeps_ret)

lemma keeps_drawn_sizes:
  assumes "\<And>run. run \<in> set runs \<Longrightarrow> loaded X run"
  shows "keeps (drawn X) (plot_upload_size_latency_comparison X runs out)" "keeps (drawn X) (plot_upload_size_throughput_comparison X runs out)"
    "keeps (drawn X) (plot_upload_size_rejected_comparison X runs out)" "keeps (drawn X) (plot_upload_size_rss_comparison X runs out)"
    "keeps (drawn X) (plot_upload_size_overload_comparison X runs out)"
  unfolding plot_upload_size_latency_comparison_def plot_upload_size_throughput_comparison_def
    plot_upload_size_rejected_comparison_def plot_upload_size_rss_comparison_def plot_upload_size_overload_comparison_def block.simps
  by (intro drawn_rules keeps_drawn_size_max keeps_drawn_by_size keeps_drawn_parts keeps_drawn_line series_lines [OF assms] keeps_drawn_call;
      simp add: assms plot_calls_def)+

lemma keeps_drawn_op:
  assumes "loaded X run" and "value \<in> {o_latency_avg, o_latency_p95, o_success_rate, o_rejected_rate, o_failure_rate}"
  shows "keeps (drawn X) (op_line X run op value kws)" "keeps (drawn X) (mixed_by_size X value run)"
  unfolding mixed_by_size_def op_line_def by (intro drawn_rules keeps_drawn_line op_lines [OF assms(1) _ assms(2)]; assumption)+

lemma keeps_drawn_mixed:
  assumes "loaded X run"
  shows "keeps (drawn X) (plot_mixed_operation_latency X run out key)" "keeps (drawn X) (plot_mixed_operation_outcomes X run out)"
    "keeps (drawn X) (plot_mixed_operation_success X run out)"
  unfolding plot_mixed_operation_latency_def plot_mixed_operation_outcomes_def plot_mixed_operation_success_def block.simps
  by (intro drawn_rules keeps_drawn_op keeps_drawn_parts keeps_drawn_call assms; simp add: plot_calls_def)+

lemma keeps_drawn_mixed_sizes:
  assumes "\<And>run. run \<in> set runs \<Longrightarrow> loaded X run"
  shows "keeps (drawn X) (plot_mixed_upload_latency_by_size X runs out)" "keeps (drawn X) (plot_mixed_upload_rejected_by_size X runs out)"
  unfolding plot_mixed_upload_latency_by_size_def plot_mixed_upload_rejected_by_size_def block.simps
  by (intro drawn_rules keeps_drawn_op keeps_drawn_parts keeps_drawn_call; simp add: assms plot_calls_def)+

text \<open>The lines of two reports over their common loads.\<close>

lemma keeps_drawn_values:
  assumes "loaded X run" "loads \<noteq> []" "vals = values_by_load (sc_text X) run loads value" "reading (sc_text X) value"
  shows "keeps (drawn X) (value_line X loads vals kws)"
  unfolding value_line_def assms(3) by (intro drawn_rules keeps_drawn_line values_by_load_line [OF assms(1) _ assms(2,4)])

lemma keeps_drawn_compare:
  "(\<And>loads. loads \<noteq> [] \<Longrightarrow> keeps (drawn X) (lines loads)) \<Longrightarrow> keeps (drawn X) (compare_figure X a b lines yl t out)"
  unfolding compare_figure_def block.simps
  by (intro drawn_rules keeps_drawn_parts keeps_drawn_call; simp add: plot_calls_def)

lemmas by_load_values = latency_values_by_load_def timing_avg_values_by_load_def outcome_values_by_load_def throughput_values_by_load_def
  resource_peak_values_by_load_def

lemma keeps_drawn_comparisons:
  assumes "loaded X a" "loaded X b"
  shows "keeps (drawn X) (plot_stage8_latency_comparison X a b out)" "keeps (drawn X) (plot_stage8_timing_comparison X a b out timing)"
    "keeps (drawn X) (plot_stage8_outcome_comparison X a b out)" "keeps (drawn X) (plot_stage6_vs_stage8_latency X a b out)"
    "keeps (drawn X) (plot_stage6_vs_stage8_outcomes X a b out)" "keeps (drawn X) (plot_stage6_vs_stage8_throughput X a b out)"
    "keeps (drawn X) (plot_stage6_vs_stage8_cpu X a b out)" "keeps (drawn X) (plot_stage6_vs_stage8_resources X a b out)"
  unfolding plot_stage8_latency_comparison_def plot_stage8_timing_comparison_def plot_stage8_outcome_comparison_def
    plot_stage6_vs_stage8_latency_def plot_stage6_vs_stage8_outcomes_def plot_stage6_vs_stage8_throughput_def
    plot_stage6_vs_stage8_cpu_def plot_stage6_vs_stage8_resources_def by_load_values block.simps Let_def
  by (intro keeps_drawn_compare drawn_rules keeps_drawn_values [OF assms(1) _ refl] keeps_drawn_values [OF assms(2) _ refl] reading.intros;
      assumption)+

lemma keeps_drawn_generators:
  "keeps (drawn X) (generate_stage8_compare_plots X bp cp dir)" "keeps (drawn X) (generate_stage6_vs_stage8_plots X bp cp dir)"
  "keeps (drawn X) (generate_legacy_stage6_plots X sdir)"
  unfolding generate_stage8_compare_plots_def generate_stage6_vs_stage8_plots_def generate_legacy_stage6_plots_def block.simps Let_def
  by (intro drawn_rules keeps_drawn_comparisons keeps_drawn_all keeps_drawn_latency_comparison keeps_drawn_sizes keeps_drawn_mixed
      keeps_drawn_mixed_sizes; (assumption | simp only: list.set insert_iff empty_iff; elim disjE; simp))+

text \<open>C40: every point of every line stands over the load of its own stage: whatever command the plotting script is given, whatever the
  reports contain and whatever fails, each line it draws shows one reading (a latency, the throughput, a rate,
  a peak, a count, a timing, an operation's latency or rate) of stages of one of the reports it read, and every value is that reading of a
  stage whose load is the abscissa; so no line has more values than abscissas or the other way round.\<close>

theorem plots_paired:
  assumes "plot_main X dir command [] = (r, tr)" and "Call f args kws \<in> set tr" and "f \<in> {''plot'', ''axes[0].plot'', ''axes[1].plot''}"
  shows "\<exists>xs ys path run stages value. args = [JList xs, JList ys] \<and> length xs = length ys \<and>
    report_at X path = Ok run \<and> stages_of run = Ok stages \<and> reading (sc_text X) value \<and>
    (\<forall>i < length xs. \<exists>stage \<in> set stages. at_load (sc_text X) stage (xs ! i) \<and> value stage = Ok (ys ! i))"
proof -
  have "keeps (drawn X) (plot_main X dir command)"
    unfolding plot_main_def
    by (cases command; simp only: plot_command.case; intro drawn_rules keeps_drawn_generators)
  from keepsD [OF this assms(1)] assms(2) have "well_drawn X (Call f args kws)" by (auto simp: drawn_def)
  with assms(3) obtain xs ys where l: "args = [JList xs, JList ys]" "report_line X xs ys" by (auto simp: plot_calls_def)
  then show ?thesis unfolding report_line_def list_all2_conv_all_nth by blast
qed

text \<open>A run that gets as far as its first line.\<close>

definition plots_example :: outside where
  "plots_example = \<lparr>sc_text = text_example,
     report_at = (\<lambda>_. Ok (JObj [(lit ''stages'', JList [JObj [(lit ''load'', JInt 10), (lit ''summary'', JObj [(lit ''latency_ms'', JObj [(lit ''p95'', JInt 7)])])]])])),
     path_exists = (\<lambda>_. True), outcome = (\<lambda>n. if n = 5 then Some OSError else None), handles_labels = (\<lambda>_. (JNull, JNull))\<rparr>"

theorem plots_paired_witness:
  "\<exists>r tr kws. plot_main plots_example (lit ''d'') (Stage6VsStage8 (lit ''a'') (lit ''b'') (lit ''o'')) [] = (r, tr) \<and>
     Call ''plot'' [JList [JInt 10], JList [JInt 7]] kws \<in> set tr \<and>
     (\<exists>path run stages value. report_at plots_example path = Ok run \<and> stages_of run = Ok stages \<and> reading text_example value \<and>
       (\<exists>stage \<in> set stages. at_load text_example stage (JInt 10) \<and> value stage = Ok (JInt 7)))"
proof -
  have "\<exists>tr kws. plot_main plots_example (lit ''d'') (Stage6VsStage8 (lit ''a'') (lit ''b'') (lit ''o'')) [] = (Raise OSError, tr) \<and>
      Call ''plot'' [JList [JInt 10], JList [JInt 7]] kws \<in> set tr"
    by (simp add: plot_main_def generate_stage6_vs_stage8_plots_def load_run_def plot_stage6_vs_stage8_latency_def compare_figure_def
        common_loads_def stages_by_load_def get_key_def py_iter_def getitem_def to_int_def py_trunc_def common_keys_def value_line_def
        latency_values_by_load_def values_by_load_def stage_at_def draw_line_def emit_def bnd_assoc plots_example_def lit_def)
  then obtain tr kws where t: "plot_main plots_example (lit ''d'') (Stage6VsStage8 (lit ''a'') (lit ''b'') (lit ''o'')) [] = (Raise OSError, tr)"
      "Call ''plot'' [JList [JInt 10], JList [JInt 7]] kws \<in> set tr" by blast
  have "sc_text plots_example = text_example" by (simp add: plots_example_def)
  with plots_paired [OF t] have "\<exists>path run stages value. report_at plots_example path = Ok run \<and> stages_of run = Ok stages \<and>
      reading text_example value \<and> (\<exists>stage \<in> set stages. at_load text_example stage (JInt 10) \<and> value stage = Ok (JInt 7))"
    by auto
  with t show ?thesis by blast
qed

end
