(* ===== verification/Load_Report.thy ===== *)
theory Load_Report
  imports Report_Plots
begin

text \<open>
  The measurements of \<open>server/tools/load_test.py\<close>: the summary a stage of the load test
  accumulates from the results of its clients, the percentiles, and the report it writes,
  which the scripts of \<open>Report_Compare\<close> and \<open>Report_Plots\<close> read. \<open>json.dump\<close> and
  \<open>json.load\<close> are inverse on such reports, so that both sides are the same value here.
\<close>

section \<open>Summaries\<close>

definition percentile :: "real list \<Rightarrow> int \<Rightarrow> real" where
  "percentile values p = (if values = [] then 0
     else let ordered = sort values;
              idx = \<lceil>real_of_int p / 100 * real (length ordered)\<rceil> - 1;
              idx' = max 0 (min idx (len ordered - 1))
          in ordered ! nat idx')"

record result =
  r_ok :: bool
  duration_ms :: real
  r_error :: "pystr option"
  r_rejected :: bool
  r_timings_ms :: "(pystr \<times> real) list"

record summary =
  s_name :: pystr
  s_total :: int
  s_ok :: int
  s_failed :: int
  durations_ms :: "real list"
  s_errors :: "(pystr \<times> int) list"
  s_rejected :: int
  s_timings_ms :: "(pystr \<times> real list) list"

definition summary_new :: "pystr \<Rightarrow> summary" where
  "summary_new name = \<lparr>s_name = name, s_total = 0, s_ok = 0, s_failed = 0, durations_ms = [], s_errors = [], s_rejected = 0, s_timings_ms = []\<rparr>"

definition dict_at :: "('k \<times> 'v) list \<Rightarrow> 'k \<Rightarrow> 'v \<Rightarrow> 'v" where
  "dict_at d k v = (case map_of d k of Some x \<Rightarrow> x | None \<Rightarrow> v)"

definition error_key :: "result \<Rightarrow> string \<Rightarrow> pystr" where
  "error_key r otherwise = (case r_error r of None \<Rightarrow> lit otherwise | Some e \<Rightarrow> if e = [] then lit otherwise else e)"

definition count_error :: "pystr \<Rightarrow> summary \<Rightarrow> summary" where
  "count_error k s = s\<lparr>s_errors := AList.update k (dict_at (s_errors s) k 0 + 1) (s_errors s)\<rparr>"

definition add_timing :: "summary \<Rightarrow> pystr \<times> real \<Rightarrow> summary" where
  "add_timing s = (\<lambda>(name, value). s\<lparr>s_timings_ms := AList.update name (dict_at (s_timings_ms s) name [] @ [value]) (s_timings_ms s)\<rparr>)"

definition summary_add :: "summary \<Rightarrow> result \<Rightarrow> summary" where
  "summary_add s0 r = (let s = s0\<lparr>s_total := s_total s0 + 1\<rparr>;
       s1 = (if r_ok r then s\<lparr>s_ok := s_ok s + 1, durations_ms := durations_ms s @ [duration_ms r]\<rparr>
         else if r_rejected r then count_error (error_key r ''rejected'') (s\<lparr>s_rejected := s_rejected s + 1\<rparr>)
         else count_error (error_key r ''unknown'') (s\<lparr>s_failed := s_failed s + 1\<rparr>))
     in foldl add_timing s1 (r_timings_ms r))"

definition rate :: "int \<Rightarrow> summary \<Rightarrow> real" where
  "rate n s = (if s_total s = 0 then 0 else of_int n / of_int (s_total s))"

definition success_rate :: "summary \<Rightarrow> real" where "success_rate s = rate (s_ok s) s"
definition failure_rate :: "summary \<Rightarrow> real" where "failure_rate s = rate (s_failed s) s"
definition rejected_rate :: "summary \<Rightarrow> real" where "rejected_rate s = rate (s_rejected s) s"

definition mean_or_zero :: "real list \<Rightarrow> real" where
  "mean_or_zero xs = (if xs = [] then 0 else sum_list xs / of_nat (length xs))"

definition max_or_zero :: "real list \<Rightarrow> real" where
  "max_or_zero xs = (if xs = [] then 0 else Max (set xs))"

section \<open>The report\<close>

definition timing_summary_to_dict :: "real list \<Rightarrow> json" where
  "timing_summary_to_dict values = JObj [
     (lit ''avg'', JFloat (mean_or_zero values)), (lit ''p50'', JFloat (percentile values 50)),
     (lit ''p95'', JFloat (percentile values 95)), (lit ''p99'', JFloat (percentile values 99)),
     (lit ''max'', JFloat (max_or_zero values))]"

definition summary_to_dict :: "summary \<Rightarrow> json" where
  "summary_to_dict s = JObj [
     (lit ''total'', JInt (s_total s)), (lit ''ok'', JInt (s_ok s)), (lit ''failed'', JInt (s_failed s)),
     (lit ''rejected'', JInt (s_rejected s)), (lit ''success_rate'', JFloat (success_rate s)),
     (lit ''failure_rate'', JFloat (failure_rate s)), (lit ''rejected_rate'', JFloat (rejected_rate s)),
     (lit ''latency_ms'', timing_summary_to_dict (durations_ms s)),
     (lit ''errors'', JObj (map (\<lambda>(k, n). (k, JInt n)) (s_errors s))),
     (lit ''timings_ms'', JObj (map (\<lambda>(k, values). (k, timing_summary_to_dict values)) (s_timings_ms s)))]"

record metrics_snapshot =
  rss_mb :: real
  cpu_percent :: real
  num_threads :: int

definition metrics_snapshot_to_dict :: "metrics_snapshot option \<Rightarrow> json" where
  "metrics_snapshot_to_dict snapshot = (case snapshot of None \<Rightarrow> JNull
    | Some m \<Rightarrow> JObj [(lit ''rss_mb'', JFloat (rss_mb m)), (lit ''cpu_percent'', JFloat (cpu_percent m)), (lit ''num_threads'', JInt (num_threads m))])"

record stage_report =
  sr_load :: int
  sr_summary :: summary
  metrics_before :: "metrics_snapshot option"
  metrics_after :: "metrics_snapshot option"
  metrics_peak :: "metrics_snapshot option"
  elapsed_s :: real
  per_operation_summaries :: "(pystr \<times> summary) list option"
  stop_reason :: "pystr option"

definition opt_str :: "pystr option \<Rightarrow> json" where
  "opt_str v = (case v of None \<Rightarrow> JNull | Some s \<Rightarrow> JStr s)"

definition stage_report_to_dict :: "stage_report \<Rightarrow> int \<Rightarrow> json res" where
  "stage_report_to_dict r concurrency = (if elapsed_s r = 0 then Raise ZeroDivisionError else Ok (JObj [
     (lit ''load'', JInt (sr_load r)), (lit ''concurrency'', JInt concurrency), (lit ''elapsed_s'', JFloat (elapsed_s r)),
     (lit ''stop_reason'', opt_str (stop_reason r)),
     (lit ''throughput_ops_per_s'', JFloat (of_int (s_ok (sr_summary r)) / elapsed_s r)),
     (lit ''summary'', summary_to_dict (sr_summary r)),
     (lit ''server_metrics'', JObj [(lit ''before'', metrics_snapshot_to_dict (metrics_before r)),
        (lit ''after'', metrics_snapshot_to_dict (metrics_after r)), (lit ''peak'', metrics_snapshot_to_dict (metrics_peak r))]),
     (lit ''per_operation_summaries'', (case per_operation_summaries r of None \<Rightarrow> JNull
        | Some ops \<Rightarrow> JObj (map (\<lambda>(k, s). (k, summary_to_dict s)) ops)))]))"

record load_args =
  a_run_id :: pystr
  a_host :: pystr
  a_port :: int
  a_server_pid :: "int option"
  a_ramp :: pystr
  a_concurrency :: int
  a_pause :: real
  stop_failure_rate :: real
  stop_p95_ms :: real
  stop_rss_mb :: real
  stop_cpu_percent :: real
  a_io_timeout :: real
  a_rsa_key_pool_size :: int
  a_server_data_dir :: pystr
  a_hold :: real
  a_connect_timeout :: real
  a_file_size :: int
  a_chunk_size :: int

fun split_commas :: "pystr \<Rightarrow> pystr list" where
  "split_commas [] = [[]]"
| "split_commas (c # cs) = (if c = 44 then [] # split_commas cs
     else case split_commas cs of [] \<Rightarrow> [[c]] | p # ps \<Rightarrow> (c # p) # ps)"

definition parse_ramp :: "py_text \<Rightarrow> pystr \<Rightarrow> int list res" where
  "parse_ramp P ramp = res_bnd (res_map (py_int (digit_value P)) (filter (\<lambda>p. p \<noteq> []) (map str_strip (split_commas ramp)))) (\<lambda>values.
     if values = [] then Raise ValueError else Ok values)"

definition build_scenario_params :: "load_args \<Rightarrow> string \<Rightarrow> json" where
  "build_scenario_params a mode = JObj ([
     (lit ''io_timeout_s'', JFloat (a_io_timeout a)), (lit ''rsa_key_pool_size'', JInt (a_rsa_key_pool_size a)),
     (lit ''server_data_dir'', JStr (a_server_data_dir a))] @
     (if mode = ''idle'' then [(lit ''hold_s'', JFloat (a_hold a)), (lit ''connect_timeout_s'', JFloat (a_connect_timeout a)),
        (lit ''file_size_bytes'', JNull), (lit ''chunk_size_bytes'', JNull)]
      else if mode \<in> {''upload'', ''mixed'', ''idle_upload''} then [(lit ''hold_s'', JNull), (lit ''connect_timeout_s'', JNull),
        (lit ''file_size_bytes'', JInt (a_file_size a)), (lit ''chunk_size_bytes'', JInt (a_chunk_size a))]
      else [(lit ''hold_s'', JNull), (lit ''connect_timeout_s'', JNull), (lit ''file_size_bytes'', JNull), (lit ''chunk_size_bytes'', JNull)]))"

definition has_text :: "pystr option \<Rightarrow> bool" where
  "has_text v = (case v of None \<Rightarrow> False | Some s \<Rightarrow> s \<noteq> [])"

definition stopped_early :: "stage_report list \<Rightarrow> bool" where
  "stopped_early reports \<longleftrightarrow> reports \<noteq> [] \<and> has_text (stop_reason (last reports))"

definition build_final_status :: "stage_report list \<Rightarrow> int \<Rightarrow> json" where
  "build_final_status reports exit_code = JObj [
     (lit ''completed_all_stages'', JBool (\<not> stopped_early reports)), (lit ''stopped_early'', JBool (stopped_early reports)),
     (lit ''final_exit_code'', JInt exit_code)]"

text \<open>\<open>created_at\<close> is the clock's text; the dictionary's values are evaluated in order.\<close>

definition run_report_to_dict :: "py_text \<Rightarrow> pystr \<Rightarrow> load_args \<Rightarrow> string \<Rightarrow> stage_report list \<Rightarrow> int \<Rightarrow> json res" where
  "run_report_to_dict P created_at a mode reports exit_code = res_bnd (parse_ramp P (a_ramp a)) (\<lambda>ramp.
     res_bnd (res_map (\<lambda>r. stage_report_to_dict r (min (a_concurrency a) (sr_load r))) reports) (\<lambda>stages. Ok (JObj [
     (lit ''run_id'', JStr (a_run_id a)), (lit ''created_at'', JStr created_at), (lit ''tool_version'', jstr ''stage6-v1''),
     (lit ''server'', JObj [(lit ''host'', JStr (a_host a)), (lit ''port'', JInt (a_port a)),
        (lit ''server_pid'', (case a_server_pid a of None \<Rightarrow> JNull | Some n \<Rightarrow> JInt n))]),
     (lit ''scenario'', JObj [(lit ''mode'', jstr mode), (lit ''ramp'', JList (map JInt ramp)),
        (lit ''concurrency_limit'', JInt (a_concurrency a)), (lit ''pause_between_stages_s'', JFloat (a_pause a))]),
     (lit ''thresholds'', JObj [(lit ''stop_failure_rate'', JFloat (stop_failure_rate a)), (lit ''stop_p95_ms'', JFloat (stop_p95_ms a)),
        (lit ''stop_rss_mb'', JFloat (stop_rss_mb a)), (lit ''stop_cpu_percent'', JFloat (stop_cpu_percent a))]),
     (lit ''scenario_params'', build_scenario_params a mode),
     (lit ''stages'', JList stages),
     (lit ''final_status'', build_final_status reports exit_code)])))"

text \<open>When a ramp stops, and the exit code.\<close>

definition should_stop :: "load_args \<Rightarrow> stage_report \<Rightarrow> pystr option" where
  "should_stop a r = (let s = sr_summary r; p95 = percentile (durations_ms s) 95 in
     if failure_rate s > stop_failure_rate a
       then Some (lit ''failure_rate '' @ fixed 1 (failure_rate s * 100) @ lit ''% > threshold '' @ fixed 1 (stop_failure_rate a * 100) @ lit ''%'')
     else if p95 > stop_p95_ms a then Some (lit ''p95 '' @ fixed 2 p95 @ lit ''ms > threshold '' @ fixed 2 (stop_p95_ms a) @ lit ''ms'')
     else case metrics_peak r of None \<Rightarrow> None
     | Some m \<Rightarrow>
       if rss_mb m > stop_rss_mb a then Some (lit ''rss '' @ fixed 1 (rss_mb m) @ lit ''MB > threshold '' @ fixed 1 (stop_rss_mb a) @ lit ''MB'')
       else if cpu_percent m > stop_cpu_percent a
         then Some (lit ''cpu '' @ fixed 1 (cpu_percent m) @ lit ''% > threshold '' @ fixed 1 (stop_cpu_percent a) @ lit ''%'')
       else None)"

definition ramp_exit_code :: "stage_report list \<Rightarrow> int" where
  "ramp_exit_code reports = (if stopped_early reports then 2
     else if list_all (\<lambda>r. s_failed (sr_summary r) = 0) reports then 0 else 1)"

text \<open>The loop of \<open>run_ramp\<close> over the stages as they would come out: it ends at the first that stops it.\<close>

primrec ramp_stages :: "load_args \<Rightarrow> stage_report list \<Rightarrow> stage_report list" where
  "ramp_stages a [] = []"
| "ramp_stages a (r # rs) = (let r' = r\<lparr>stop_reason := should_stop a r\<rparr> in
     r' # (if has_text (stop_reason r') then [] else ramp_stages a rs))"

section \<open>Percentiles\<close>

lemma sorted_rank:
  assumes "sorted xs" and "i < length xs"
  shows "i < length (filter (\<lambda>v. v \<le> xs ! i) xs)" "length (filter (\<lambda>v. v < xs ! i) xs) \<le> i"
proof -
  have "filter (\<lambda>v. v \<le> xs ! i) (take (Suc i) xs) = take (Suc i) xs"
    using assms by (auto simp: filter_id_conv in_set_conv_nth sorted_nth_mono)
  then have "Suc i \<le> length (filter (\<lambda>v. v \<le> xs ! i) (take (Suc i) xs @ drop (Suc i) xs))"
    using assms(2) by (simp only: filter_append length_append) simp
  then show "i < length (filter (\<lambda>v. v \<le> xs ! i) xs)" by simp
  have "filter (\<lambda>v. v < xs ! i) (drop i xs) = []"
    using assms by (auto simp: filter_empty_conv in_set_conv_nth sorted_nth_mono not_less)
  then have "length (filter (\<lambda>v. v < xs ! i) (take i xs @ drop i xs)) \<le> length (take i xs)"
    by (simp only: filter_append length_append list.size add_0_right length_filter_le)
  then show "length (filter (\<lambda>v. v < xs ! i) xs) \<le> i" by simp
qed

lemma filter_sort_length: "length (filter q (sort xs)) = length (filter q (xs :: real list))"
  by (metis filter_sort length_sort)

text \<open>\<open>percentile\<close> is the nearest-rank percentile: for a list of measurements and \<open>0 < p \<le> 100\<close> it is one of them,
  at least \<open>p\<close> percent of them are not above it, and fewer than \<open>p\<close> percent are below it.\<close>

lemma percentile_nearest_rank:
  assumes "values \<noteq> []" and "0 < p" "p \<le> 100"
  shows "percentile values p \<in> set values \<and>
    of_int p / 100 * real (length values) \<le> real (length (filter (\<lambda>v. v \<le> percentile values p) values)) \<and>
    real (length (filter (\<lambda>v. v < percentile values p) values)) < of_int p / 100 * real (length values)"
proof -
  let ?n = "length values" and ?s = "sort values"
  define x where "x = real_of_int p / 100 * real ?n"
  define i where "i = nat (\<lceil>x\<rceil> - 1)"
  have "0 < real ?n" using assms(1) by simp
  then have "0 < x" unfolding x_def using assms(2) by simp
  moreover have "x \<le> real ?n" unfolding x_def using assms(3) mult_right_mono [of "real_of_int p / 100" 1 "real ?n"] by simp
  ultimately have c: "0 < \<lceil>x\<rceil>" "\<lceil>x\<rceil> \<le> int ?n" by (simp_all add: ceiling_le_iff)
  then have i: "i < ?n" "real i < x" "x \<le> real (Suc i)" unfolding i_def by linarith+
  have v: "percentile values p = ?s ! i"
    using assms(1) c unfolding percentile_def i_def x_def Let_def length_sort by (simp add: max_absorb2 min_absorb1)
  have "?s ! i \<in> set values" using i(1) by (metis length_sort nth_mem set_sort)
  moreover have "i < length (filter (\<lambda>u. u \<le> ?s ! i) values)" "length (filter (\<lambda>u. u < ?s ! i) values) \<le> i"
    using sorted_rank [of ?s i] i(1) by (simp_all add: filter_sort_length)
  ultimately show ?thesis using i(2,3) unfolding v x_def [symmetric] by simp
qed

section \<open>The counts of a summary\<close>

lemma sum_update: "sum_list (map snd (AList.update k v d)) = sum_list (map snd d) + (v - dict_at d k (0 :: int))"
  by (induction d) (auto simp: dict_at_def)

lemma add_timings_counts: "s_total (foldl add_timing s ts) = s_total s" "s_ok (foldl add_timing s ts) = s_ok s"
  "s_failed (foldl add_timing s ts) = s_failed s" "s_rejected (foldl add_timing s ts) = s_rejected s"
  "s_errors (foldl add_timing s ts) = s_errors s" "durations_ms (foldl add_timing s ts) = durations_ms s"
  by (induction ts arbitrary: s) (auto simp: add_timing_def split: prod.splits)

lemma summary_add_counts:
  "s_total (summary_add s r) = s_total s + 1"
  "s_ok (summary_add s r) = s_ok s + (if r_ok r then 1 else 0)"
  "s_rejected (summary_add s r) = s_rejected s + (if \<not> r_ok r \<and> r_rejected r then 1 else 0)"
  "s_failed (summary_add s r) = s_failed s + (if \<not> r_ok r \<and> \<not> r_rejected r then 1 else 0)"
  "durations_ms (summary_add s r) = durations_ms s @ (if r_ok r then [duration_ms r] else [])"
  "sum_list (map snd (s_errors (summary_add s r))) = sum_list (map snd (s_errors s)) + (if r_ok r then 0 else 1)"
  by (auto simp: summary_add_def Let_def add_timings_counts count_error_def sum_update)

text \<open>A stage's summary loses nothing: after the results of all its clients it has counted each one once, as ok, rejected
  or failed; the latencies are those of the ok ones in order; the error counts add up to the
  rejected and failed ones; and the three rates add up to 1.\<close>

lemma summary_counts:
  assumes "s = foldl summary_add (summary_new name) rs"
  shows "s_total s = len rs \<and> s_ok s = len (filter r_ok rs) \<and>
    s_rejected s = len (filter (\<lambda>r. \<not> r_ok r \<and> r_rejected r) rs) \<and> s_failed s = len (filter (\<lambda>r. \<not> r_ok r \<and> \<not> r_rejected r) rs) \<and>
    durations_ms s = map duration_ms (filter r_ok rs) \<and> sum_list (map snd (s_errors s)) = s_rejected s + s_failed s \<and>
    (rs \<noteq> [] \<longrightarrow> success_rate s + rejected_rate s + failure_rate s = 1)"
proof -
  have counts: "s_total s = len rs \<and> s_ok s = len (filter r_ok rs) \<and>
    s_rejected s = len (filter (\<lambda>r. \<not> r_ok r \<and> r_rejected r) rs) \<and> s_failed s = len (filter (\<lambda>r. \<not> r_ok r \<and> \<not> r_rejected r) rs) \<and>
    durations_ms s = map duration_ms (filter r_ok rs) \<and> sum_list (map snd (s_errors s)) = s_rejected s + s_failed s \<and>
    s_total s = s_ok s + s_rejected s + s_failed s"
    unfolding assms by (induction rs rule: rev_induct) (auto simp: summary_add_counts summary_new_def)
  moreover have "success_rate s + rejected_rate s + failure_rate s = 1" if "rs \<noteq> []"
  proof -
    have "s_total s \<noteq> 0" using counts that by simp
    moreover have "real_of_int (s_total s) = s_ok s + s_rejected s + s_failed s" using counts by linarith
    ultimately show ?thesis by (simp add: success_rate_def rejected_rate_def failure_rate_def rate_def flip: add_divide_distrib)
  qed
  ultimately show ?thesis by blast
qed

section \<open>What is written can be read\<close>

lemma res_map_Ok: "res_map f xs = Ok ys \<longleftrightarrow> list_all2 (\<lambda>x y. f x = Ok y) xs ys"
  by (induction xs arbitrary: ys) (auto simp: res_bnd_Ok list_all2_Cons1)

text \<open>The point of a monitored stage, and the lists \<open>extract_series\<close> should give for a sequence of them.\<close>

record point =
  p_load :: json
  p_avg :: json
  p_p95 :: json
  p_throughput :: json
  p_success :: json
  p_rejected :: json
  p_failure :: json
  p_cpu :: json
  p_rss :: json

definition point_of :: "stage_report \<Rightarrow> metrics_snapshot \<Rightarrow> point" where
  "point_of r peak = (let s = sr_summary r in \<lparr>p_load = JInt (sr_load r), p_avg = JFloat (mean_or_zero (durations_ms s)),
     p_p95 = JFloat (percentile (durations_ms s) 95), p_throughput = JFloat (of_int (s_ok s) / elapsed_s r),
     p_success = JFloat (success_rate s * 100), p_rejected = JFloat (rejected_rate s * 100), p_failure = JFloat (failure_rate s * 100),
     p_cpu = JFloat (cpu_percent peak), p_rss = JFloat (rss_mb peak)\<rparr>)"

definition series_with :: "series \<Rightarrow> point list \<Rightarrow> series" where
  "series_with s ps = \<lparr>v_loads = v_loads s @ map p_load ps, v_latency_avg = v_latency_avg s @ map p_avg ps,
     v_latency_p95 = v_latency_p95 s @ map p_p95 ps, v_throughput = v_throughput s @ map p_throughput ps,
     v_success_rate = v_success_rate s @ map p_success ps, v_rejected_rate = v_rejected_rate s @ map p_rejected ps,
     v_failure_rate = v_failure_rate s @ map p_failure ps, v_cpu_peak = v_cpu_peak s @ map p_cpu ps, v_rss_peak = v_rss_peak s @ map p_rss ps\<rparr>"

lemma series_with_simps: "series_with s [] = s" "series_with (series_with s ps) qs = series_with s (ps @ qs)"
  by (simp_all add: series_with_def)

lemma add_stage_written:
  assumes "stage_report_to_dict r c = Ok j"
  shows "add_stage s j = (case metrics_peak r of None \<Rightarrow> Raise TypeError | Some m \<Rightarrow> Ok (series_with s [point_of r m]))"
proof -
  have "elapsed_s r \<noteq> 0" using assms by (auto simp: stage_report_to_dict_def split: if_splits)
  with assms show ?thesis
    by (auto simp: stage_report_to_dict_def add_stage_def append_to_def rate_of_def times_float_def summary_to_dict_def timing_summary_to_dict_def
        metrics_snapshot_to_dict_def point_of_def series_with_def getitem_def lit_def Let_def split: option.split)
qed

lemma add_stages_written:
  assumes "list_all2 (\<lambda>r st. stage_report_to_dict r (c r) = Ok st) reports stages"
  shows "res_fold add_stage s stages = (if \<exists>r \<in> set reports. metrics_peak r = None then Raise TypeError
    else Ok (series_with s (map (\<lambda>r. point_of r (the (metrics_peak r))) reports)))"
  using assms
proof (induction reports stages arbitrary: s rule: list_all2_induct)
  case (Cons r rs st sts)
  show ?case
    using Cons.IH by (cases "metrics_peak r") (simp_all add: add_stage_written [OF Cons.hyps(1)] series_with_simps)
qed (simp add: series_with_simps)

lemma report_fields:
  assumes "run_report_to_dict P created a mode reports code = Ok j"
  obtains stages where "list_all2 (\<lambda>r st. stage_report_to_dict r (min (a_concurrency a) (sr_load r)) = Ok st) reports stages"
    "getitem j ''stages'' = Ok (JList stages)" "get_or j ''stages'' (JList []) = Ok (JList stages)"
    "\<exists>x. get_or j ''scenario'' (JObj []) = Ok (JObj x)" "\<exists>y. get_or j ''scenario_params'' (JObj []) = Ok (JObj y)"
proof -
  obtain ramp stages where st: "res_map (\<lambda>r. stage_report_to_dict r (min (a_concurrency a) (sr_load r))) reports = Ok stages"
      and ramp: "parse_ramp P (a_ramp a) = Ok ramp"
    using assms unfolding run_report_to_dict_def by (auto simp: res_bnd_Ok)
  have "getitem j ''stages'' = Ok (JList stages)" "get_or j ''stages'' (JList []) = Ok (JList stages)"
      "\<exists>x. get_or j ''scenario'' (JObj []) = Ok (JObj x)" "\<exists>y. get_or j ''scenario_params'' (JObj []) = Ok (JObj y)"
    using assms [symmetric] unfolding run_report_to_dict_def st ramp
    by (simp_all add: getitem_def get_key_def lit_def build_scenario_params_def)
  with st show thesis by (intro that) (simp_all add: res_map_Ok)
qed

text \<open>C39: the plots show what was measured: of a report the load test has written, the lists \<open>extract_series\<close> fills have for each stage the load,
  latencies, throughput, rates and peaks of that stage, in order, when every stage was
  monitored; when one was not (no server pid was given), it raises \<open>TypeError\<close>.\<close>

theorem written_report_series:
  assumes "run_report_to_dict P created a mode reports code = Ok j"
  shows "extract_series j = (if \<exists>r \<in> set reports. metrics_peak r = None then Raise TypeError
    else Ok (series_with no_series (map (\<lambda>r. point_of r (the (metrics_peak r))) reports)))"
proof -
  obtain stages where st: "list_all2 (\<lambda>r st. stage_report_to_dict r (min (a_concurrency a) (sr_load r)) = Ok st) reports stages"
      "getitem j ''stages'' = Ok (JList stages)"
    by (rule report_fields [OF assms])
  from st(2) have "extract_series j = res_fold add_stage no_series stages" by (simp add: extract_series_def stages_of_def py_iter_def)
  with add_stages_written [OF st(1)] show ?thesis by simp
qed

lemma by_load_written:
  assumes "list_all2 (\<lambda>r st. getitem st ''load'' = Ok (JInt (sr_load r)) \<and> stage_readable st) rs sts"
    and "\<forall>(l, s) \<in> set d. stage_readable s"
  shows "\<exists>d'. by_load P d sts = Ok d' \<and> fst ` set d' = fst ` set d \<union> sr_load ` set rs \<and> (\<forall>(l, s) \<in> set d'. stage_readable s)"
  using assms
proof (induction rs sts arbitrary: d rule: list_all2_induct)
  case (Cons r rs st sts)
  have "to_int P (JInt n) = Ok n" for n by (simp add: to_int_def py_trunc_def)
  moreover have "\<forall>(l, s) \<in> set (AList.update (sr_load r) st d). stage_readable s"
    using Cons by (auto dest: update_elem)
  ultimately show ?case
    using Cons.hyps(1) Cons.IH [of "AList.update (sr_load r) st d"] by (auto simp: dom_update)
qed simp

lemma stage_written_readable:
  assumes "stage_report_to_dict r c = Ok st"
  shows "getitem st ''load'' = Ok (JInt (sr_load r)) \<and> stage_readable st"
  using assms by (auto simp: stage_report_to_dict_def getitem_def stage_readable_def timings_of_def get_key_def summary_to_dict_def
      lit_def split: if_splits)

lemma written_readable:
  assumes "run_report_to_dict P created a mode reports code = Ok j"
  shows "\<exists>stages. report_readable P j stages \<and> fst ` set stages = sr_load ` set reports"
proof -
  obtain stages where st: "list_all2 (\<lambda>r st. stage_report_to_dict r (min (a_concurrency a) (sr_load r)) = Ok st) reports stages"
      "getitem j ''stages'' = Ok (JList stages)" "get_or j ''stages'' (JList []) = Ok (JList stages)"
      "\<exists>x. get_or j ''scenario'' (JObj []) = Ok (JObj x)" "\<exists>y. get_or j ''scenario_params'' (JObj []) = Ok (JObj y)"
    by (rule report_fields [OF assms])
  have "list_all2 (\<lambda>r st. getitem st ''load'' = Ok (JInt (sr_load r)) \<and> stage_readable st) reports stages"
    using st(1) by (rule list_all2_mono) (rule stage_written_readable)
  from by_load_written [OF this, of "[]" P] obtain d where d: "by_load P [] stages = Ok d" "fst ` set d = sr_load ` set reports"
      "\<forall>(l, s) \<in> set d. stage_readable s" by auto
  with st(3,4,5) d have "report_readable P j d" by (simp add: report_readable_def stages_by_load_def py_iter_def)
  with d(2) show ?thesis by blast
qed

text \<open>Two written reports can be compared: on the reports of two runs of the load test \<open>compare_reports\<close> raises nothing, prints one
  section for each load that both runs reached, in ascending order, and returns 0, or
  returns 1 when there is none.\<close>

lemma written_reports_compared:
  assumes X: "\<And>n. outcome X n = None" "float_parses (sc_text X)"
    and "run_report_to_dict (sc_text X) created a mode reports code = Ok b" "run_report_to_dict (sc_text X) created' a' mode' reports' code' = Ok c"
    and "report_at X bpath = Ok b" "report_at X cpath = Ok c"
  shows "\<exists>tr. compare_reports X bpath cpath [] = (Ok (if sr_load ` set reports \<inter> sr_load ` set reports' = {} then 1 else 0), tr) \<and>
    headings tr = map stage_heading (sorted_list_of_set (sr_load ` set reports \<inter> sr_load ` set reports'))"
proof -
  obtain bs cs where "report_readable (sc_text X) b bs" "fst ` set bs = sr_load ` set reports"
      "report_readable (sc_text X) c cs" "fst ` set cs = sr_load ` set reports'"
    using written_readable [OF assms(3)] written_readable [OF assms(4)] by blast
  then show ?thesis using compare_sections [OF X assms(5,6), of bs cs] by simp
qed

text \<open>Reports of small runs, for concrete inputs.\<close>

definition stage_example :: "int \<Rightarrow> metrics_snapshot option \<Rightarrow> stage_report" where
  "stage_example load peak = \<lparr>sr_load = load, sr_summary = summary_new [], metrics_before = None, metrics_after = None, metrics_peak = peak,
     elapsed_s = 2, per_operation_summaries = None, stop_reason = None\<rparr>"

definition args_example :: load_args where
  "args_example = \<lparr>a_run_id = lit ''run'', a_host = lit ''h'', a_port = 1, a_server_pid = None, a_ramp = lit ''5'', a_concurrency = 1, a_pause = 0,
     stop_failure_rate = 1, stop_p95_ms = 1, stop_rss_mb = 1, stop_cpu_percent = 1, a_io_timeout = 1, a_rsa_key_pool_size = 0,
     a_server_data_dir = lit ''d'', a_hold = 1, a_connect_timeout = 1, a_file_size = 1, a_chunk_size = 1\<rparr>"

definition stages_example :: "stage_report list" where
  "stages_example = [stage_example 10 (Some \<lparr>rss_mb = 1, cpu_percent = 2, num_threads = 3\<rparr>)]"

lemma written_example: "\<exists>j. run_report_to_dict text_example [] args_example ''upload'' stages_example 0 = Ok j"
proof -
  have "parse_ramp text_example (a_ramp args_example) = Ok [5]"
    by (simp add: parse_ramp_def args_example_def lit_def str_strip_def strip_while_def rstrip_while_def unicode_space_def
        py_int_def text_example_def ascii_digit_def)
  then show ?thesis by (simp add: run_report_to_dict_def stages_example_def stage_report_to_dict_def stage_example_def)
qed

theorem written_report_series_witness:
  "\<exists>j s. run_report_to_dict text_example [] args_example ''upload'' stages_example 0 = Ok j \<and> extract_series j = Ok s \<and>
     v_loads s = [JInt 10] \<and> v_cpu_peak s = [JFloat 2] \<and> v_rss_peak s = [JFloat 1]"
proof -
  obtain j where j: "run_report_to_dict text_example [] args_example ''upload'' stages_example 0 = Ok j" using written_example by blast
  from written_report_series [OF j] show ?thesis
    using j by (simp add: stages_example_def stage_example_def point_of_def series_with_def no_series_def Let_def)
qed

lemma written_reports_compared_witness:
  "\<exists>X tr. compare_reports X (lit ''a'') (lit ''b'') [] = (Ok 0, tr) \<and> headings tr = [stage_heading 10]"
proof -
  obtain j where j: "run_report_to_dict text_example [] args_example ''upload'' stages_example 0 = Ok j" using written_example by blast
  define X where "X = outside_example\<lparr>report_at := \<lambda>_. Ok j\<rparr>"
  have t: "sc_text X = text_example" "\<And>n. outcome X n = None" "\<And>p. report_at X p = Ok j" by (simp_all add: X_def outside_example_def)
  moreover have "float_parses (sc_text X)" by (simp add: t float_parses_def text_example_def is_ValueError_def)
  ultimately show ?thesis
    using written_reports_compared [of X, unfolded t(1), OF t(2) _ j j, of "lit ''a''" "lit ''b''"] by (auto simp: stages_example_def stage_example_def)
qed

end
