(* ===== verification/Load_Workers.thy ===== *)
theory Load_Workers
  imports Load_Client Load_Report
begin

text \<open>
  The clients of the load generator \<open>server/tools/load_test.py\<close>: each coroutine as a whole, with
  its timings, its checks of what the server answers and its \<open>except\<close> clause. The network, the
  clock, random bytes and PyCryptodome are the fields of the parameter \<open>net\<close>, functions on a
  state \<open>'l\<close> of the outside: an open connection is part of it, opening another one replaces it.
  Only the reads of the clients (and the opening of an idle connection) have a timeout: any of \<open>n_open\<close>, \<open>n_write\<close> and \<open>n_close\<close>
  may answer \<open>Suspended\<close>, when that \<open>await\<close> does not come back, and then neither does the client.
\<close>

section \<open>The outside of a client\<close>

record 'l net =
  n_open :: "'l \<Rightarrow> unit res \<times> 'l"
  n_write :: "bytes \<Rightarrow> 'l \<Rightarrow> unit res \<times> 'l"
  n_read :: "nat \<Rightarrow> real \<Rightarrow> 'l \<Rightarrow> bytes res \<times> 'l"
  n_close :: "'l \<Rightarrow> unit res \<times> 'l"
  n_sleep :: "real \<Rightarrow> 'l \<Rightarrow> 'l"
  n_clock :: "'l \<Rightarrow> real \<times> 'l"
  n_random :: "nat \<Rightarrow> 'l \<Rightarrow> bytes \<times> 'l"
  n_rsa_generate :: "'l \<Rightarrow> rsa_key \<times> 'l"
  n_rsa_public_der :: "rsa_key \<Rightarrow> bytes"
  n_oaep_decrypt :: "rsa_key \<Rightarrow> bytes \<Rightarrow> bytes res"
  n_aes_encrypt :: "bytes \<Rightarrow> bytes \<Rightarrow> bytes \<Rightarrow> bytes res"
  n_pad :: "bytes \<Rightarrow> nat \<Rightarrow> bytes"
  n_type_name :: "exn \<Rightarrow> pystr"
  n_exn_text :: "exn \<Rightarrow> pystr"

text \<open>\<open>except Exception\<close>, which does not end a wait.\<close>

definition an_Exception :: "exn \<Rightarrow> bool" where
  "an_Exception e \<longleftrightarrow> e \<noteq> Suspended"

record rsa_key_material =
  private_key :: rsa_key
  public_der_b64 :: bytes

text \<open>
  What a coroutine has: the outside, the dictionary \<open>timings\<close>, whether \<open>writer\<close> is set, and
  \<open>started\<close> where it is not assigned at once.
\<close>

record 'l client =
  c_link :: 'l
  c_timings :: "(pystr \<times> real) list"
  c_writer :: bool
  c_started :: "real option"

definition client_start :: "'l \<Rightarrow> 'l client" where
  "client_start l = \<lparr>c_link = l, c_timings = [], c_writer = False, c_started = None\<rparr>"

definition on_link :: "('l \<Rightarrow> 'a res \<times> 'l) \<Rightarrow> ('l client, 'a) eff" where
  "on_link f = (\<lambda>s. case f (c_link s) of (r, l) \<Rightarrow> (r, s\<lparr>c_link := l\<rparr>))"

definition from_link :: "('l \<Rightarrow> 'a \<times> 'l) \<Rightarrow> ('l client, 'a) eff" where
  "from_link f = (\<lambda>s. case f (c_link s) of (x, l) \<Rightarrow> (Ok x, s\<lparr>c_link := l\<rparr>))"

abbreviation perf_counter :: "'l net \<Rightarrow> ('l client, real) eff" where
  "perf_counter N \<equiv> from_link (n_clock N)"

definition elapsed_ms :: "'l net \<Rightarrow> real \<Rightarrow> ('l client, real) eff" where
  "elapsed_ms N started = bnd (perf_counter N) (\<lambda>now. ret ((now - started) * 1000))"

definition timing :: "'l net \<Rightarrow> string \<Rightarrow> real \<Rightarrow> ('l client, unit) eff" where
  "timing N name phase = bnd (elapsed_ms N phase) (\<lambda>d.
     upd (\<lambda>s. s\<lparr>c_timings := AList.update (lit name) d (c_timings s)\<rparr>))"

definition open_connection :: "'l net \<Rightarrow> ('l client, unit) eff" where
  "open_connection N = bnd (on_link (n_open N)) (\<lambda>_. upd (\<lambda>s. s\<lparr>c_writer := True\<rparr>))"

text \<open>\<open>writer.write(frame); await writer.drain()\<close>, for a frame that may fail to be built.\<close>

definition send_frame :: "'l net \<Rightarrow> bytes res \<Rightarrow> ('l client, unit) eff" where
  "send_frame N frame = bnd (lift_res frame) (\<lambda>f. on_link (n_write N f))"

definition VERSION :: bytes where "VERSION = [3]"

abbreviation send_request :: "'l net \<Rightarrow> bytes \<Rightarrow> int \<Rightarrow> bytes res \<Rightarrow> ('l client, unit) eff" where
  "send_request N cid code payload \<equiv> send_frame N (res_bnd payload (\<lambda>p. build_request_frame cid code p VERSION))"

text \<open>\<open>writer.close(); await writer.wait_closed()\<close>, and the same in the \<open>except\<close> clause.\<close>

definition close_connection :: "'l net \<Rightarrow> ('l client, unit) eff" where
  "close_connection N = on_link (n_close N)"

definition close_quietly :: "'l net \<Rightarrow> ('l client, unit) eff" where
  "close_quietly N = rd (\<lambda>s. if c_writer s then try_except (close_connection N) an_Exception (\<lambda>_. ret ()) else ret ())"

section \<open>Reading responses\<close>

definition recv_exact :: "'l net \<Rightarrow> nat \<Rightarrow> real \<Rightarrow> ('l client, bytes) eff" where
  "recv_exact N n timeout = on_link (n_read N n timeout)"

definition recv_response_frame :: "'l net \<Rightarrow> real \<Rightarrow> ('l client, bytes \<times> int \<times> bytes) eff" where
  "recv_response_frame N timeout = bnd (recv_exact N RESPONSE_HEADER_LEN timeout) (\<lambda>header.
     let version = take 1 header; code = le_decode (take 2 (drop 1 header));
         payload_size = le_decode (take 4 (drop 3 header)) in
     bnd (if payload_size \<noteq> 0 then recv_exact N (nat payload_size) timeout else ret []) (\<lambda>payload.
     ret (version, code, payload)))"

definition try_recv_response_frame :: "'l net \<Rightarrow> real \<Rightarrow> ('l client, (bytes \<times> int \<times> bytes) option) eff" where
  "try_recv_response_frame N timeout =
     try_except (bnd (recv_response_frame N timeout) (\<lambda>r. ret (Some r))) (\<lambda>e. e = TimeoutError) (\<lambda>_. ret None)"

definition load_fail :: "string \<Rightarrow> int \<Rightarrow> ('l client, 'a) eff" where
  "load_fail what code = throw (LoadError (lit what @ decimal code))"

definition perform_stage7_handshake :: "'l net \<Rightarrow> real \<Rightarrow> ('l client, unit) eff" where
  "perform_stage7_handshake N io_timeout =
     bnd (from_link (n_random N 32)) (\<lambda>client_nonce.
     bnd (send_request N (zeros 16) 829 (Ok ([1] @ client_nonce @ [0]))) (\<lambda>_.
     bnd (recv_response_frame N io_timeout) (\<lambda>(_, code, _).
     if code \<noteq> 1608 then load_fail ''handshake_failed_'' code
     else send_request N (zeros 16) 830 (Ok []))))"

definition decode_1607_message :: "bytes \<Rightarrow> pystr" where
  "decode_1607_message payload = (if length payload < 16 then lit ''<short_1607_payload>'' else utf8_replace (drop 16 payload))"

definition random_username :: "'l net \<Rightarrow> string \<Rightarrow> ('l client, pystr) eff" where
  "random_username N kind = bnd (from_link (n_random N 6)) (\<lambda>b. ret (lit kind @ lit ''_'' @ bytes_hex b))"

definition encrypt_file_for_828 :: "'l net \<Rightarrow> bytes \<Rightarrow> bytes \<Rightarrow> ('l client, bytes \<times> bytes) eff" where
  "encrypt_file_for_828 N plaintext aes_key = bnd (from_link (n_random N 16)) (\<lambda>iv.
     bnd (lift_res (n_aes_encrypt N aes_key iv (n_pad N plaintext 16))) (\<lambda>ciphertext. ret (iv, ciphertext)))"

section \<open>Names and keys\<close>

text \<open>\<open>str.replace\<close> of one character.\<close>

definition safe_run_prefix :: "pystr \<Rightarrow> pystr" where
  "safe_run_prefix run_id = map (\<lambda>c. if c = 58 then 45 else c) (map (\<lambda>c. if c = 47 then 45 else c) run_id)"

definition load_test_upload_filename :: "pystr \<Rightarrow> int \<Rightarrow> int \<Rightarrow> pystr" where
  "load_test_upload_filename run_id worker_index file_size =
     lit ''loadtest_'' @ safe_run_prefix run_id @ lit ''_'' @ decimal worker_index @ lit ''_'' @ decimal file_size @ lit ''.bin''"

definition key_material :: "'l net \<Rightarrow> ('l client, rsa_key_material) eff" where
  "key_material N = bnd (from_link (n_rsa_generate N)) (\<lambda>key.
     ret \<lparr>private_key = key, public_der_b64 = map word_of_nat (b64encode (n_rsa_public_der N key))\<rparr>)"

primrec build_keys :: "'l net \<Rightarrow> nat \<Rightarrow> ('l client, rsa_key_material list) eff" where
  "build_keys N 0 = ret []"
| "build_keys N (Suc n) = bnd (key_material N) (\<lambda>m. bnd (build_keys N n) (\<lambda>pool. ret (m # pool)))"

definition build_rsa_key_pool :: "'l net \<Rightarrow> int \<Rightarrow> ('l client, rsa_key_material list) eff" where
  "build_rsa_key_pool N count = (if count \<le> 0 then ret [] else build_keys N (nat count))"

definition rsa_key_for_worker :: "rsa_key_material list \<Rightarrow> nat \<Rightarrow> rsa_key_material option" where
  "rsa_key_for_worker pool worker_index = (if pool = [] then None else Some (pool ! (worker_index mod length pool)))"

section \<open>Results\<close>

definition result_ok :: "'l net \<Rightarrow> real \<Rightarrow> ('l client, result) eff" where
  "result_ok N started = bnd (elapsed_ms N started) (\<lambda>d. rd (\<lambda>s. ret
     \<lparr>r_ok = True, duration_ms = d, r_error = None, r_rejected = False, r_timings_ms = c_timings s\<rparr>))"

definition result_rejected :: "'l net \<Rightarrow> real \<Rightarrow> pystr \<Rightarrow> ('l client, result) eff" where
  "result_rejected N started error = bnd (close_connection N) (\<lambda>_. bnd (elapsed_ms N started) (\<lambda>d. rd (\<lambda>s. ret
     \<lparr>r_ok = False, duration_ms = d, r_error = Some error, r_rejected = True, r_timings_ms = c_timings s\<rparr>)))"

text \<open>The \<open>except Exception\<close> clause of a client.\<close>

definition result_failed :: "'l net \<Rightarrow> real option \<Rightarrow> pystr \<Rightarrow> ('l client, result) eff" where
  "result_failed N started error = bnd (close_quietly N) (\<lambda>_.
     bnd (case started of Some t \<Rightarrow> elapsed_ms N t | None \<Rightarrow> ret 0) (\<lambda>d. rd (\<lambda>s. ret
     \<lparr>r_ok = False, duration_ms = d, r_error = Some error, r_rejected = False, r_timings_ms = c_timings s\<rparr>)))"

abbreviation error_text :: "'l net \<Rightarrow> exn \<Rightarrow> pystr" where
  "error_text N e \<equiv> n_type_name N e @ lit '': '' @ n_exn_text N e"

section \<open>The clients\<close>

definition idle_connection_client :: "'l net \<Rightarrow> real \<Rightarrow> ('l client, result) eff" where
  "idle_connection_client N hold_seconds = bnd (perf_counter N) (\<lambda>started. try_except
     (bnd (open_connection N) (\<lambda>_.
      bnd (upd (\<lambda>s. s\<lparr>c_link := n_sleep N hold_seconds (c_link s)\<rparr>)) (\<lambda>_.
      bnd (close_connection N) (\<lambda>_. result_ok N started))))
     an_Exception (\<lambda>e. result_failed N (Some started) (n_type_name N e)))"

text \<open>Registering a fresh user name on an open connection, up to the checks of the answer.\<close>

definition register_fresh :: "'l net \<Rightarrow> real \<Rightarrow> ('l client, unit) eff" where
  "register_fresh N io_timeout =
     bnd (random_username N ''reg'') (\<lambda>user.
     bnd (send_request N (zeros 16) 825 (build_825_payload user)) (\<lambda>_.
     bnd (recv_response_frame N io_timeout) (\<lambda>(_, code, payload).
     if code \<noteq> 1600 \<and> code \<noteq> 1601 then load_fail ''unexpected_response_'' code
     else if code = 1600 \<and> length payload \<noteq> 16 then throw (LoadError (lit ''bad_1600_payload_len''))
     else ret ())))"

definition register_client :: "'l net \<Rightarrow> real \<Rightarrow> ('l client, result) eff" where
  "register_client N io_timeout = bnd (perf_counter N) (\<lambda>started. try_except
     (bnd (perf_counter N) (\<lambda>phase.
      bnd (open_connection N) (\<lambda>_.
      bnd (perform_stage7_handshake N io_timeout) (\<lambda>_.
      bnd (timing N ''connect_handshake_ms'' phase) (\<lambda>_.
      bnd (perf_counter N) (\<lambda>phase.
      bnd (register_fresh N io_timeout) (\<lambda>_.
      bnd (timing N ''register_ms'' phase) (\<lambda>_.
      bnd (close_connection N) (\<lambda>_. result_ok N started)))))))))
     an_Exception (\<lambda>e. result_failed N (Some started) (error_text N e)))"

primrec churn_connections :: "'l net \<Rightarrow> real \<Rightarrow> nat \<Rightarrow> ('l client, unit) eff" where
  "churn_connections N io_timeout 0 = ret ()"
| "churn_connections N io_timeout (Suc n) =
     bnd (open_connection N) (\<lambda>_.
     bnd (perform_stage7_handshake N io_timeout) (\<lambda>_.
     bnd (register_fresh N io_timeout) (\<lambda>_.
     bnd (close_connection N) (\<lambda>_. churn_connections N io_timeout n))))"

definition churn_client :: "'l net \<Rightarrow> real \<Rightarrow> int \<Rightarrow> ('l client, result) eff" where
  "churn_client N io_timeout connections_per_worker = bnd (perf_counter N) (\<lambda>started. try_except
     (bnd (churn_connections N io_timeout (nat connections_per_worker)) (\<lambda>_. result_ok N started))
     an_Exception (\<lambda>e. result_failed N (Some started) (error_text N e)))"

text \<open>The key of a client: from the pool, or generated.\<close>

definition client_key :: "'l net \<Rightarrow> rsa_key_material option \<Rightarrow> ('l client, rsa_key_material) eff" where
  "client_key N rsa_material = (case rsa_material of None \<Rightarrow> key_material N | Some m \<Rightarrow> ret m)"

definition relogin_setup :: "'l net \<Rightarrow> real \<Rightarrow> rsa_key_material option \<Rightarrow> ('l client, pystr \<times> bytes) eff" where
  "relogin_setup N io_timeout rsa_material =
     bnd (open_connection N) (\<lambda>_.
     bnd (perform_stage7_handshake N io_timeout) (\<lambda>_.
     bnd (random_username N ''relogin'') (\<lambda>user.
     bnd (send_request N (zeros 16) 825 (build_825_payload user)) (\<lambda>_.
     bnd (recv_response_frame N io_timeout) (\<lambda>(_, code, client_id).
     if code \<noteq> 1600 \<or> length client_id \<noteq> 16 then load_fail ''relogin_setup_register_failed_'' code
     else
     bnd (client_key N rsa_material) (\<lambda>m.
     bnd (send_request N client_id 826 (build_826_payload user (public_der_b64 m))) (\<lambda>_.
     bnd (recv_response_frame N io_timeout) (\<lambda>(_, code, payload).
     if code \<noteq> 1602 then load_fail ''relogin_setup_key_exchange_failed_'' code
     else
     bnd (lift_res (parse_stage7_aes_key_response payload client_id (lit ''1602''))) (\<lambda>_.
     bnd (close_connection N) (\<lambda>_.
     bnd (upd (\<lambda>s. s\<lparr>c_writer := False\<rparr>)) (\<lambda>_. ret (user, client_id))))))))))))"

definition relogin_measured :: "'l net \<Rightarrow> real \<Rightarrow> pystr \<Rightarrow> bytes \<Rightarrow> ('l client, unit) eff" where
  "relogin_measured N io_timeout user client_id =
     bnd (open_connection N) (\<lambda>_.
     bnd (perform_stage7_handshake N io_timeout) (\<lambda>_.
     bnd (send_request N client_id 827 (build_825_payload user)) (\<lambda>_.
     bnd (recv_response_frame N io_timeout) (\<lambda>(_, code, payload).
     if code \<noteq> 1605 then load_fail ''relogin_failed_'' code
     else
     bnd (lift_res (parse_stage7_aes_key_response payload client_id (lit ''1605''))) (\<lambda>_.
     close_connection N)))))"

definition relogin_client :: "'l net \<Rightarrow> real \<Rightarrow> rsa_key_material option \<Rightarrow> ('l client, result) eff" where
  "relogin_client N io_timeout rsa_material = try_except
     (bnd (relogin_setup N io_timeout rsa_material) (\<lambda>(user, client_id).
      bnd (perf_counter N) (\<lambda>started.
      bnd (upd (\<lambda>s. s\<lparr>c_started := Some started\<rparr>)) (\<lambda>_.
      bnd (relogin_measured N io_timeout user client_id) (\<lambda>_. result_ok N started)))))
     an_Exception (\<lambda>e. rd (\<lambda>s. result_failed N (c_started s) (error_text N e)))"

section \<open>The upload client\<close>

definition upload_register :: "'l net \<Rightarrow> real \<Rightarrow> ('l client, pystr \<times> bytes) eff" where
  "upload_register N io_timeout =
     bnd (perf_counter N) (\<lambda>phase.
     bnd (open_connection N) (\<lambda>_.
     bnd (perform_stage7_handshake N io_timeout) (\<lambda>_.
     bnd (timing N ''connect_handshake_ms'' phase) (\<lambda>_.
     bnd (perf_counter N) (\<lambda>phase.
     bnd (random_username N ''up'') (\<lambda>user.
     bnd (send_request N (zeros 16) 825 (build_825_payload user)) (\<lambda>_.
     bnd (recv_response_frame N io_timeout) (\<lambda>(_, code, client_id).
     bnd (timing N ''register_ms'' phase) (\<lambda>_.
     if code \<noteq> 1600 \<or> length client_id \<noteq> 16 then load_fail ''register_failed_'' code
     else ret (user, client_id))))))))))"

definition upload_exchange_key :: "'l net \<Rightarrow> real \<Rightarrow> rsa_key_material option \<Rightarrow> pystr \<Rightarrow> bytes \<Rightarrow> ('l client, bytes) eff" where
  "upload_exchange_key N io_timeout rsa_material user client_id =
     bnd (perf_counter N) (\<lambda>phase.
     bnd (client_key N rsa_material) (\<lambda>m.
     bnd (timing N (if rsa_material = None then ''rsa_generate_ms'' else ''rsa_key_select_ms'') phase) (\<lambda>_.
     bnd (perf_counter N) (\<lambda>phase.
     bnd (send_request N client_id 826 (build_826_payload user (public_der_b64 m))) (\<lambda>_.
     bnd (recv_response_frame N io_timeout) (\<lambda>(_, code, payload).
     bnd (timing N ''key_exchange_ms'' phase) (\<lambda>_.
     if code \<noteq> 1602 then load_fail ''key_exchange_failed_'' code
     else
     bnd (lift_res (parse_stage7_aes_key_response payload client_id (lit ''1602''))) (\<lambda>(_, encrypted_aes, _).
     bnd (perf_counter N) (\<lambda>phase.
     bnd (lift_res (n_oaep_decrypt N (private_key m) encrypted_aes)) (\<lambda>aes_key.
     bnd (timing N ''rsa_decrypt_ms'' phase) (\<lambda>_.
     if length aes_key \<noteq> 32 then throw (LoadError (lit ''bad_aes_len''))
     else ret aes_key)))))))))))"

text \<open>What an early answer means: none or a CRC, or the text of a refusal.\<close>

datatype early = NoCrc | CrcReceived | Refused pystr

definition early_answer :: "'l net \<Rightarrow> string \<Rightarrow> ('l client, early) eff" where
  "early_answer N unexpected = bnd (try_recv_response_frame N (2 / 100)) (\<lambda>answer. case answer of
      None \<Rightarrow> ret NoCrc
    | Some (_, code, payload) \<Rightarrow>
        if code = 1607 then ret (Refused (decode_1607_message payload))
        else if code = 1603 then ret CrcReceived
        else load_fail unexpected code)"

primrec send_chunks :: "'l net \<Rightarrow> bytes \<Rightarrow> (int \<Rightarrow> bytes \<Rightarrow> bytes res) \<Rightarrow> int \<Rightarrow> bytes list \<Rightarrow> ('l client, early) eff" where
  "send_chunks N client_id packet idx [] = ret NoCrc"
| "send_chunks N client_id packet idx (ch # chs) =
     bnd (send_request N client_id 828 (packet idx ch)) (\<lambda>_.
     bnd (early_answer N ''unexpected_early_response_during_upload_'') (\<lambda>e.
     if e = NoCrc then send_chunks N client_id packet (idx + 1) chs else ret e))"

text \<open>The answer to the whole upload, when none came early: \<open>None\<close> when it is the CRC.\<close>

definition final_answer :: "'l net \<Rightarrow> real \<Rightarrow> ('l client, pystr option) eff" where
  "final_answer N io_timeout = bnd (recv_response_frame N io_timeout) (\<lambda>(_, code, payload).
     if code = 1603 then ret None
     else if code = 1607 then ret (Some (decode_1607_message payload))
     else load_fail ''upload_crc_response_failed_'' code)"

definition upload_file_name :: "pystr option \<Rightarrow> int \<Rightarrow> pystr" where
  "upload_file_name file_name_arg file_size = (case file_name_arg of
      Some (c # cs) \<Rightarrow> c # cs
    | _ \<Rightarrow> lit ''load_test_'' @ decimal file_size @ lit ''.bin'')"

definition ceil_div :: "int \<Rightarrow> int \<Rightarrow> int res" where
  "ceil_div a b = (if b = 0 then Raise ZeroDivisionError else Ok \<lceil>real_of_int a / real_of_int b\<rceil>)"

text \<open>\<open>os.urandom\<close> raises \<open>ValueError\<close> for a negative size.\<close>

definition upload_prepare :: "'l net \<Rightarrow> int \<Rightarrow> int \<Rightarrow> bytes \<Rightarrow> ('l client, bytes \<times> bytes \<times> bytes \<times> int) eff" where
  "upload_prepare N file_size chunk_size aes_key =
     bnd (perf_counter N) (\<lambda>phase.
     bnd (if file_size < 0 then throw ValueError else from_link (n_random N (nat file_size))) (\<lambda>plaintext.
     bnd (encrypt_file_for_828 N plaintext aes_key) (\<lambda>(iv, ciphertext).
     bnd (lift_res (ceil_div (len ciphertext) chunk_size)) (\<lambda>total_packets.
     bnd (timing N ''client_encrypt_prepare_ms'' phase) (\<lambda>_. ret (plaintext, iv, ciphertext, total_packets))))))"

definition upload_confirm :: "'l net \<Rightarrow> real \<Rightarrow> real \<Rightarrow> bytes \<Rightarrow> pystr \<Rightarrow> ('l client, result) eff" where
  "upload_confirm N io_timeout started client_id file_name =
     bnd (perf_counter N) (\<lambda>phase.
     bnd (send_request N client_id 900 (res_bnd (utf8_encode file_name) (\<lambda>b. Ok (b @ [0])))) (\<lambda>_.
     bnd (recv_response_frame N io_timeout) (\<lambda>(_, code, _).
     bnd (timing N ''confirm_ms'' phase) (\<lambda>_.
     if code \<noteq> 1604 then load_fail ''final_confirm_failed_'' code
     else bnd (close_connection N) (\<lambda>_. result_ok N started)))))"

text \<open>From the CRC on, or the refusal at the end.\<close>

definition upload_finish :: "'l net \<Rightarrow> real \<Rightarrow> real \<Rightarrow> real \<Rightarrow> bytes \<Rightarrow> pystr \<Rightarrow> bool \<Rightarrow> ('l client, result) eff" where
  "upload_finish N io_timeout started phase client_id file_name early_crc_received =
     bnd (if early_crc_received then ret None else final_answer N io_timeout) (\<lambda>refused. case refused of
       Some text \<Rightarrow> result_rejected N started (lit ''rejected_final_1607: '' @ text)
     | None \<Rightarrow> bnd (timing N ''upload_packets_ms'' phase) (\<lambda>_. upload_confirm N io_timeout started client_id file_name))"

definition upload_send :: "'l net \<Rightarrow> real \<Rightarrow> real \<Rightarrow> int \<Rightarrow> bytes \<Rightarrow> pystr \<Rightarrow> bytes \<times> bytes \<times> bytes \<times> int \<Rightarrow> ('l client, result) eff" where
  "upload_send N io_timeout started chunk_size client_id file_name = (\<lambda>(plaintext, iv, ciphertext, total_packets).
     let packet = (\<lambda>idx ch. build_828_packet (len ciphertext) (len plaintext) idx total_packets file_name ch) in
     bnd (perf_counter N) (\<lambda>phase.
     bnd (send_request N client_id 828 (packet 0 iv)) (\<lambda>_.
     bnd (early_answer N ''unexpected_early_response_after_packet0_'') (\<lambda>e. case e of
       Refused text \<Rightarrow> result_rejected N started (lit ''rejected_early_1607: '' @ text)
     | CrcReceived \<Rightarrow> upload_finish N io_timeout started phase client_id file_name True
     | NoCrc \<Rightarrow>
         bnd (lift_res (chunk_bytes ciphertext chunk_size)) (\<lambda>chunks.
         bnd (send_chunks N client_id packet 1 chunks) (\<lambda>e. case e of
           Refused text \<Rightarrow> result_rejected N started (lit ''rejected_by_backpressure: '' @ text)
         | CrcReceived \<Rightarrow> upload_finish N io_timeout started phase client_id file_name True
         | NoCrc \<Rightarrow> upload_finish N io_timeout started phase client_id file_name False))))))"

definition upload_client :: "'l net \<Rightarrow> real \<Rightarrow> int \<Rightarrow> int \<Rightarrow> rsa_key_material option \<Rightarrow> pystr option \<Rightarrow> ('l client, result) eff" where
  "upload_client N io_timeout file_size chunk_size rsa_material file_name_arg = bnd (perf_counter N) (\<lambda>started. try_except
     (bnd (upload_register N io_timeout) (\<lambda>(user, client_id).
      bnd (upload_exchange_key N io_timeout rsa_material user client_id) (\<lambda>aes_key.
      bnd (upload_prepare N file_size chunk_size aes_key) (\<lambda>file.
      upload_send N io_timeout started chunk_size client_id (upload_file_name file_name_arg file_size) file))))
     an_Exception (\<lambda>e. result_failed N (Some started) (error_text N e)))"

section \<open>What a client reports\<close>

text \<open>\<open>yields F m\<close>: whatever \<open>m\<close> returns satisfies \<open>F\<close>. It may also raise.\<close>

definition yields :: "('a \<Rightarrow> bool) \<Rightarrow> ('s, 'a) eff \<Rightarrow> bool" where
  "yields F m \<longleftrightarrow> (\<forall>s x s'. m s = (Ok x, s') \<longrightarrow> F x)"

lemma yields_bnd: "(\<And>x. yields F (k x)) \<Longrightarrow> yields F (bnd m k)"
  unfolding yields_def bnd_def by (auto split: prod.splits res.splits)

lemma yields_rd: "(\<And>s. yields F (m s)) \<Longrightarrow> yields F (rd m)"
  by (auto simp: yields_def)

lemma yields_ret: "F x \<Longrightarrow> yields F (ret x)"
  by (simp add: yields_def)

lemma yields_load_fail: "yields F (load_fail what code)"
  by (simp add: yields_def load_fail_def)

text \<open>A result is a success exactly when it has no error; a rejection is not a success.\<close>

definition consistent :: "result \<Rightarrow> bool" where
  "consistent r \<longleftrightarrow> r_ok r = (r_error r = None) \<and> (r_rejected r \<longrightarrow> \<not> r_ok r)"

lemma consistent_result:
  "yields consistent (result_ok N t)" "yields consistent (result_rejected N t e)" "yields consistent (result_failed N st e)"
  unfolding result_ok_def result_rejected_def result_failed_def
  by (intro yields_bnd yields_rd yields_ret; simp add: consistent_def)+

text \<open>\<open>sound r\<close>: the result of a client, or the client hangs.\<close>

definition sound :: "result res \<Rightarrow> bool" where
  "sound r \<longleftrightarrow> (case r of Ok x \<Rightarrow> consistent x | Raise e \<Rightarrow> e = Suspended)"

lemma close_quietly_run: "\<exists>s'. close_quietly N s = (Ok (), s') \<or> close_quietly N s = (Raise Suspended, s')"
  by (auto simp: close_quietly_def try_except_def an_Exception_def split: prod.splits res.splits)

lemma elapsed_ms_run: "\<exists>d s'. elapsed_ms N t s = (Ok d, s')"
  by (auto simp: elapsed_ms_def from_link_def bnd_def split: prod.splits)

lemma result_failed_run: "sound (fst (result_failed N st e s))"
proof -
  consider s1 where "close_quietly N s = (Ok (), s1)" | s1 where "close_quietly N s = (Raise Suspended, s1)"
    using close_quietly_run by blast
  then show ?thesis
  proof cases
    case 1
    moreover obtain d s2 where "(case st of Some t \<Rightarrow> elapsed_ms N t | None \<Rightarrow> ret 0) s1 = (Ok d, s2)"
      using elapsed_ms_run [of N "the st" s1] by (cases st) auto
    ultimately show ?thesis by (simp add: result_failed_def bnd_def sound_def consistent_def)
  qed (simp add: result_failed_def bnd_def sound_def)
qed

text \<open>The shape of every client: what it does, and the \<open>except\<close> clause.\<close>

definition reports :: "('l client, result) eff \<Rightarrow> bool" where
  "reports C \<longleftrightarrow> (\<forall>s. sound (fst (C s)))"

lemma reports_guarded:
  assumes "yields consistent m" and "\<And>e s. \<exists>st t. h e s = result_failed N st t s"
  shows "reports (try_except m an_Exception h)"
  unfolding reports_def
proof
  fix s
  obtain r s1 where m: "m s = (r, s1)" by fastforce
  show "sound (fst (try_except m an_Exception h s))"
  proof (cases r)
    case (Ok x)
    then show ?thesis using assms(1) m by (auto simp: try_except_def yields_def sound_def)
  next
    case (Raise e)
    moreover have "sound (fst (h e s1))" using assms(2) [of e s1] result_failed_run by metis
    ultimately show ?thesis using m by (auto simp: try_except_def an_Exception_def sound_def)
  qed
qed

lemma reports_clocked:
  assumes "\<And>t. reports (m t)"
  shows "reports (bnd (perf_counter N) m)"
  using assms by (auto simp: reports_def from_link_def bnd_def split: prod.split)

lemma yields_upload_confirm: "yields consistent (upload_confirm N io started cid f)"
  unfolding upload_confirm_def by (intro yields_bnd) (auto intro!: yields_bnd yields_load_fail consistent_result)

lemma yields_upload_finish: "yields consistent (upload_finish N io started phase cid f early)"
  unfolding upload_finish_def
  by (intro yields_bnd) (auto intro!: yields_bnd yields_upload_confirm consistent_result split: option.split)

lemma yields_upload_send: "yields consistent (upload_send N io started chunk_size cid f q)"
  unfolding upload_send_def Let_def
  by (cases q) (auto intro!: yields_bnd yields_upload_finish consistent_result split: early.split)

lemma reports_idle: "reports (idle_connection_client N hold_seconds)"
  unfolding idle_connection_client_def
  by (intro reports_clocked reports_guarded [where N = N] yields_bnd consistent_result) blast

lemma reports_register: "reports (register_client N io_timeout)"
  unfolding register_client_def
  by (intro reports_clocked reports_guarded [where N = N] yields_bnd consistent_result) blast

lemma reports_churn: "reports (churn_client N io_timeout connections_per_worker)"
  unfolding churn_client_def
  by (intro reports_clocked reports_guarded [where N = N] yields_bnd consistent_result) blast

lemma reports_relogin: "reports (relogin_client N io_timeout rsa_material)"
  unfolding relogin_client_def
  by (rule reports_guarded [where N = N]) (auto intro!: yields_bnd consistent_result)

lemma reports_upload: "reports (upload_client N io_timeout file_size chunk_size rsa_material file_name_arg)"
  unfolding upload_client_def
  by (rule reports_clocked, rule reports_guarded [where N = N]) (auto intro!: yields_bnd yields_upload_send)

text \<open>The clients come back when every \<open>await\<close> does.\<close>

definition comes_back :: "('s, 'a) eff \<Rightarrow> bool" where
  "comes_back m \<longleftrightarrow> (\<forall>s. fst (m s) \<noteq> Raise Suspended)"

definition net_returns :: "'l net \<Rightarrow> bool" where
  "net_returns N \<longleftrightarrow> (\<forall>l. fst (n_open N l) \<noteq> Raise Suspended) \<and> (\<forall>b l. fst (n_write N b l) \<noteq> Raise Suspended) \<and>
     (\<forall>n t l. fst (n_read N n t l) \<noteq> Raise Suspended) \<and> (\<forall>l. fst (n_close N l) \<noteq> Raise Suspended) \<and>
     (\<forall>k c. n_oaep_decrypt N k c \<noteq> Raise Suspended) \<and> (\<forall>k iv p. n_aes_encrypt N k iv p \<noteq> Raise Suspended)"

lemma back_bnd: "comes_back m \<Longrightarrow> (\<And>x. comes_back (k x)) \<Longrightarrow> comes_back (bnd m k)"
  unfolding comes_back_def bnd_def by (auto split: prod.split res.split) (metis fst_conv)+

lemma back_basic: "comes_back (ret x)" "comes_back (upd f)" "comes_back (from_link g)" "comes_back (load_fail what code)"
  by (simp_all add: comes_back_def from_link_def load_fail_def split: prod.split)

lemma back_throw: "e \<noteq> Suspended \<Longrightarrow> comes_back (throw e)"
  by (simp add: comes_back_def)

lemma back_lift: "r \<noteq> Raise Suspended \<Longrightarrow> comes_back (lift_res r)"
  by (simp add: comes_back_def)

lemma back_rd: "(\<And>s. comes_back (m s)) \<Longrightarrow> comes_back (rd m)"
  by (simp add: comes_back_def)

lemma back_on_link: "(\<And>l. fst (f l) \<noteq> Raise Suspended) \<Longrightarrow> comes_back (on_link f)"
  by (simp add: comes_back_def on_link_def split: prod.split) (metis fst_conv)

lemma back_try: "comes_back m \<Longrightarrow> (\<And>e. comes_back (h e)) \<Longrightarrow> comes_back (try_except m c h)"
  unfolding comes_back_def try_except_def by (auto split: prod.split res.split) (metis fst_conv)+

lemma back_cases:
  "comes_back m \<Longrightarrow> comes_back n \<Longrightarrow> comes_back (if c then m else n)"
  "(\<And>a b. comes_back (k a b)) \<Longrightarrow> comes_back (case p of (a, b) \<Rightarrow> k a b)"
  "comes_back m \<Longrightarrow> (\<And>x. comes_back (j x)) \<Longrightarrow> comes_back (case v of None \<Rightarrow> m | Some x \<Rightarrow> j x)"
  "comes_back m \<Longrightarrow> comes_back n \<Longrightarrow> (\<And>t. comes_back (i t)) \<Longrightarrow> comes_back (case e of NoCrc \<Rightarrow> m | CrcReceived \<Rightarrow> n | Refused t \<Rightarrow> i t)"
  by (auto split: prod.split option.split early.split)

lemma res_bnd_back: "r \<noteq> Raise Suspended \<Longrightarrow> (\<And>x. k x \<noteq> Raise Suspended) \<Longrightarrow> res_bnd r k \<noteq> Raise Suspended"
  by (cases r) auto

lemma if_back: "r \<noteq> Raise Suspended \<Longrightarrow> r' \<noteq> Raise Suspended \<Longrightarrow> (if c then r else r') \<noteq> Raise Suspended"
  by simp

lemma codec_back:
  "to_bytes n v \<noteq> Raise Suspended" "utf8_encode t \<noteq> Raise Suspended" "ceil_div x y \<noteq> Raise Suspended"
  "chunk_bytes data cs \<noteq> Raise Suspended" "parse_stage7_aes_key_response p cid name \<noteq> Raise Suspended"
  unfolding to_bytes_def utf8_encode_def ceil_div_def chunk_bytes_def parse_stage7_aes_key_response_def Let_def
  by (intro if_back; simp)+

lemma request_back:
  "build_request_frame cid code p v \<noteq> Raise Suspended" "build_825_payload t \<noteq> Raise Suspended" "build_826_payload t k \<noteq> Raise Suspended"
  "build_828_packet cs os i n f ch \<noteq> Raise Suspended"
  unfolding build_request_frame_def build_825_payload_def build_826_payload_def build_828_packet_def
  by (intro if_back res_bnd_back codec_back; simp)+

lemmas back_rules = back_bnd back_basic back_rd back_try back_cases

lemma back_link:
  assumes "net_returns N"
  shows "comes_back (open_connection N)" "comes_back (close_connection N)" "comes_back (close_quietly N)" "comes_back (recv_exact N n t)"
    "frame \<noteq> Raise Suspended \<Longrightarrow> comes_back (send_frame N frame)" "comes_back (timing N name phase)" "comes_back (elapsed_ms N phase)"
  using assms unfolding open_connection_def close_quietly_def close_connection_def recv_exact_def send_frame_def timing_def elapsed_ms_def net_returns_def
  by (auto intro!: back_rules back_on_link back_lift)

lemma back_request:
  assumes "net_returns N" and "payload \<noteq> Raise Suspended"
  shows "comes_back (send_request N cid code payload)"
  by (intro back_link(5) assms(1) res_bnd_back assms(2) request_back)

lemma back_recv: "net_returns N \<Longrightarrow> comes_back (recv_response_frame N t)" "net_returns N \<Longrightarrow> comes_back (try_recv_response_frame N t)"
  unfolding try_recv_response_frame_def recv_response_frame_def Let_def by (intro back_rules back_link; assumption)+

lemma back_results:
  "net_returns N \<Longrightarrow> comes_back (result_ok N t)" "net_returns N \<Longrightarrow> comes_back (result_rejected N t e)"
  "net_returns N \<Longrightarrow> comes_back (result_failed N st e)"
  unfolding result_ok_def result_rejected_def result_failed_def by (intro back_rules back_link; assumption)+

lemma back_handshake: "net_returns N \<Longrightarrow> comes_back (perform_stage7_handshake N t)"
  unfolding perform_stage7_handshake_def by (intro back_rules back_recv back_request) simp_all

lemma back_early: "net_returns N \<Longrightarrow> comes_back (early_answer N what)" "net_returns N \<Longrightarrow> comes_back (final_answer N t)"
  unfolding early_answer_def final_answer_def by (intro back_rules back_recv; assumption)+

lemmas client_rules = back_rules back_link(1-4,6,7) back_request request_back back_recv back_results back_handshake back_early

lemma back_register: "net_returns N \<Longrightarrow> comes_back (register_fresh N t)"
  unfolding register_fresh_def random_username_def by (intro client_rules back_throw; simp)

lemma back_churn: "net_returns N \<Longrightarrow> comes_back (churn_connections N t n)"
  by (induction n) (auto intro!: client_rules back_register)

lemma back_key: "comes_back (client_key N m)"
  unfolding client_key_def key_material_def by (intro back_rules)

lemma back_relogin: "net_returns N \<Longrightarrow> comes_back (relogin_setup N t m)" "net_returns N \<Longrightarrow> comes_back (relogin_measured N t user cid)"
  unfolding relogin_setup_def relogin_measured_def random_username_def by (intro client_rules back_key back_lift codec_back; assumption)+

lemma back_chunks:
  "net_returns N \<Longrightarrow> (\<And>i ch. packet i ch \<noteq> Raise Suspended) \<Longrightarrow> comes_back (send_chunks N cid packet idx chunks)"
  by (induction chunks arbitrary: idx) (auto intro!: client_rules)

lemma back_upload_start: "net_returns N \<Longrightarrow> comes_back (upload_register N t)" "net_returns N \<Longrightarrow> comes_back (upload_exchange_key N t m user cid)"
  "net_returns N \<Longrightarrow> comes_back (upload_prepare N fsize chunk_size key)"
  unfolding upload_register_def upload_exchange_key_def upload_prepare_def random_username_def encrypt_file_for_828_def
  by (intro client_rules back_key back_lift back_throw codec_back; simp add: net_returns_def)+

lemma back_upload_end: "net_returns N \<Longrightarrow> comes_back (upload_finish N t started phase cid f early)"
  unfolding upload_finish_def upload_confirm_def by (intro client_rules res_bnd_back codec_back; simp)

lemma back_upload_send: "net_returns N \<Longrightarrow> comes_back (upload_send N t started chunk_size cid f q)"
  unfolding upload_send_def Let_def by (intro client_rules back_chunks back_upload_end back_lift codec_back; assumption)

lemma clients_back:
  assumes "net_returns N"
  shows "comes_back (idle_connection_client N hold)" "comes_back (register_client N t)" "comes_back (churn_client N t n)"
    "comes_back (relogin_client N t m)" "comes_back (upload_client N t fsize chunk_size m f)"
  unfolding idle_connection_client_def register_client_def churn_client_def relogin_client_def upload_client_def
  by (intro client_rules back_register back_churn back_relogin back_upload_start back_upload_send assms)+

text \<open>C33: a client of the load test hands in a result, unless the network keeps it waiting: each of the five coroutines either returns, with
  a result that is a success exactly when it carries no error and is never both a success and a rejection, or is left waiting in an
  \<open>await\<close> that does not come back; and it returns whenever every opening, write, read and closing of a connection returns or raises,
  whatever they return or raise, whatever the server answers and whatever PyCryptodome raises. No exception escapes to the driver.\<close>

theorem clients_report:
  fixes s :: "'l client"
  assumes "C \<in> {idle_connection_client N hold_seconds, register_client N io_timeout,
     churn_client N io_timeout connections_per_worker, relogin_client N io_timeout rsa_material,
     upload_client N io_timeout file_size chunk_size rsa_material file_name_arg}"
  shows "((\<exists>r s'. C s = (Ok r, s') \<and> r_ok r = (r_error r = None) \<and> (r_rejected r \<longrightarrow> \<not> r_ok r)) \<or> fst (C s) = Raise Suspended) \<and>
    (net_returns N \<longrightarrow> is_Ok (fst (C s)))"
proof -
  have "reports C" using assms reports_idle reports_register reports_churn reports_relogin reports_upload by blast
  then have r: "sound (fst (C s))" by (simp add: reports_def)
  have "fst (C s) \<noteq> Raise Suspended" if "net_returns N"
  proof -
    have "comes_back C" using assms clients_back [OF that] by blast
    then show ?thesis by (simp add: comes_back_def)
  qed
  with r show ?thesis by (cases "C s"; cases "fst (C s)") (auto simp: sound_def consistent_def)
qed

text \<open>A network on which nothing can be opened.\<close>

definition dead_net :: "unit net" where
  "dead_net = \<lparr>n_open = (\<lambda>l. (Raise ConnectionResetError, l)), n_write = (\<lambda>_ l. (Raise ConnectionResetError, l)),
     n_read = (\<lambda>_ _ l. (Raise TimeoutError, l)), n_close = (\<lambda>l. (Raise ConnectionResetError, l)), n_sleep = (\<lambda>_ l. l), n_clock = (\<lambda>l. (0, l)),
     n_random = (\<lambda>n l. (replicate n 0, l)), n_rsa_generate = (\<lambda>l. (0, l)), n_rsa_public_der = (\<lambda>_. []), n_oaep_decrypt = (\<lambda>_ b. Ok b),
     n_aes_encrypt = (\<lambda>_ _ p. Ok p), n_pad = (\<lambda>b _. b), n_type_name = (\<lambda>_. lit ''ConnectionResetError''), n_exn_text = (\<lambda>_. [])\<rparr>"

theorem clients_report_witness:
  "\<exists>r s'. upload_client dead_net 30 16 16 None None (client_start ()) = (Ok r, s') \<and> r_ok r = (r_error r = None)"
proof -
  have "upload_client dead_net 30 16 16 None None \<in> {idle_connection_client dead_net 0, register_client dead_net 30,
      churn_client dead_net 30 1, relogin_client dead_net 30 None, upload_client dead_net 30 16 16 None None}" by simp
  moreover have "net_returns dead_net" by (simp add: net_returns_def dead_net_def)
  ultimately show ?thesis
    using clients_report [of "upload_client dead_net 30 16 16 None None" dead_net 0 30 1 None 16 16 None "client_start ()"]
    by (auto simp del: insert_iff)
qed

text \<open>A server that does not let a connection be opened keeps a client waiting.\<close>

lemma client_may_hang: "fst (register_client (dead_net\<lparr>n_open := \<lambda>l. (Raise Suspended, l)\<rparr>) t (client_start ())) = Raise Suspended"
  by (simp add: register_client_def open_connection_def on_link_def from_link_def bnd_def try_except_def an_Exception_def client_start_def dead_net_def)

section \<open>An answer that comes late\<close>

text \<open>
  The early read gives up after 20 ms. When the header of an answer is there by then and its
  payload is not, the read reports no answer and the header is gone: what is left to read
  starts in the middle of a response.
\<close>

lemma early_header_lost:
  assumes "n_read N RESPONSE_HEADER_LEN timeout (c_link s) = (Ok header, l)" and "le_decode (take 4 (drop 3 header)) \<noteq> 0"
    and "n_read N (nat (le_decode (take 4 (drop 3 header)))) timeout l = (Raise TimeoutError, l)"
  shows "try_recv_response_frame N timeout s = (Ok None, s\<lparr>c_link := l\<rparr>)"
  using assms by (simp add: try_recv_response_frame_def recv_response_frame_def recv_exact_def on_link_def bnd_def try_except_def Let_def)

end
