(* ===== verification/Client_Server.thy ===== *)
theory Client_Server
  imports Wire Load_Workers
begin

text \<open>
  The upload client of the load generator against the server: the client's coroutine writes
  bytes to a connection, the loop of \<open>handle_client\<close> reads them and answers, the client reads
  the answers. The two run in turn: what the client writes is served before it goes on, and a
  read finds what the server has sent, or times out.
\<close>

section \<open>The link\<close>

text \<open>What a client computes itself: its clock, its random bytes, and PyCryptodome.\<close>

record client_box =
  cb_clock :: "nat \<Rightarrow> real"
  cb_random :: "nat \<Rightarrow> nat \<Rightarrow> bytes"
  cb_key :: "nat \<Rightarrow> rsa_key"
  cb_public_der :: "rsa_key \<Rightarrow> bytes"
  cb_oaep_decrypt :: "rsa_key \<Rightarrow> bytes \<Rightarrow> bytes res"
  cb_aes_encrypt :: "bytes \<Rightarrow> bytes \<Rightarrow> bytes \<Rightarrow> bytes res"
  cb_pad :: "bytes \<Rightarrow> nat \<Rightarrow> bytes"
  cb_type_name :: "exn \<Rightarrow> pystr"
  cb_exn_text :: "exn \<Rightarrow> pystr"

record server_link =
  sl_world :: world
  sl_unread :: bytes
  sl_up :: bool
  sl_draws :: nat

definition link_write :: "env \<Rightarrow> pystr \<Rightarrow> bytes \<Rightarrow> server_link \<Rightarrow> unit res \<times> server_link" where
  "link_write E ip bs l = (if \<not> sl_up l then (Raise ConnectionResetError, l)
     else case loop_guard (client_loop E (map Chunk (pieces bs))) (sl_world l) of (r, w) \<Rightarrow>
       let l' = l\<lparr>sl_world := w, sl_unread := sl_unread l @ concat (drop (length (w_out (sl_world l))) (w_out w))\<rparr> in
       (Ok (), if r = Ok Go then l' else l'\<lparr>sl_up := False, sl_world := snd (cleanup E ip True w)\<rparr>))"

definition link_read :: "nat \<Rightarrow> real \<Rightarrow> server_link \<Rightarrow> bytes res \<times> server_link" where
  "link_read n timeout l = (case read_exact n (sl_unread l) of
      Some (b, rest) \<Rightarrow> (Ok b, l\<lparr>sl_unread := rest\<rparr>)
    | None \<Rightarrow> (Raise (if sl_up l then TimeoutError else IncompleteReadError), l))"

text \<open>Closing: the server reads the end of the stream and leaves.\<close>

definition link_close :: "env \<Rightarrow> pystr \<Rightarrow> server_link \<Rightarrow> unit res \<times> server_link" where
  "link_close E ip l = (Ok (), if \<not> sl_up l then l
     else l\<lparr>sl_up := False, sl_world := snd (cleanup E ip True (snd (loop_guard (client_loop E [Chunk []]) (sl_world l))))\<rparr>)"

definition draw :: "(nat \<Rightarrow> 'a) \<Rightarrow> server_link \<Rightarrow> 'a \<times> server_link" where
  "draw f l = (f (sl_draws l), l\<lparr>sl_draws := Suc (sl_draws l)\<rparr>)"

definition server_net :: "env \<Rightarrow> pystr \<Rightarrow> client_box \<Rightarrow> server_link net" where
  "server_net E ip B = \<lparr>n_open = (\<lambda>l. (Ok (), l)), n_write = link_write E ip, n_read = link_read, n_close = link_close E ip,
     n_sleep = (\<lambda>_ l. l), n_clock = draw (cb_clock B), n_random = (\<lambda>n. draw (\<lambda>t. cb_random B t n)),
     n_rsa_generate = draw (cb_key B), n_rsa_public_der = cb_public_der B, n_oaep_decrypt = cb_oaep_decrypt B,
     n_aes_encrypt = cb_aes_encrypt B, n_pad = cb_pad B, n_type_name = cb_type_name B, n_exn_text = cb_exn_text B\<rparr>"

section \<open>Runs that do not raise\<close>

text \<open>\<open>surely P m Q\<close>: from a state with \<open>P\<close> the effect \<open>m\<close> returns, with a value and a state that satisfy \<open>Q\<close>.\<close>

definition surely :: "('s \<Rightarrow> bool) \<Rightarrow> ('s, 'a) eff \<Rightarrow> ('a \<Rightarrow> 's \<Rightarrow> bool) \<Rightarrow> bool" where
  "surely P m Q \<longleftrightarrow> (\<forall>s. P s \<longrightarrow> (\<exists>x s'. m s = (Ok x, s') \<and> Q x s'))"

lemma surelyI: "(\<And>s. P s \<Longrightarrow> \<exists>x s'. m s = (Ok x, s') \<and> Q x s') \<Longrightarrow> surely P m Q"
  by (simp add: surely_def)

lemma surelyD: "surely P m Q \<Longrightarrow> P s \<Longrightarrow> \<exists>x s'. m s = (Ok x, s') \<and> Q x s'"
  by (simp add: surely_def)

lemma surely_bnd: "surely P m R \<Longrightarrow> (\<And>x. surely (R x) (k x) Q) \<Longrightarrow> surely P (bnd m k) Q"
  unfolding surely_def by (metis bnd_Ok)

lemma surely_ret: "(\<And>s. P s \<Longrightarrow> Q x s) \<Longrightarrow> surely P (ret x) Q"
  by (simp add: surely_def)

lemma surely_conseq: "surely P m Q \<Longrightarrow> (\<And>s. P' s \<Longrightarrow> P s) \<Longrightarrow> (\<And>x s. Q x s \<Longrightarrow> Q' x s) \<Longrightarrow> surely P' m Q'"
  unfolding surely_def by metis

lemma surely_ex: "(\<And>a. surely (P a) m Q) \<Longrightarrow> surely (\<lambda>s. \<exists>a. P a s) m Q"
  unfolding surely_def by metis

lemma surely_fact: "(A \<Longrightarrow> surely P m Q) \<Longrightarrow> surely (\<lambda>s. A \<and> P s) m Q"
  unfolding surely_def by metis

section \<open>The client's steps\<close>

definition linked :: "world \<Rightarrow> bytes \<Rightarrow> server_link client \<Rightarrow> bool" where
  "linked w u s \<longleftrightarrow> sl_world (c_link s) = w \<and> sl_unread (c_link s) = u \<and> sl_up (c_link s)"

lemma surely_draw: "(\<And>t. A (f t)) \<Longrightarrow> surely (linked w u) (from_link (draw f)) (\<lambda>x s. A x \<and> linked w u s)"
  by (simp add: surely_def from_link_def draw_def linked_def)

lemma surely_clock: "surely (linked w u) (perf_counter (server_net E ip B)) (\<lambda>_. linked w u)"
  by (simp add: surely_def server_net_def from_link_def draw_def linked_def)

lemma surely_elapsed: "surely (linked w u) (elapsed_ms (server_net E ip B) t) (\<lambda>_. linked w u)"
  unfolding elapsed_ms_def by (rule surely_bnd [OF surely_clock]) (rule surely_ret)

lemma surely_timing: "surely (linked w u) (timing (server_net E ip B) name t) (\<lambda>_. linked w u)"
  unfolding timing_def by (rule surely_bnd [OF surely_elapsed]) (simp add: surely_def linked_def)

lemma surely_open: "surely (linked w u) (open_connection (server_net E ip B)) (\<lambda>_. linked w u)"
  by (simp add: surely_def open_connection_def on_link_def server_net_def bnd_def linked_def)

lemma loop_guard_Go: "m w = (Ok Go, w') \<Longrightarrow> loop_guard m w = (Ok Go, w')"
  by (simp add: loop_guard_def try_except_def bnd_def)

lemma surely_send:
  assumes "frame = Ok bs" and "answers E bs w outs w'"
  shows "surely (linked w u) (send_frame (server_net E ip B) frame) (\<lambda>_. linked w' (u @ concat outs))"
proof -
  have "loop_guard (client_loop E (map Chunk (pieces bs))) w = (Ok Go, w')" "w_out w' = w_out w @ outs"
    using assms(2) loop_guard_Go by (auto simp: answers_def)
  then show ?thesis
    by (auto simp: surely_def send_frame_def assms(1) on_link_def server_net_def link_write_def linked_def Let_def)
qed

text \<open>A response the server has sent is what the client reads.\<close>

definition response :: "bytes \<Rightarrow> int \<Rightarrow> bytes \<Rightarrow> bytes" where
  "response version code payload = version @ le_encode 2 code @ le_encode 4 (len payload) @ payload"

lemma recv_buffered:
  assumes "read_response_frame u = Some (r, rest)"
  shows "surely (linked w u) (recv_response_frame (server_net E ip B) t) (\<lambda>x s. x = r \<and> linked w rest s)"
proof (rule surelyI)
  fix s assume s: "linked w u s"
  obtain header u1 where h: "read_exact RESPONSE_HEADER_LEN u = Some (header, u1)"
    using assms by (auto simp: read_response_frame_def split: option.splits)
  let ?n = "le_decode (take 4 (drop 3 header))"
  have r: "(if ?n = 0 then Some ((take 1 header, le_decode (take 2 (drop 1 header)), []), u1)
      else (case read_exact (nat ?n) u1 of None \<Rightarrow> None
        | Some (payload, u2) \<Rightarrow> Some ((take 1 header, le_decode (take 2 (drop 1 header)), payload), u2))) = Some (r, rest)"
    using assms unfolding read_response_frame_def h option.case prod.case Let_def .
  have 1: "recv_exact (server_net E ip B) RESPONSE_HEADER_LEN t s = (Ok header, s\<lparr>c_link := (c_link s)\<lparr>sl_unread := u1\<rparr>\<rparr>)"
    using s h by (simp add: recv_exact_def on_link_def server_net_def link_read_def linked_def)
  show "\<exists>x s'. recv_response_frame (server_net E ip B) t s = (Ok x, s') \<and> x = r \<and> linked w rest s'"
  proof (cases "?n = 0")
    case True
    then show ?thesis using 1 r s by (auto simp: recv_response_frame_def bnd_def Let_def linked_def)
  next
    case False
    with r obtain payload where p: "read_exact (nat ?n) u1 = Some (payload, rest)" "r = (take 1 header, le_decode (take 2 (drop 1 header)), payload)"
      by (auto split: option.splits)
    have "recv_exact (server_net E ip B) (nat ?n) t (s\<lparr>c_link := (c_link s)\<lparr>sl_unread := u1\<rparr>\<rparr>)
        = (Ok payload, s\<lparr>c_link := (c_link s)\<lparr>sl_unread := rest\<rparr>\<rparr>)"
      using p(1) by (simp add: recv_exact_def on_link_def server_net_def link_read_def)
    then show ?thesis using 1 False p(2) s by (auto simp: recv_response_frame_def bnd_def Let_def linked_def)
  qed
qed

lemma surely_recv:
  assumes "length version = 1" "0 \<le> code" "code < 65536" "len payload < 256 ^ 4"
  shows "surely (linked w (response version code payload)) (recv_response_frame (server_net E ip B) t)
    (\<lambda>x s. x = (version, code, payload) \<and> linked w [] s)"
proof -
  have "message_answer version code (len payload) payload = Ok (response version code payload)"
    using assms by (simp add: message_answer_def to_bytes_def response_def)
  from response_roundtrip [OF this, of "[]"] show ?thesis by (intro recv_buffered) simp
qed

lemma recv_nothing:
  assumes "linked w [] s"
  shows "recv_response_frame (server_net E ip B) t s = (Raise TimeoutError, s)"
  using assms by (simp add: recv_response_frame_def recv_exact_def on_link_def server_net_def link_read_def linked_def
      read_exact_def RESPONSE_HEADER_LEN_def bnd_def)

lemma early_none: "surely (linked w []) (early_answer (server_net E ip B) what) (\<lambda>e s. e = NoCrc \<and> linked w [] s)"
  by (auto simp: surely_def early_answer_def try_recv_response_frame_def try_except_def bnd_def recv_nothing)

lemma early_crc:
  assumes "length version = 1" "len payload < 256 ^ 4"
  shows "surely (linked w (response version 1603 payload)) (early_answer (server_net E ip B) what) (\<lambda>e s. e = CrcReceived \<and> linked w [] s)"
proof (rule surelyI)
  fix s assume "linked w (response version 1603 payload) s"
  then obtain s' where "recv_response_frame (server_net E ip B) (2 / 100) s = (Ok (version, 1603, payload), s')" "linked w [] s'"
    using surelyD [OF surely_recv [of version 1603 payload w E ip B "2 / 100"]] assms by auto
  then show "\<exists>x s'. early_answer (server_net E ip B) what s = (Ok x, s') \<and> x = CrcReceived \<and> linked w [] s'"
    by (simp add: early_answer_def try_recv_response_frame_def try_except_def bnd_def)
qed

section \<open>What the server's answers are to the client\<close>

lemma frame_1608_response:
  assumes "signs E key" and "length sn = 32"
  shows "\<exists>body. frame_1608 E key version cn sn = response version 1608 body \<and> len body < 256 ^ 4"
proof -
  let ?der = "rsa_public_der E key"
  let ?sig = "rsa_sign E key (TRANSCRIPT_CONTEXT @ [1] @ cn @ sn @ ?der)"
  have "len ?der \<le> 65535" "len ?sig \<le> 65535" using assms(1) by (simp_all add: signs_def)
  then show ?thesis using assms(2)
    by (intro exI [of _ "[1] @ sn @ le_encode 2 (len ?der) @ ?der @ le_encode 2 (len ?sig) @ ?sig"])
      (simp add: frame_1608_def response_def Let_def)
qed

lemma frame_1600_response: "length cid = 16 \<Longrightarrow> frame_1600 version cid = response version 1600 cid"
  by (simp add: frame_1600_def response_def)

lemma frame_1604_response: "length (p_cid P) = 16 \<Longrightarrow> frame_1604 P = response (p_version P) 1604 (p_cid P)"
  by (simp add: frame_1604_def response_def)

lemma frame_1603_response:
  assumes "plan_sendable P"
  shows "\<exists>body. frame_1603 P crc = response (p_version P) 1603 body \<and> len body < 256 ^ 4"
  using assms by (auto simp: frame_1603_def response_def Let_def plan_sendable_def)

lemma aes_key_body_parsed:
  assumes "length cid = 16" "len ct \<le> 65535" "len sig \<le> 65535"
  shows "parse_stage7_aes_key_response (aes_key_body cid ct sig) cid name = Ok (cid, ct, sig)"
proof -
  let ?p = "aes_key_body cid ct sig"
  have f: "take 16 ?p = cid" "take 2 (drop 16 ?p) = le_encode 2 (len ct)"
      "take (length ct) (drop 18 ?p) = ct" "take 2 (drop (18 + length ct) ?p) = le_encode 2 (len sig)"
      "drop (20 + length ct) ?p = sig" "length ?p = 20 + length ct + length sig"
    using assms(1) by (simp_all add: aes_key_body_def del: le_encode.simps)
  have "le_decode (le_encode 2 (len ct)) = len ct" "le_decode (le_encode 2 (len sig)) = len sig"
    using assms(2,3) by (simp_all add: le_decode_encode del: le_encode.simps)
  then show ?thesis using f by (simp add: parse_stage7_aes_key_response_def Let_def del: le_encode.simps)
qed

lemma key_frame_response:
  assumes "signs E (server_identity_key s)" "length cid = 16" "len ct \<le> 65535"
  shows "\<exists>sig. key_frame E s code version cid ct = response version code (aes_key_body cid ct sig) \<and> len (aes_key_body cid ct sig) < 256 ^ 4 \<and>
    parse_stage7_aes_key_response (aes_key_body cid ct sig) cid name = Ok (cid, ct, sig)"
proof -
  let ?sig = "rsa_sign E (server_identity_key s) (AES_KEY_BINDING_CONTEXT @ [1] @ the (client_nonce s) @ the (server_nonce s) @ cid @ le_encode 2 code @ ct)"
  have "len ?sig \<le> 65535" using assms(1) by (simp add: signs_def)
  then show ?thesis using assms(2,3) aes_key_body_parsed [of cid ct ?sig name]
    by (intro exI [of _ ?sig]) (simp add: key_frame_def response_def Let_def aes_key_body_def)
qed

lemma request_frame_built:
  assumes "length cid = 16" "0 \<le> code" "code < 65536" "len payload < 256 ^ 4"
  shows "\<exists>frame. build_request_frame cid code payload version = Ok frame"
  using assms by (simp add: build_request_frame_def to_bytes_def)

section \<open>Steps in a row\<close>

lemma surely_seq: "surely P m (\<lambda>_. R) \<Longrightarrow> (\<And>x. surely R (k x) Q) \<Longrightarrow> surely P (bnd m k) Q"
  by (rule surely_bnd)

lemma surely_step:
  assumes "surely P m (\<lambda>x s. \<exists>w'. R x w' \<and> linked w' [] s)" and "\<And>x w'. R x w' \<Longrightarrow> surely (linked w' []) (k x) Q"
  shows "surely P (bnd m k) Q"
  by (rule surely_bnd [OF assms(1)]) (intro surely_ex surely_fact assms(2))

lemma surely_recv_then:
  assumes "length version = 1" "0 \<le> code" "code < 65536" "len payload < 256 ^ 4"
    and "surely (linked w []) (k (version, code, payload)) Q"
  shows "surely (linked w (response version code payload)) (bnd (recv_response_frame (server_net E ip B) t) k) Q"
proof (rule surely_bnd [OF surely_recv [OF assms(1-4)]])
  fix x
  show "surely (\<lambda>s. x = (version, code, payload) \<and> linked w [] s) (k x) Q"
    by (rule surely_fact) (use assms(5) in simp)
qed

text \<open>A request the server answers at once, and one it answers with silence.\<close>

lemma surely_asked:
  assumes "build_request_frame cid rq payload VERSION = Ok frame" "answers E frame w [response version code body] w'"
    and "length version = 1" "0 \<le> code" "code < 65536" "len body < 256 ^ 4"
    and "surely (linked w' []) (k (version, code, body)) Q"
  shows "surely (linked w []) (bnd (send_request (server_net E ip B) cid rq (Ok payload)) (\<lambda>_. bnd (recv_response_frame (server_net E ip B) t) k)) Q"
proof (rule surely_seq)
  show "surely (linked w []) (send_request (server_net E ip B) cid rq (Ok payload)) (\<lambda>_. linked w' (response version code body))"
    using surely_send [OF assms(1,2), where u = "[]"] by simp
qed (rule surely_recv_then [OF assms(3-6)], rule assms(7))

lemma surely_told:
  assumes "build_request_frame cid rq payload VERSION = Ok frame" "answers E frame w [] w'"
  shows "surely (linked w []) (send_request (server_net E ip B) cid rq (Ok payload)) (\<lambda>_. linked w' [])"
  using surely_send [OF assms, where u = "[]"] by simp

lemma length_VERSION [simp]: "length VERSION = 1"
  by (simp add: VERSION_def)

section \<open>The handshake\<close>

definition draws_well :: "client_box \<Rightarrow> bool" where
  "draws_well B \<longleftrightarrow> (\<forall>t n. length (cb_random B t n) = n)"

lemma surely_random:
  assumes "draws_well B"
  shows "surely (linked w u) (from_link (n_random (server_net E ip B) n)) (\<lambda>b s. length b = n \<and> linked w u s)"
  using surely_draw [of "\<lambda>b. length b = n" "\<lambda>t. cb_random B t n"] assms by (simp add: server_net_def draws_well_def)

lemma calmer_shaken: "calmer (greeted cn sn w) w1 \<Longrightarrow> calmer (shaken cn sn w1) w2 \<Longrightarrow> calmer (shaken cn sn w) w2"
  by (simp add: calmer_def)

lemma handshake_client:
  assumes E: "server_works E (server_identity_key (w_sess w))" and B: "draws_well B" and h: "unstarted (w_sess w)" "has_writer (w_sess w)"
    and w: "listening m k w" "int k + 2 \<le> max_req_per_window (cfg w)" "34 \<le> m"
      "\<forall>t < w_tick w + 9. mono E t - connected_at (w_sess w) < handshake_timeout_s (cfg w)"
  shows "surely (linked w []) (perform_stage7_handshake (server_net E ip B) timeout) (\<lambda>_ s. \<exists>w'.
    ((\<exists>cn sn. calmer (shaken cn sn w) w') \<and> w_store w' = w_store w \<and> listening m (k + 2) w') \<and> linked w' [] s)"
  unfolding perform_stage7_handshake_def
proof (rule surely_bnd [OF surely_random [OF B]], rule surely_fact)
  fix cn :: bytes assume cn: "length cn = 32"
  obtain f1 where f1: "build_request_frame (zeros 16) 829 ([1] @ cn @ [0]) VERSION = Ok f1"
    using request_frame_built [of "zeros 16" 829 "[1] @ cn @ [0]" VERSION] cn by auto
  obtain w1 sn where w1: "answers E f1 w [frame_1608 E (server_identity_key (w_sess w)) VERSION cn sn] w1" "length sn = 32"
      "calmer (greeted cn sn w) w1" "w_store w1 = w_store w" "listening m (Suc k) w1" "w_tick w1 = w_tick w + 7"
    using hello_served [OF E f1 _ cn w(3) h w(1) _ w(4)] w(2) by (auto simp: VERSION_def)
  obtain body where body: "frame_1608 E (server_identity_key (w_sess w)) VERSION cn sn = response VERSION 1608 body" "len body < 256 ^ 4"
    using frame_1608_response [OF _ w1(2)] E by (force simp: server_works_def)
  obtain f2 where f2: "build_request_frame (zeros 16) 830 [] VERSION = Ok f2"
    using request_frame_built [of "zeros 16" 830 "[]" VERSION] by auto
  have n: "\<not> handshake_verified (w_sess w1)" "client_nonce (w_sess w1) = Some cn" "server_nonce (w_sess w1) = Some sn"
      "security_version (w_sess w1) = Some 1" "cfg w1 = cfg w" "connected_at (w_sess w1) = connected_at (w_sess w)"
    using w1(3) h(1) by (simp_all add: calmer_def unstarted_def)
  obtain w2 where w2: "answers E f2 w1 [] w2" "calmer (shaken cn sn w1) w2" "w_store w2 = w_store w1" "listening m (Suc (Suc k)) w2"
    using ack_served [OF f2 _ _ n(1-4) w1(5), of E] w(2-4) w1(6) n(5,6) by (auto simp: VERSION_def)
  have post: "(\<exists>cn sn. calmer (shaken cn sn w) w2) \<and> w_store w2 = w_store w \<and> listening m (k + 2) w2"
    using calmer_shaken [OF w1(3) w2(2)] w1(4) w2(3,4) by auto
  have ack: "surely (linked w1 []) (send_request (server_net E ip B) (zeros 16) 830 (Ok [])) (\<lambda>_ s. \<exists>w'.
      ((\<exists>cn sn. calmer (shaken cn sn w) w') \<and> w_store w' = w_store w \<and> listening m (k + 2) w') \<and> linked w' [] s)"
    by (rule surely_conseq [OF surely_told [OF f2 w2(1)]]) (assumption, use post in blast)
  show "surely (linked w []) (bnd (send_request (server_net E ip B) (zeros 16) 829 (Ok ([1] @ cn @ [0]))) (\<lambda>_.
      bnd (recv_response_frame (server_net E ip B) timeout) (\<lambda>(_, code, _).
        if code \<noteq> 1608 then load_fail ''handshake_failed_'' code else send_request (server_net E ip B) (zeros 16) 830 (Ok [])))) (\<lambda>_ s.
      \<exists>w'. ((\<exists>cn sn. calmer (shaken cn sn w) w') \<and> w_store w' = w_store w \<and> listening m (k + 2) w') \<and> linked w' [] s)"
    by (rule surely_asked [OF f1 w1(1) [unfolded body(1)] _ _ _ body(2)]) (simp_all add: ack [simplified])
qed

section \<open>Registration and key exchange\<close>

text \<open>User names of the client: the server's rule takes ASCII letters and digits, as \<open>str.isalnum\<close> does.\<close>

definition ascii_alnum :: "env \<Rightarrow> bool" where
  "ascii_alnum E \<longleftrightarrow> (\<forall>c. (48 \<le> c \<and> c \<le> 57) \<or> (97 \<le> c \<and> c \<le> 122) \<longrightarrow> isalnum E c)"

lemma up_name_ok:
  assumes "ascii_alnum E" and "length b = 6"
  shows "name_ok E (lit ''up'' @ lit ''_'' @ bytes_hex b)"
proof -
  have h: "(48 \<le> c \<and> c \<le> 57) \<or> (97 \<le> c \<and> c \<le> 102)" if "c \<in> set (bytes_hex b)" for c
    using bytes_hex_chars [of b] that by auto
  have "isalnum E c \<and> valid_cp c \<and> c \<noteq> 0 \<and> \<not> unicode_space c" if "c \<in> set (bytes_hex b)" for c
    using h [OF that] assms(1) by (auto simp: ascii_alnum_def valid_cp_def is_surrogate_def unicode_space_def)
  moreover have "isalnum E 117" "isalnum E 112" using assms(1) by (simp_all add: ascii_alnum_def)
  ultimately show ?thesis using assms(2)
    by (auto simp: name_ok_def is_valid_username_def lit_def list_all_iff valid_cp_def is_surrogate_def unicode_space_def)
qed

abbreviation up_user :: "bytes \<Rightarrow> pystr" where
  "up_user b \<equiv> lit ''up'' @ lit ''_'' @ bytes_hex b"

lemma up_user_payloads:
  assumes "ascii_alnum E" and "length b = 6"
  shows "build_825_payload (up_user b) = Ok (utf8_bytes (up_user b) @ [0])" "build_826_payload (up_user b) k = Ok (utf8_bytes (up_user b) @ [0] @ k)"
    "length (utf8_bytes (up_user b)) = 15"
proof -
  have "list_all valid_cp (up_user b)" by (rule name_okD(3) [OF up_name_ok [OF assms]])
  then show "build_825_payload (up_user b) = Ok (utf8_bytes (up_user b) @ [0])" "build_826_payload (up_user b) k = Ok (utf8_bytes (up_user b) @ [0] @ k)"
    by (simp_all add: build_825_payload_def build_826_payload_def utf8_encode_def)
  have "list_all (\<lambda>c. c < 128) (up_user b)" using bytes_hex_chars [of b] by (auto simp: list_all_iff lit_def)
  moreover have "length (utf8_bytes n) = length n" if "list_all (\<lambda>c. c < 128) n" for n
    using that by (induction n) (simp_all add: utf8_bytes_def utf8_cp_def)
  ultimately show "length (utf8_bytes (up_user b)) = 15" using assms(2) by (simp add: lit_def)
qed

lemma surely_drawn: "surely (linked w u) (from_link (n_random (server_net E ip B) n)) (\<lambda>b s. (\<exists>t. b = cb_random B t n) \<and> linked w u s)"
  using surely_draw [of "\<lambda>b. \<exists>t. b = cb_random B t n" "\<lambda>t. cb_random B t n"] by (auto simp: server_net_def)

definition names_free :: "client_box \<Rightarrow> store \<Rightarrow> bool" where
  "names_free B st \<longleftrightarrow> (\<forall>t. up_user (cb_random B t 6) \<notin> username ` set (clients_table st))"

lemma surely_name:
  "surely (linked w u) (random_username (server_net E ip B) ''up'') (\<lambda>x s. (\<exists>t. x = up_user (cb_random B t 6)) \<and> linked w u s)"
  unfolding random_username_def
  by (rule surely_bnd [OF surely_drawn]) (rule surely_fact, rule surely_ret, auto)

lemma outside_server: "outside_works E key st \<Longrightarrow> server_works E key"
  by (simp add: outside_works_def)

lemma shaken_calmer:
  assumes "calmer (shaken cn sn w) w'"
  shows "agreed (w_sess w')" "handshake_verified (w_sess w')" "has_writer (w_sess w') = has_writer (w_sess w)" "cfg w' = cfg w" "xf w' = xf w"
    "server_identity_key (w_sess w') = server_identity_key (w_sess w)" "has_upload_slot (w_sess w') = has_upload_slot (w_sess w)"
    "connection_id (w_sess w') = connection_id (w_sess w)" "w_fs w' = w_fs w" "w_limiter w' = w_limiter w"
  using assms by (simp_all add: calmer_def agreed_def)

lemma register_client_served:
  assumes E: "outside_works E (server_identity_key (w_sess w)) (w_store w)" "ascii_alnum E" and B: "draws_well B" "names_free B (w_store w)"
    and v: "handshake_verified (w_sess w)" "has_writer (w_sess w)" and st: "store_inv (w_store w)" "sqlite_connected (w_store w)"
    and w: "listening m k w" "int k < max_req_per_window (cfg w)" "16 \<le> m"
    and goes_on: "\<And>user new w'. name_ok E user \<Longrightarrow> (\<exists>b. length b = 6 \<and> user = up_user b) \<Longrightarrow> length new = 16 \<Longrightarrow> calmer w w' \<Longrightarrow>
      enrolled (bytes_hex new) user None None (w_store w') \<Longrightarrow> listening m (Suc k) w' \<Longrightarrow> surely (linked w' []) (after user (VERSION, 1600, new)) Q"
  shows "surely (linked w []) (bnd (random_username (server_net E ip B) ''up'') (\<lambda>user.
    bnd (send_request (server_net E ip B) (zeros 16) 825 (build_825_payload user)) (\<lambda>_.
    bnd (recv_response_frame (server_net E ip B) timeout) (after user)))) Q"
proof (rule surely_bnd [OF surely_name], rule surely_fact)
  fix user assume "\<exists>t. user = up_user (cb_random B t 6)"
  then obtain t where user: "user = up_user (cb_random B t 6)" by blast
  have b: "length (cb_random B t 6) = 6" "user \<notin> username ` set (clients_table (w_store w))"
    using B by (auto simp: draws_well_def names_free_def user)
  have n: "name_ok E user" unfolding user by (rule up_name_ok [OF E(2) b(1)])
  let ?p = "utf8_bytes user @ [0]"
  have p: "build_825_payload user = Ok ?p" "len ?p = 16"
    using up_user_payloads(1,3) [OF E(2) b(1)] by (simp_all add: user)
  obtain f where f: "build_request_frame (zeros 16) 825 ?p VERSION = Ok f"
    using request_frame_built [of "zeros 16" 825 ?p VERSION] p(2) by auto
  obtain w' new where w': "answers E f w [frame_1600 VERSION new] w'" "length new = 16" "calmer w w'"
      "enrolled (bytes_hex new) user None None (w_store w')" "listening m (Suc k) w'"
    using register_served [OF E(1) n b(2) p(1) f length_VERSION _ v st w(1,2)] p(2) w(3) by auto
  show "surely (linked w []) (bnd (send_request (server_net E ip B) (zeros 16) 825 (build_825_payload user)) (\<lambda>_.
      bnd (recv_response_frame (server_net E ip B) timeout) (after user))) Q"
    unfolding p(1)
    by (rule surely_asked [OF f w'(1) [unfolded frame_1600_response [OF w'(2)]]])
      (use w'(2) goes_on [OF n _ w'(2-5)] b(1) user in auto)
qed

text \<open>The connection before the upload client has sent anything, as an accepted connection is.\<close>

definition fresh :: "env \<Rightarrow> int \<Rightarrow> world \<Rightarrow> bool" where
  "fresh E m w \<longleftrightarrow> unstarted (w_sess w) \<and> has_writer (w_sess w) \<and> xf w = no_transfer \<and> \<not> has_upload_slot (w_sess w) \<and>
     s_framer (w_sess w) = \<lparr>max_payload_size = m, buf = []\<rparr> \<and> request_timestamps (w_sess w) = [] \<and>
     store_inv (w_store w) \<and> sqlite_connected (w_store w) \<and>
     (\<forall>t < w_tick w + 9. mono E t - connected_at (w_sess w) < handshake_timeout_s (cfg w))"

lemma upload_register_served:
  assumes E: "outside_works E (server_identity_key (w_sess w)) (w_store w)" "ascii_alnum E" and B: "draws_well B" "names_free B (w_store w)"
    and w: "fresh E m w" "3 \<le> max_req_per_window (cfg w)" "34 \<le> m"
  shows "surely (linked w []) (upload_register (server_net E ip B) timeout) (\<lambda>(user, new) s. \<exists>w'.
    (name_ok E user \<and> (\<exists>b. length b = 6 \<and> user = up_user b) \<and> length new = 16 \<and> (\<exists>cn sn. calmer (shaken cn sn w) w') \<and>
     enrolled (bytes_hex new) user None None (w_store w') \<and> listening m 3 w') \<and> linked w' [] s)"
  (is "surely _ _ ?Q")
proof -
  have f: "unstarted (w_sess w)" "has_writer (w_sess w)" "listening m 0 w" "store_inv (w_store w)" "sqlite_connected (w_store w)"
      "\<forall>t < w_tick w + 9. mono E t - connected_at (w_sess w) < handshake_timeout_s (cfg w)"
    using w(1) by (simp_all add: fresh_def listening_def)
  note hs = handshake_client [OF outside_server [OF E(1)] B(1) f(1,2,3) _ w(3) f(6), where ip = ip and timeout = timeout]
  show ?thesis
    unfolding upload_register_def
  proof (rule surely_seq [OF surely_clock], rule surely_seq [OF surely_open], rule surely_step [OF hs])
    show "int 0 + 2 \<le> max_req_per_window (cfg w)" using w(2) by simp
    fix phase x y w1
    assume "(\<exists>cn sn. calmer (shaken cn sn w) w1) \<and> w_store w1 = w_store w \<and> listening m (0 + 2) w1"
    then obtain cn sn where c: "calmer (shaken cn sn w) w1" and st: "w_store w1 = w_store w" and l: "listening m 2 w1"
      by (auto simp: numeral_2_eq_2)
    note c' = shaken_calmer [OF c]
    have fin: "surely (linked w' []) (bnd (timing (server_net E ip B) ''register_ms'' ph) (\<lambda>_.
        if 1600 \<noteq> (1600 :: int) \<or> length new \<noteq> 16 then load_fail ''register_failed_'' 1600 else ret (user, new))) ?Q"
      if "name_ok E user" "\<exists>b. length b = 6 \<and> user = up_user b" "length new = 16" "calmer w1 w'"
        "enrolled (bytes_hex new) user None None (w_store w')" "listening m (Suc 2) w'" for user new w' ph
    proof (rule surely_seq [OF surely_timing])
      have "listening m 3 w'" "calmer (shaken cn sn w) w'" using that(6) calmer_trans [OF c that(4)] by (simp_all add: numeral_3_eq_3)
      then show "surely (linked w' []) (if 1600 \<noteq> (1600 :: int) \<or> length new \<noteq> 16 then load_fail ''register_failed_'' 1600 else ret (user, new)) ?Q"
        using that(1-3,5) by (auto intro!: surely_ret)
    qed
    show "surely (linked w1 []) (bnd (timing (server_net E ip B) ''connect_handshake_ms'' phase) (\<lambda>_.
       bnd (perf_counter (server_net E ip B)) (\<lambda>phase. bnd (random_username (server_net E ip B) ''up'') (\<lambda>user.
       bnd (send_request (server_net E ip B) (zeros 16) 825 (build_825_payload user)) (\<lambda>_.
       bnd (recv_response_frame (server_net E ip B) timeout) (\<lambda>(_, code, client_id).
       bnd (timing (server_net E ip B) ''register_ms'' phase) (\<lambda>_.
       if code \<noteq> 1600 \<or> length client_id \<noteq> 16 then load_fail ''register_failed_'' code else ret (user, client_id)))))))) ?Q"
    proof (rule surely_seq [OF surely_timing], rule surely_seq [OF surely_clock], rule register_client_served [OF _ E(2) B(1) _ c'(2) _ _ _ l])
      show "outside_works E (server_identity_key (w_sess w1)) (w_store w1)" using E(1) c'(6) st by simp
    qed (use B(2) st c' f w fin in auto)
  qed
qed

text \<open>A key of the client: the server accepts its public half, the private half opens what the public half closes.\<close>

definition key_pair :: "env \<Rightarrow> client_box \<Rightarrow> int \<Rightarrow> rsa_key_material \<Rightarrow> bool" where
  "key_pair E B m mat \<longleftrightarrow> (\<exists>der key. public_der_b64 mat = b64_bytes der \<and> key_accepted E der key \<and> 16 + len (b64_bytes der) \<le> m \<and>
     (\<forall>t aes ct. oaep_encrypt E t key aes = Ok ct \<longrightarrow> cb_oaep_decrypt B (private_key mat) ct = Ok aes))"

definition key_source :: "env \<Rightarrow> client_box \<Rightarrow> int \<Rightarrow> rsa_key_material option \<Rightarrow> bool" where
  "key_source E B m src = (case src of Some mat \<Rightarrow> key_pair E B m mat
     | None \<Rightarrow> \<forall>t. key_pair E B m \<lparr>private_key = cb_key B t, public_der_b64 = b64_bytes (cb_public_der B (cb_key B t))\<rparr>)"

lemma surely_key:
  assumes "key_source E B m src"
  shows "surely (linked w u) (client_key (server_net E ip B) src) (\<lambda>mat s. key_pair E B m mat \<and> linked w u s)"
proof (cases src)
  case None
  then show ?thesis using assms
    by (auto simp: surely_def client_key_def key_material_def key_source_def server_net_def from_link_def draw_def linked_def bnd_def)
qed (use assms in \<open>auto simp: client_key_def key_source_def intro!: surely_ret\<close>)

lemma exchange_client:
  assumes E: "server_works E (server_identity_key (w_sess w))" "ascii_alnum E" and key: "key_pair E B m mat"
    and n: "name_ok E user" "\<exists>b. length b = 6 \<and> user = up_user b" and v: "length cid = 16" "m < 256 ^ 4" and h: "agreed (w_sess w)" "has_writer (w_sess w)"
    and e: "enrolled (bytes_hex cid) user None None (w_store w)" and w: "listening m k w" "int k < max_req_per_window (cfg w)"
    and goes_on: "\<And>aes ct sig w' body der. length aes = 32 \<Longrightarrow> cb_oaep_decrypt B (private_key mat) ct = Ok aes \<Longrightarrow>
      parse_stage7_aes_key_response body cid (lit ''1602'') = Ok (cid, ct, sig) \<Longrightarrow> calmer w w' \<Longrightarrow>
      enrolled (bytes_hex cid) user (Some der) (Some (b64encode aes)) (w_store w') \<Longrightarrow> listening m (Suc k) w' \<Longrightarrow>
      surely (linked w' []) (after (VERSION, 1602, body)) Q"
  shows "surely (linked w []) (bnd (send_request (server_net E ip B) cid 826 (build_826_payload user (public_der_b64 mat))) (\<lambda>_.
    bnd (recv_response_frame (server_net E ip B) timeout) after)) Q"
proof -
  obtain der key where k: "public_der_b64 mat = b64_bytes der" "key_accepted E der key" "16 + len (b64_bytes der) \<le> m"
      "\<And>t aes ct. oaep_encrypt E t key aes = Ok ct \<Longrightarrow> cb_oaep_decrypt B (private_key mat) ct = Ok aes"
    using key unfolding key_pair_def by blast
  obtain b where b: "length b = 6" "user = up_user b" using n(2) by blast
  let ?p = "utf8_bytes user @ [0] @ b64_bytes der"
  have p: "build_826_payload user (b64_bytes der) = Ok ?p" "len ?p \<le> m"
    using up_user_payloads(2,3) [OF E(2) b(1)] k(3) unfolding b(2) by simp_all
  obtain f where f: "build_request_frame cid 826 ?p VERSION = Ok f"
    using request_frame_built [of cid 826 ?p VERSION] p(2) v by auto
  obtain w' aes ct t where w': "answers E f w [key_answer E w 1602 VERSION cid ct] w'" "length aes = 32" "oaep_encrypt E t key aes = Ok ct"
      "len ct \<le> 65535" "calmer w w'" "enrolled (bytes_hex cid) user (Some der) (Some (b64encode aes)) (w_store w')" "listening m (Suc k) w'"
    using exchange_served [OF E(1) n(1) p(1) k(2) f length_VERSION p(2) v(1) h e w] by blast
  have "signs E (server_identity_key (w_sess w))" using E(1) by (simp add: server_works_def)
  from key_frame_response [OF this v(1) w'(4)] obtain sig where
      sig: "key_answer E w 1602 VERSION cid ct = response VERSION 1602 (aes_key_body cid ct sig)" "len (aes_key_body cid ct sig) < 256 ^ 4"
        "parse_stage7_aes_key_response (aes_key_body cid ct sig) cid (lit ''1602'') = Ok (cid, ct, sig)" by blast
  show ?thesis unfolding k(1) p(1)
    by (rule surely_asked [OF f w'(1) [unfolded sig(1)] _ _ _ sig(2)])
      (use goes_on [OF w'(2) k(4) [OF w'(3)] sig(3) w'(5-7)] in simp_all)
qed

lemma surely_pure: "r = Ok x \<Longrightarrow> surely P (k x) Q \<Longrightarrow> surely P (bnd (lift_res r) k) Q"
  by (simp add: surely_def bnd_def)

lemma upload_exchange_key_served:
  assumes E: "server_works E (server_identity_key (w_sess w))" "ascii_alnum E" and src: "key_source E B m src"
    and n: "name_ok E user" "\<exists>b. length b = 6 \<and> user = up_user b" and v: "length cid = 16" "m < 256 ^ 4" and h: "agreed (w_sess w)" "has_writer (w_sess w)"
    and e: "enrolled (bytes_hex cid) user None None (w_store w)" and w: "listening m k w" "int k < max_req_per_window (cfg w)"
  shows "surely (linked w []) (upload_exchange_key (server_net E ip B) timeout src user cid) (\<lambda>aes s. \<exists>w'.
    (length aes = 32 \<and> calmer w w' \<and> (\<exists>der. enrolled (bytes_hex cid) user der (Some (b64encode aes)) (w_store w')) \<and> listening m (Suc k) w') \<and>
    linked w' [] s)" (is "surely _ _ ?Q")
  unfolding upload_exchange_key_def
proof (rule surely_seq [OF surely_clock], rule surely_bnd [OF surely_key [OF src]], rule surely_fact, rule surely_seq [OF surely_timing],
    rule surely_seq [OF surely_clock], rule exchange_client [OF E _ n v h e w], assumption, unfold prod.case, rule surely_seq [OF surely_timing])
  fix mat aes ct sig w' body der
  assume a: "length (aes :: bytes) = 32" "cb_oaep_decrypt B (private_key mat) ct = Ok aes" "parse_stage7_aes_key_response body cid (lit ''1602'') = Ok (cid, ct, sig)"
    "calmer w w'" "enrolled (bytes_hex cid) user (Some der) (Some (b64encode aes)) (w_store w')" "listening m (Suc k) w'"
  have d: "n_oaep_decrypt (server_net E ip B) (private_key mat) ct = Ok aes" using a(2) by (simp add: server_net_def)
  have post: "?Q aes s" if "linked w' [] s" for s using a that by blast
  show "surely (linked w' []) (if (1602 :: int) \<noteq> 1602 then load_fail ''key_exchange_failed_'' 1602
     else bnd (lift_res (parse_stage7_aes_key_response body cid (lit ''1602''))) (\<lambda>(_, encrypted_aes, _).
     bnd (perf_counter (server_net E ip B)) (\<lambda>phase.
     bnd (lift_res (n_oaep_decrypt (server_net E ip B) (private_key mat) encrypted_aes)) (\<lambda>aes_key.
     bnd (timing (server_net E ip B) ''rsa_decrypt_ms'' phase) (\<lambda>_.
     if length aes_key \<noteq> 32 then throw (LoadError (lit ''bad_aes_len'')) else ret aes_key))))) ?Q"
    by (simp only: simp_thms if_False, rule surely_pure [OF a(3)], unfold prod.case, rule surely_seq [OF surely_clock], rule surely_pure [OF d],
        rule surely_seq [OF surely_timing], simp only: a(1) simp_thms if_False, rule surely_ret, rule post)
qed

section \<open>The packets\<close>

lemma chunks_from_count: "0 < n \<Longrightarrow> len (chunks_from n d) = \<lceil>real_of_int (len d) / real_of_int (int n)\<rceil>"
proof (induction n d rule: chunks_from.induct)
  case (1 n d)
  show ?case
  proof (cases "d = []")
    case False
    have split: "len (chunks_from n d) = 1 + len (chunks_from n (drop n d))"
      using 1(2) False by (subst chunks_from.simps) simp
    show ?thesis
    proof (cases "length d \<le> n")
      case True
      have "0 < real (length d) / real n" "real (length d) / real n \<le> 1" using 1(2) False True by simp_all
      then have "\<lceil>real (length d) / real n\<rceil> = 1" by linarith
      then show ?thesis using split True by (simp add: chunks_from.simps)
    next
      case long: False
      have "real (length d) / real n = real (length (drop n d)) / real n + 1" using 1(2) long by (simp add: field_simps of_nat_diff)
      then have "\<lceil>real (length d) / real n\<rceil> = \<lceil>real (length (drop n d)) / real n\<rceil> + 1" by linarith
      then show ?thesis using split 1(1) [of] False 1(2) by simp
    qed
  qed (simp add: chunks_from.simps)
qed

text \<open>The client's cipher and the server's agree: AES-CBC with PKCS7 padding.\<close>

definition ciphers :: "env \<Rightarrow> client_box \<Rightarrow> bool" where
  "ciphers E B \<longleftrightarrow> (\<forall>key iv p. length key = 32 \<longrightarrow> length iv = 16 \<longrightarrow> aes_key_ok E key iv \<and>
     (\<exists>c. cb_aes_encrypt B key iv (cb_pad B p 16) = Ok c \<and> len c = (len p div 16 + 1) * 16 \<and>
       unpad E (aes_cbc_dec E key iv [] c) AES_BLOCK = Some p))"

definition sealed :: "env \<Rightarrow> client_box \<Rightarrow> int \<Rightarrow> int \<Rightarrow> bytes \<Rightarrow> bytes \<times> bytes \<times> bytes \<times> int \<Rightarrow> bool" where
  "sealed E B file_size chunk_size aes = (\<lambda>(plain, iv, c, total). (\<exists>t. plain = cb_random B t (nat file_size)) \<and> len plain = file_size \<and>
     length iv = 16 \<and> aes_key_ok E aes iv \<and> len c = (file_size div 16 + 1) * 16 \<and> unpad E (aes_cbc_dec E aes iv [] c) AES_BLOCK = Some plain \<and>
     total = len (chunks_from (nat chunk_size) c))"

lemma upload_prepare_done:
  assumes B: "draws_well B" "ciphers E B" and k: "length aes = 32" and n: "0 \<le> file_size" "0 < chunk_size"
  shows "surely (linked w []) (upload_prepare (server_net E ip B) file_size chunk_size aes)
    (\<lambda>file s. sealed E B file_size chunk_size aes file \<and> linked w [] s)" (is "surely _ _ ?Q")
  unfolding upload_prepare_def encrypt_file_for_828_def if_not_P [OF n(1) [unfolded not_less [symmetric]]]
proof (rule surely_seq [OF surely_clock], rule surely_bnd [OF surely_drawn], rule surely_fact, rule surely_bnd)
  fix plain assume "\<exists>t. plain = cb_random B t (nat file_size)"
  then have p: "\<exists>t. plain = cb_random B t (nat file_size)" "len plain = file_size" using B(1) n(1) by (auto simp: draws_well_def)
  let ?R = "\<lambda>(iv, c). length iv = 16 \<and> aes_key_ok E aes iv \<and> len c = (file_size div 16 + 1) * 16 \<and> unpad E (aes_cbc_dec E aes iv [] c) AES_BLOCK = Some plain"
  show "surely (linked w []) (bnd (from_link (n_random (server_net E ip B) 16)) (\<lambda>iv.
      bnd (lift_res (n_aes_encrypt (server_net E ip B) aes iv (n_pad (server_net E ip B) plain 16))) (\<lambda>ciphertext. ret (iv, ciphertext))))
      (\<lambda>x s. ?R x \<and> linked w [] s)"
  proof (rule surely_bnd [OF surely_random [OF B(1)]], rule surely_fact)
    fix iv :: bytes assume iv: "length iv = 16"
    obtain c where c: "aes_key_ok E aes iv" "cb_aes_encrypt B aes iv (cb_pad B plain 16) = Ok c" "len c = (len plain div 16 + 1) * 16"
        "unpad E (aes_cbc_dec E aes iv [] c) AES_BLOCK = Some plain"
      using B(2) k iv unfolding ciphers_def by blast
    have e: "n_aes_encrypt (server_net E ip B) aes iv (n_pad (server_net E ip B) plain 16) = Ok c" using c(2) by (simp add: server_net_def)
    show "surely (linked w []) (bnd (lift_res (n_aes_encrypt (server_net E ip B) aes iv (n_pad (server_net E ip B) plain 16))) (\<lambda>ciphertext. ret (iv, ciphertext)))
        (\<lambda>x s. ?R x \<and> linked w [] s)"
      by (rule surely_pure [OF e], rule surely_ret) (use c p(2) iv in simp)
  qed
  fix phase and x :: "bytes \<times> bytes"
  obtain iv c where x: "x = (iv, c)" by (cases x)
  have cd: "ceil_div (len c) chunk_size = Ok (len (chunks_from (nat chunk_size) c))"
    using n(2) chunks_from_count [of "nat chunk_size" c] by (simp add: ceil_div_def)
  have "surely (linked w []) (bnd (lift_res (ceil_div (len c) chunk_size)) (\<lambda>total_packets.
      bnd (timing (server_net E ip B) ''client_encrypt_prepare_ms'' phase) (\<lambda>_. ret (plain, iv, c, total_packets)))) ?Q" if "?R (iv, c)"
    by (rule surely_pure [OF cd], rule surely_seq [OF surely_timing], rule surely_ret) (use that p in \<open>simp add: sealed_def\<close>)
  then show "surely (\<lambda>s. ?R x \<and> linked w [] s) (case x of (iv, ciphertext) \<Rightarrow> bnd (lift_res (ceil_div (len ciphertext) chunk_size)) (\<lambda>total_packets.
      bnd (timing (server_net E ip B) ''client_encrypt_prepare_ms'' phase) (\<lambda>_. ret (plain, iv, ciphertext, total_packets)))) ?Q"
    unfolding x prod.case by (intro surely_fact) auto
qed

text \<open>A plan whose packets can be built and whose frames are within the limit \<open>m\<close> of the server's framer.\<close>

definition plan_built :: "int \<Rightarrow> upload_plan \<Rightarrow> bool" where
  "plan_built m P \<longleftrightarrow> length (p_cid P) = 16 \<and> p_version P = VERSION \<and> length (p_iv P) = 16 \<and> p_key P \<noteq> [] \<and> 0 \<notin> set (p_name P) \<and>
     list_all valid_cp (p_name P) \<and> 0 \<le> p_csize P \<and> p_csize P < 256 ^ 4 \<and> 0 \<le> p_osize P \<and> p_osize P < 256 ^ 4 \<and> p_total P < 65536 \<and> m < 256 ^ 4"

abbreviation packet_fits :: "int \<Rightarrow> upload_plan \<Rightarrow> bytes \<Rightarrow> bool" where
  "packet_fits m P ch \<equiv> 13 + len (utf8_bytes (p_name P)) + len ch \<le> m"

lemma packet_built:
  assumes "plan_built m P" "packet_fits m P ch" "0 \<le> k" "k \<le> p_total P"
  shows "\<exists>payload frame. p_packet P k ch = Ok payload \<and> len payload \<le> m \<and> build_request_frame (p_cid P) 828 payload VERSION = Ok frame"
proof -
  let ?p = "le_encode 4 (p_csize P) @ le_encode 4 (p_osize P) @ le_encode 2 k @ le_encode 2 (p_total P) @ utf8_bytes (p_name P) @ [0] @ ch"
  have "p_packet P k ch = Ok ?p" using assms by (simp add: plan_built_def build_828_packet_def to_bytes_def utf8_encode_def)
  moreover have "len ?p \<le> m" using assms(2) by simp
  moreover have "\<exists>frame. build_request_frame (p_cid P) 828 ?p VERSION = Ok frame"
    using request_frame_built [of "p_cid P" 828 ?p VERSION] assms(1,2) unfolding plan_built_def by simp
  ultimately show ?thesis by blast
qed

lemma send_chunks_served:
  assumes E: "all_well E" and P: "plan_built m P" "plan_sendable P" "aes_key_ok E (p_key P) (p_iv P)"
    and plain: "unpad E (aes_cbc_dec E (p_key P) (p_iv P) [] cipher) AES_BLOCK = Some plain" "len plain = p_osize P" "len cipher = p_csize P"
  shows "chs \<noteq> [] \<Longrightarrow> expecting E P L tmp i k fed w \<Longrightarrow> plan_ok (cfg w) P \<Longrightarrow> fed @ concat chs = cipher \<Longrightarrow> k + len chs = p_total P \<Longrightarrow>
    \<forall>ch \<in> set chs. ch \<noteq> [] \<and> length ch mod AES_BLOCK = 0 \<and> len ch \<le> max_chunk_size (cfg w) \<and> packet_fits m P ch \<Longrightarrow>
    listening m j w \<Longrightarrow> int j \<le> max_req_per_window (cfg w) \<Longrightarrow> handshake_verified (w_sess w) \<Longrightarrow>
    surely (linked w []) (send_chunks (server_net E ip B) (p_cid P) (p_packet P) (k + 1) chs) (\<lambda>e s. \<exists>w'.
      (e = CrcReceived \<and> (\<exists>w0. uploaded P L tmp plain w0 w') \<and> listening m j w' \<and> cfg w' = cfg w \<and> handshake_verified (w_sess w')) \<and> linked w' [] s)"
proof (induction chs arbitrary: k fed w)
  case (Cons ch chs)
  have n: "0 \<notin> set (p_name P)" "p_version P = VERSION" using P(1) by (simp_all add: plan_built_def)
  have k: "0 \<le> k" "k + 1 \<le> p_total P" using Cons.prems(2,5) by (simp_all add: expecting_def)
  have c: "ch \<noteq> []" "length ch mod AES_BLOCK = 0" "len ch \<le> max_chunk_size (cfg w)" "packet_fits m P ch" using Cons.prems(6) by simp_all
  obtain payload f where p: "p_packet P (k + 1) ch = Ok payload" "len payload \<le> m" and f: "build_request_frame (p_cid P) 828 payload (p_version P) = Ok f"
    using packet_built [OF P(1) c(4), of "k + 1"] k n(2) by auto
  have f': "build_request_frame (p_cid P) 828 payload VERSION = Ok f" using f n(2) by simp
  show ?case
  proof (cases "chs = []")
    case True
    then have last: "len fed + len ch = p_csize P" "k + 1 = p_total P" "fed @ ch = cipher" using Cons.prems(4,5) plain(3) by auto
    obtain w' where w': "answers E f w [frame_1603 P (crc32 plain 0)] w'" "uploaded P L tmp plain w w'" "listening m j w'" "cfg w' = cfg w" "handshake_verified (w_sess w')"
      using last_packet_served [OF E Cons.prems(2,3) P(2,3) n(1) p(1) f p(2) c(1-3) last(1,2) _ plain(2) Cons.prems(7-9)] plain(1) last(3) by auto
    obtain body where body: "frame_1603 P (crc32 plain 0) = response VERSION 1603 body" "len body < 256 ^ 4"
      using frame_1603_response [OF P(2), of "crc32 plain 0"] n(2) by auto
    have told: "surely (linked w []) (send_request (server_net E ip B) (p_cid P) 828 (p_packet P (k + 1) ch)) (\<lambda>_. linked w' (response VERSION 1603 body))"
      using surely_send [OF f' w'(1), where u = "[]"] by (simp add: p(1) body(1))
    show ?thesis unfolding True send_chunks.simps
      by (rule surely_seq [OF told], rule surely_bnd [OF early_crc [OF length_VERSION body(2)]], intro surely_fact)
        (use w'(2-5) in \<open>auto intro!: surely_ret\<close>)
  next
    case False
    then have "1 \<le> len chs" by (cases chs) simp_all
    then have more: "len fed + len ch \<le> p_csize P" "k + 1 < p_total P" using Cons.prems(4,5) plain(3) by auto
    obtain w' where w': "answers E f w [] w'" "expecting E P L tmp i (k + 1) (fed @ ch) w'" "listening m j w'" "cfg w' = cfg w" "handshake_verified (w_sess w')"
      using packet_served [OF E Cons.prems(2,3) P(3) n(1) p(1) f p(2) c(1-3) more Cons.prems(7-9)] by blast
    have told: "surely (linked w []) (send_request (server_net E ip B) (p_cid P) 828 (p_packet P (k + 1) ch)) (\<lambda>_. linked w' [])"
      using surely_told [OF f' w'(1)] by (simp add: p(1))
    have others: "surely (linked w' []) (send_chunks (server_net E ip B) (p_cid P) (p_packet P) (k + 1 + 1) chs) (\<lambda>e s. \<exists>v.
        (e = CrcReceived \<and> (\<exists>w0. uploaded P L tmp plain w0 v) \<and> listening m j v \<and> cfg v = cfg w \<and> handshake_verified (w_sess v)) \<and> linked v [] s)"
      using Cons.IH [OF False w'(2) _ _ _ _ w'(3) _ w'(5)] Cons.prems(3-6,8) w'(4) by simp
    show ?thesis unfolding send_chunks.simps
      by (rule surely_seq [OF told], rule surely_bnd [OF early_none], rule surely_fact) (simp only: simp_thms if_True others)
  qed
qed simp

section \<open>The end of the connection\<close>

text \<open>The client has closed, the server has left the loop and cleaned up.\<close>

definition parted :: "world \<Rightarrow> server_link client \<Rightarrow> bool" where
  "parted w s \<longleftrightarrow> (let v = sl_world (c_link s) in w_fs v = w_fs w \<and> w_store v = w_store w \<and> w_limiter v = w_limiter w \<and> w_closed v)"

lemma part_ways:
  assumes "xf w = no_transfer" "\<not> has_upload_slot (w_sess w)" "linked w u s"
  shows "\<exists>s'. close_connection (server_net E ip B) s = (Ok (), s') \<and> parted w s'"
proof -
  obtain r v where v: "loop_guard (client_loop E [Chunk []]) w = (r, v)" by fastforce
  then have k: "w_fs v = w_fs w" "w_store v = w_store w" "w_limiter v = w_limiter w" "xf v = no_transfer" "\<not> has_upload_slot (w_sess v)"
    using assms(1,2) by (auto simp: loop_guard_def loop_iteration_def loop_head_def chunk_read_def leave_with_def set_reason_def upd_sess_def
        next_of_def bnd_def try_except_def split: if_splits)
  have "w_fs (snd (cleanup E ip True v)) = w_fs v" "w_store (snd (cleanup E ip True v)) = w_store v"
      "w_limiter (snd (cleanup E ip True v)) = w_limiter v" "w_closed (snd (cleanup E ip True v))"
    using k(4,5) by (simp_all add: cleanup_def next_of_def bnd_def upd_metrics_def no_transfer_def)
  then show ?thesis using assms(3) v k
    by (simp add: close_connection_def on_link_def server_net_def link_close_def linked_def parted_def)
qed

lemma surely_result:
  assumes "xf w = no_transfer" "\<not> has_upload_slot (w_sess w)"
  shows "surely (linked w u) (bnd (close_connection (server_net E ip B)) (\<lambda>_. result_ok (server_net E ip B) t))
    (\<lambda>r s. r_ok r \<and> r_error r = None \<and> parted w s)"
proof (rule surelyI)
  fix s assume "linked w u s"
  then obtain s' where "close_connection (server_net E ip B) s = (Ok (), s')" "parted w s'" using part_ways [OF assms] by blast
  then show "\<exists>x v. bnd (close_connection (server_net E ip B)) (\<lambda>_. result_ok (server_net E ip B) t) s = (Ok x, v) \<and>
      r_ok x \<and> r_error x = None \<and> parted w v"
    by (simp add: bnd_def result_ok_def elapsed_ms_def from_link_def server_net_def draw_def parted_def Let_def)
qed

lemma upload_confirm_served:
  assumes E: "all_well E" and u: "uploaded P L tmp plain w0 w" and P: "plan_built m P" "path_basename (p_name P) = p_name P" "packet_fits m P []"
    and w: "listening m j w" "int j < max_req_per_window (cfg w)" "handshake_verified (w_sess w)"
  shows "surely (linked w []) (upload_confirm (server_net E ip B) timeout started (p_cid P) (p_name P)) (\<lambda>r s. r_ok r \<and> r_error r = None \<and>
    (\<exists>w'. confirmed P L (crc32 plain 0) w w' \<and> parted w' s))" (is "surely _ _ ?Q")
proof -
  let ?p = "utf8_bytes (path_basename (p_name P)) @ [0]"
  have n: "0 \<notin> set (p_name P)" "p_version P = VERSION" "length (p_cid P) = 16" "list_all valid_cp (path_basename (p_name P))" "m < 256 ^ 4"
    using P(1,2) by (simp_all add: plan_built_def)
  have p: "len ?p \<le> m" "len ?p < 256 ^ 4" using P(2,3) n(5) by simp_all
  obtain f where f: "build_request_frame (p_cid P) 900 ?p VERSION = Ok f"
    using request_frame_built [of "p_cid P" 900 ?p VERSION] n(3) p(2) by auto
  obtain w' where w': "answers E f w [frame_1604 P] w'" "confirmed P L (crc32 plain 0) w w'"
    using confirm_served [OF E u _ n(3,1,4) _ p(1) w] f n(2) by auto
  have e: "res_bnd (utf8_encode (p_name P)) (\<lambda>b. Ok (b @ [0])) = Ok ?p" using P(2) n(4) by (simp add: utf8_encode_def)
  have fin: "xf w' = no_transfer" "\<not> has_upload_slot (w_sess w')" using w'(2) by (simp_all add: confirmed_def)
  have rest: "surely (linked w' []) (bnd (timing (server_net E ip B) ''confirm_ms'' phase) (\<lambda>_.
      if (1604 :: int) \<noteq> 1604 then load_fail ''final_confirm_failed_'' 1604
      else bnd (close_connection (server_net E ip B)) (\<lambda>_. result_ok (server_net E ip B) started))) ?Q" for phase
    by (rule surely_seq [OF surely_timing], simp only: simp_thms if_False, rule surely_conseq [OF surely_result [OF fin]]) (use w'(2) in auto)
  show ?thesis unfolding upload_confirm_def e
    by (rule surely_seq [OF surely_clock],
        rule surely_asked [OF f w'(1) [unfolded frame_1604_response [OF n(3)] n(2)] length_VERSION]) (simp_all add: n(3) rest [simplified])
qed

text \<open>Everything the client sends for one file, from packet 0 on.\<close>

lemma upload_send_served:
  assumes E: "all_well E" and P: "plan_built m P" "plan_ok (cfg w) P" "plan_sendable P" "aes_key_ok E (p_key P) (p_iv P)" "path_basename (p_name P) = p_name P"
    and plain: "unpad E (aes_cbc_dec E (p_key P) (p_iv P) [] cipher) AES_BLOCK = Some plain" "len plain = p_osize P" "len cipher = p_csize P"
    and ch: "0 < chunk_size" "len (chunks_from (nat chunk_size) cipher) = p_total P"
      "\<forall>ch \<in> set (chunks_from (nat chunk_size) cipher). length ch mod AES_BLOCK = 0 \<and> len ch \<le> max_chunk_size (cfg w) \<and> packet_fits m P ch" "packet_fits m P (p_iv P)"
    and x: "xf w = no_transfer" "has_writer (w_sess w)" and e: "enrolled (bytes_hex (p_cid P)) n der (Some (b64encode (p_key P))) (w_store w)"
    and s: "can_start P i w" and w: "listening m k w" "int k < max_req_per_window (cfg w)" "handshake_verified (w_sess w)"
  shows "surely (linked w []) (upload_send (server_net E ip B) timeout started chunk_size (p_cid P) (p_name P) (plain, p_iv P, cipher, p_total P))
    (\<lambda>r s. r_ok r \<and> r_error r = None \<and> (\<exists>w0 w1 w2 tmp. uploaded P (slot_used w) tmp plain w0 w1 \<and>
      confirmed P (slot_used w) (crc32 plain 0) w1 w2 \<and> parted w2 s))" (is "surely _ _ ?Q")
proof -
  let ?N = "server_net E ip B" and ?chs = "chunks_from (nat chunk_size) cipher"
  have n: "0 \<notin> set (p_name P)" "p_version P = VERSION" "length (p_iv P) = 16" "p_key P \<noteq> []" using P(1) by (simp_all add: plan_built_def)
  have t: "0 < p_total P" using P(2) by (simp add: plan_ok_def)
  obtain payload f where p: "p_packet P 0 (p_iv P) = Ok payload" "len payload \<le> m" and f: "build_request_frame (p_cid P) 828 payload VERSION = Ok f"
    using packet_built [OF P(1) ch(4), of 0] t by auto
  obtain w1 where w1: "answers E f w [] w1" "prepared P w1" "can_start P i w1" "w_limiter w1 = w_limiter w" "connection_id (w_sess w1) = connection_id (w_sess w)"
      "listening m k w1" "cfg w1 = cfg w" "handshake_verified (w_sess w1)"
    using packet_zero_served [OF p(1) _ p(2) n(1) P(2) n(3,4) x e s w(1) _ w(3)] f n(2) w(2) by auto
  define tmp where "tmp = upload_temp_path (p_path P) (connection_id (w_sess w1))"
  have x1: "expecting E P (slot_used w) tmp i 0 [] w1" using w1(2-4) by (simp add: expecting_def tmp_def)
  have ne: "?chs \<noteq> []" using ch(2) t by auto
  have cs: "\<forall>c \<in> set ?chs. c \<noteq> [] \<and> length c mod AES_BLOCK = 0 \<and> len c \<le> max_chunk_size (cfg w1) \<and> packet_fits m P c"
    using ch(3) chunks_from_sizes w1(7) by metis
  have sent: "surely (linked w1 []) (send_chunks ?N (p_cid P) (p_packet P) (0 + 1) ?chs) (\<lambda>e s. \<exists>w'.
      (e = CrcReceived \<and> (\<exists>w0. uploaded P (slot_used w) tmp plain w0 w') \<and> listening m k w' \<and> cfg w' = cfg w1 \<and> handshake_verified (w_sess w')) \<and> linked w' [] s)"
    by (rule send_chunks_served [OF E P(1,3,4) plain ne x1 _ _ _ cs w1(6) _ w1(8)])
      (use P(2) w1(7) ch(1,2) w(2) chunks_from_concat [of "nat chunk_size" cipher] in auto)
  have told: "surely (linked w []) (send_request ?N (p_cid P) 828 (p_packet P 0 (p_iv P))) (\<lambda>_. linked w1 [])"
    using surely_told [OF f w1(1)] by (simp add: p(1))
  have fits: "packet_fits m P []" using ch(4) by simp
  have finish: "surely (linked w' []) (upload_finish ?N timeout started phase (p_cid P) (p_name P) True) ?Q"
    if "uploaded P (slot_used w) tmp plain w0 w'" "listening m k w'" "cfg w' = cfg w" "handshake_verified (w_sess w')" for w0 w' phase
    unfolding upload_finish_def if_True bnd_ret option.case
    by (rule surely_seq [OF surely_timing],
        rule surely_conseq [OF upload_confirm_served [OF E that(1) P(1,5) fits that(2) _ that(4)]]) (use w(2) that in auto)
  have cb: "chunk_bytes cipher chunk_size = Ok ?chs" using ch(1) by (simp add: chunk_bytes_def)
  show ?thesis
    unfolding upload_send_def prod.case Let_def plain(2,3)
    by (rule surely_seq [OF surely_clock], rule surely_seq [OF told], rule surely_bnd [OF early_none], rule surely_fact,
        simp only: early.case, rule surely_pure [OF cb], rule surely_bnd [OF sent [simplified]], intro surely_ex surely_fact)
      (use finish w1(7) in auto)
qed

section \<open>A file from the client's memory to the server's disk\<close>

definition name_fits :: "pystr \<Rightarrow> bool" where
  "name_fits f \<longleftrightarrow> path_basename f = f \<and> f \<notin> {[], DOT, DOTDOT} \<and> 0 \<notin> set f \<and> list_all valid_cp f"

text \<open>The size of the ciphertext, and the limits of the configuration and of the framer the file must be within.\<close>

definition sealed_size :: "int \<Rightarrow> int" where
  "sealed_size file_size = (file_size div 16 + 1) * 16"

definition file_fits :: "config \<Rightarrow> int \<Rightarrow> int \<Rightarrow> int \<Rightarrow> pystr \<Rightarrow> bool" where
  "file_fits c m file_size chunk_size f \<longleftrightarrow> 0 < file_size \<and> sealed_size file_size \<le> max_file_size c \<and> sealed_size file_size < 256 ^ 4 \<and>
     0 < chunk_size \<and> chunk_size mod 16 = 0 \<and> chunk_size \<le> max_chunk_size c \<and>
     \<lceil>real_of_int (sealed_size file_size) / real_of_int chunk_size\<rceil> \<le> max_packets c \<and>
     \<lceil>real_of_int (sealed_size file_size) / real_of_int chunk_size\<rceil> < 65536 \<and>
     13 + len (utf8_bytes f) + chunk_size \<le> m \<and> m < 4000000000"

lemma surely_try: "surely P m Q \<Longrightarrow> surely P (try_except m p h) Q"
  by (fastforce simp: surely_def try_except_def)

text \<open>The plan of a sealed file.\<close>

abbreviation file_plan :: "bytes \<Rightarrow> bytes \<Rightarrow> bytes \<Rightarrow> pystr \<Rightarrow> bytes \<Rightarrow> bytes \<Rightarrow> int \<Rightarrow> upload_plan" where
  "file_plan cid aes iv f plain c tot \<equiv> \<lparr>p_cid = cid, p_version = VERSION, p_key = aes, p_iv = iv, p_name = f,
     p_csize = len c, p_osize = len plain, p_total = tot\<rparr>"

lemma sealed_plan:
  fixes cid aes iv plain c :: bytes and f :: pystr and tot :: int
  defines "P \<equiv> file_plan cid aes iv f plain c tot"
  assumes s: "sealed E B file_size chunk_size aes (plain, iv, c, tot)" and f: "file_fits conf m file_size chunk_size f" "name_fits f"
    and l: "length cid = 16" "length aes = 32"
  shows "plan_built m P" "plan_ok conf P" "plan_sendable P" "packet_fits m P iv" "len (chunks_from (nat chunk_size) c) = tot"
    "\<forall>ch \<in> set (chunks_from (nat chunk_size) c). length ch mod AES_BLOCK = 0 \<and> len ch \<le> max_chunk_size conf \<and> packet_fits m P ch"
proof -
  have c: "len c = sealed_size file_size" "len plain = file_size" "length iv = 16" "tot = len (chunks_from (nat chunk_size) c)"
    using s by (auto simp: sealed_def sealed_size_def)
  have d: "0 < file_size" "0 < chunk_size" "chunk_size mod 16 = 0" "sealed_size file_size < 256 ^ 4" "sealed_size file_size \<le> max_file_size conf"
      "chunk_size \<le> max_chunk_size conf" "13 + len (utf8_bytes f) + chunk_size \<le> m" "m < 4000000000"
    using f(1) by (simp_all add: file_fits_def)
  have n: "path_basename f = f" "0 \<notin> set f" "list_all valid_cp f" using f(2) by (simp_all add: name_fits_def)
  have t: "tot = \<lceil>real_of_int (sealed_size file_size) / real_of_int chunk_size\<rceil>"
    unfolding c(4) using chunks_from_count [of "nat chunk_size" c] d(2) c(1) by simp
  have sz: "file_size \<le> sealed_size file_size" "0 < sealed_size file_size" "sealed_size file_size mod 16 = 0" "16 \<le> chunk_size"
    using d(1-3) by (auto simp: sealed_size_def)
  have pos: "0 < tot" using sz(2) d(2) by (simp add: t)
  show "plan_built m P" using l n(2,3) c(1-3) sz(1,2) d f(1) by (auto simp: plan_built_def P_def t file_fits_def)
  show "plan_ok conf P" using pos c(1-3) sz(1,2) d f(1) by (auto simp: plan_ok_def P_def file_fits_def t)
  show "plan_sendable P" using n l(1) c(1) d sz(4) by (simp add: plan_sendable_def P_def)
  show "packet_fits m P iv" using d(7) sz(4) c(3) by (simp add: P_def)
  show "len (chunks_from (nat chunk_size) c) = tot" using c(4) by simp
  have al: "nat chunk_size mod AES_BLOCK = 0" "length c mod AES_BLOCK = 0"
    using nat_mod_distrib [of chunk_size 16] d(2,3) zmod_int [of "length c" 16] sz(3) c(1) by (simp_all add: AES_BLOCK_def)
  show "\<forall>ch \<in> set (chunks_from (nat chunk_size) c). length ch mod AES_BLOCK = 0 \<and> len ch \<le> max_chunk_size conf \<and> packet_fits m P ch"
  proof
    fix ch assume ch: "ch \<in> set (chunks_from (nat chunk_size) c)"
    have "len ch \<le> chunk_size" using chunks_from_sizes [OF ch] d(2) by linarith
    then show "length ch mod AES_BLOCK = 0 \<and> len ch \<le> max_chunk_size conf \<and> packet_fits m P ch"
      using chunks_from_aligned [OF al ch] d(6,7) by (simp add: P_def)
  qed
qed

definition room_at :: "pystr \<Rightarrow> world \<Rightarrow> bool" where
  "room_at f w \<longleftrightarrow> (\<forall>P. p_name P = f \<longrightarrow> length (p_cid P) = 16 \<longrightarrow> room_for P (connection_id (w_sess w)) w)"

lemma room_can_start:
  assumes r: "room_at f w" and u: "connection_id (w_sess w) = bytes_hex u" "\<not> has_upload_slot (w_sess w)" and P: "p_name P = f" "length (p_cid P) = 16" "name_fits f"
    and w1: "w_fs w1 = w_fs w" "w_limiter w1 = w_limiter w" "connection_id (w_sess w1) = connection_id (w_sess w)" "has_upload_slot (w_sess w1) = has_upload_slot (w_sess w)"
  shows "\<exists>i. can_start P i w1" "upload_release (slot_used w1) = w_limiter w"
proof -
  have rf: "room_for P (bytes_hex u) w" using r P u(1) by (simp add: room_at_def)
  have "p_cid P \<noteq> []" using P(2) by auto
  then show "\<exists>i. can_start P i w1"
    using can_start_at_path [of P w1 u] P(1,3) rf u w1 by (simp add: name_fits_def room_for_def)
  show "upload_release (slot_used w1) = w_limiter w" using rf w1(2) by (simp add: room_for_def upload_release_def)
qed

text \<open>What the run leaves on the server.\<close>

definition landed :: "bytes \<Rightarrow> pystr \<Rightarrow> bytes \<Rightarrow> world \<Rightarrow> world \<Rightarrow> bool" where
  "landed cid f plain w v \<longleftrightarrow> file_at (w_fs v) (user_dir (bytes_hex cid) @ SEP # f) = Some plain \<and>
     (\<exists>row \<in> set (uploads_table (w_store v)). up_client_id_hex row = bytes_hex cid \<and> up_file_name row = f \<and> up_orig_file_size row = len plain \<and>
        up_status row = ''completed'' \<and> up_server_crc32 row = Some (uint (crc32 plain 0))) \<and>
     w_limiter v = w_limiter w \<and> w_closed v"

lemma upload_landed:
  assumes u: "uploaded P L tmp plain w0 w1" "confirmed P L (crc32 plain 0) w1 w2" "parted w2 s" and P: "p_name P = f" "length (p_cid P) = 16" "name_fits f"
    and L: "upload_release L = w_limiter w" "p_osize P = len plain"
  shows "landed (p_cid P) f plain w (sl_world (c_link s))"
proof -
  have "p_cid P \<noteq> []" using P(2) by auto
  then have path: "p_path P = user_dir (bytes_hex (p_cid P)) @ SEP # f" using upload_path_value [of "p_cid P" f] P(1,3) by (simp add: name_fits_def)
  then show ?thesis using u L P(1,3) by (auto simp: landed_def uploaded_def confirmed_def parted_def Let_def completed_def name_fits_def)
qed

text \<open>The state between registration and key exchange.\<close>

definition registered :: "env \<Rightarrow> int \<Rightarrow> world \<Rightarrow> pystr \<times> bytes \<Rightarrow> world \<Rightarrow> bool" where
  "registered E m w = (\<lambda>(user, new) w'. name_ok E user \<and> (\<exists>b. length b = 6 \<and> user = up_user b) \<and> length new = 16 \<and>
     (\<exists>cn sn. calmer (shaken cn sn w) w') \<and> enrolled (bytes_hex new) user None None (w_store w') \<and> listening m 3 w')"

lemma file_sent:
  assumes E: "all_well E" and w: "connection_id (w_sess w) = bytes_hex u" "5 \<le> max_req_per_window (cfg w)"
    and fr: "has_writer (w_sess w)" "xf w = no_transfer" "\<not> has_upload_slot (w_sess w)"
    and f: "file_fits (cfg w) m file_size chunk_size f" "name_fits f" "room_at f w" and m: "0 < chunk_size"
    and cid: "length cid = 16" and aes: "length aes = 32" and c: "calmer (shaken cn sn w) w2"
    and e: "enrolled (bytes_hex cid) user der (Some (b64encode aes)) (w_store w2)" and l: "listening m 4 w2"
    and s: "sealed E B file_size chunk_size aes (plain, iv, c, tot)"
  shows "surely (linked w2 []) (upload_send (server_net E ip B) timeout started chunk_size cid f (plain, iv, c, tot))
    (\<lambda>r s. r_ok r \<and> r_error r = None \<and> (\<exists>cid t. length cid = 16 \<and> landed cid f (cb_random B t (nat file_size)) w (sl_world (c_link s))))"
proof -
  define P where "P = file_plan cid aes iv f plain c tot"
  note c' = shaken_calmer [OF c]
  have P: "p_cid P = cid" "p_key P = aes" "p_iv P = iv" "p_name P = f" "p_csize P = len c" "p_osize P = len plain" "p_total P = tot" by (simp_all add: P_def)
  have s': "aes_key_ok E aes iv" "unpad E (aes_cbc_dec E aes iv [] c) AES_BLOCK = Some plain" "\<exists>t. plain = cb_random B t (nat file_size)"
    using s by (simp_all add: sealed_def)
  note sp = sealed_plan [OF s f(1) [folded c'(4)] f(2) cid aes, folded P_def]
  have len: "length (p_cid P) = 16" using cid P(1) by simp
  obtain i where i: "can_start P i w2" and L: "upload_release (slot_used w2) = w_limiter w"
    using room_can_start [OF f(3) w(1) fr(3) P(4) len f(2) c'(9,10,8,7)] by blast
  have sent: "surely (linked w2 []) (upload_send (server_net E ip B) timeout started chunk_size (p_cid P) (p_name P) (plain, p_iv P, c, p_total P))
      (\<lambda>r s. r_ok r \<and> r_error r = None \<and> (\<exists>w0 w1 w3 tmp. uploaded P (slot_used w2) tmp plain w0 w1 \<and>
        confirmed P (slot_used w2) (crc32 plain 0) w1 w3 \<and> parted w3 s))"
    by (rule upload_send_served [OF E sp(1-3) _ _ _ _ _ m _ sp(6) _ _ _ _ i l _ c'(2)])
      (use s' sp(4,5) P f(2) fr c' e w(2) in \<open>simp_all add: name_fits_def\<close>)
  show ?thesis
    by (rule surely_conseq [OF sent [unfolded P(1,3,4,7)]], assumption)
      (use upload_landed [OF _ _ _ P(4) len f(2) L P(6)] s'(3) len in blast)
qed

lemma upload_client_delivers:
  assumes E: "outside_works E (server_identity_key (w_sess w)) (w_store w)" "ascii_alnum E"
    and w: "fresh E m w" "5 \<le> max_req_per_window (cfg w)" "34 \<le> m" "connection_id (w_sess w) = bytes_hex u"
    and B: "draws_well B" "names_free B (w_store w)" "ciphers E B" "key_source E B m src"
    and f: "file_fits (cfg w) m file_size chunk_size f" "name_fits f" "room_at f w" "f = upload_file_name name file_size"
  shows "surely (linked w []) (upload_client (server_net E ip B) timeout file_size chunk_size src name)
    (\<lambda>r s. r_ok r \<and> r_error r = None \<and> (\<exists>cid t. length cid = 16 \<and> landed cid f (cb_random B t (nat file_size)) w (sl_world (c_link s))))"
  (is "surely _ _ ?Q")
proof -
  let ?N = "server_net E ip B"
  have aw: "all_well E" using E(1) by (simp add: outside_works_def server_works_def)
  have fr: "has_writer (w_sess w)" "xf w = no_transfer" "\<not> has_upload_slot (w_sess w)" using w(1) by (simp_all add: fresh_def)
  have m: "m < 256 ^ 4" "0 \<le> file_size" "0 < chunk_size" using f(1) by (simp_all add: file_fits_def)
  show ?thesis
    unfolding upload_client_def f(4) [symmetric]
  proof (rule surely_seq [OF surely_clock], rule surely_try, rule surely_step)
    show "surely (linked w []) (upload_register ?N timeout) (\<lambda>x s. \<exists>w'. registered E m w x w' \<and> linked w' [] s)"
      by (rule surely_conseq [OF upload_register_served [OF E B(1,2) w(1) _ w(3)]]) (use w(2) in \<open>auto simp: registered_def\<close>)
    fix started x w1
    assume "registered E m w x w1"
    then obtain user cid cn sn where x: "x = (user, cid)" and r: "name_ok E user" "\<exists>b. length b = 6 \<and> user = up_user b" "length cid = 16"
        "calmer (shaken cn sn w) w1" "enrolled (bytes_hex cid) user None None (w_store w1)" "listening m 3 w1"
      by (cases x) (auto simp: registered_def)
    note c' = shaken_calmer [OF r(4)]
    have o: "server_works E (server_identity_key (w_sess w1))" using outside_server [OF E(1)] c'(6) by simp
    have k: "has_writer (w_sess w1)" "int 3 < max_req_per_window (cfg w1)" using c' fr(1) w(2) by simp_all
    show "surely (linked w1 []) (case x of (user, cid) \<Rightarrow> bnd (upload_exchange_key ?N timeout src user cid) (\<lambda>aes.
        bnd (upload_prepare ?N file_size chunk_size aes) (upload_send ?N timeout started chunk_size cid f))) ?Q"
      unfolding x prod.case
    proof (rule surely_step [OF upload_exchange_key_served [OF o E(2) B(4) r(1-3) m(1) c'(1) k(1) r(5,6) k(2)]])
      fix aes w2
      assume "length aes = 32 \<and> calmer w1 w2 \<and> (\<exists>der. enrolled (bytes_hex cid) user der (Some (b64encode aes)) (w_store w2)) \<and> listening m (Suc 3) w2"
      then obtain der where a: "length aes = 32" "calmer w1 w2" "enrolled (bytes_hex cid) user der (Some (b64encode aes)) (w_store w2)" "listening m 4 w2"
        by auto
      show "surely (linked w2 []) (bnd (upload_prepare ?N file_size chunk_size aes) (upload_send ?N timeout started chunk_size cid f)) ?Q"
      proof (rule surely_bnd [OF upload_prepare_done [OF B(1,3) a(1) m(2,3)]], rule surely_fact)
        fix q assume "sealed E B file_size chunk_size aes q"
        then show "surely (linked w2 []) (upload_send ?N timeout started chunk_size cid f q) ?Q"
          by (cases q) (use file_sent [OF aw w(4,2) fr f(1-3) m(3) r(3) a(1) calmer_trans [OF r(4) a(2)] a(3,4)] in blast)
      qed
    qed
  qed
qed

text \<open>C2: the upload client of the load test and the server together, byte by byte: a client connects,
  runs the whole coroutine \<open>upload_client\<close> (handshake, registration under a random name, key
  exchange, encryption, packets, confirmation) and the server reads what it writes in pieces of
  at most 1024 bytes through its framer, rate limiter and router. On a fresh connection, with a
  working outside, matching ciphers, a free name and room for the file within the limits, the
  client reports success, and the server is left with the client's random file, decrypted, in
  the directory of the id it gave out, a completed row with its size and CRC, no upload slot
  taken and the connection closed.\<close>

theorem upload_client_stores_file:
  assumes "outside_works E (server_identity_key (w_sess w)) (w_store w)" and "ascii_alnum E"
    and "fresh E m w" and "5 \<le> max_req_per_window (cfg w)" and "34 \<le> m" and "connection_id (w_sess w) = bytes_hex u"
    and "draws_well B" and "names_free B (w_store w)" and "ciphers E B" and "key_source E B m rsa_material"
    and "file_fits (cfg w) m file_size chunk_size (upload_file_name name file_size)" and "name_fits (upload_file_name name file_size)"
    and "room_at (upload_file_name name file_size) w"
  shows "\<exists>r s cid plain. upload_client (server_net E ip B) io_timeout file_size chunk_size rsa_material name
      (client_start \<lparr>sl_world = w, sl_unread = [], sl_up = True, sl_draws = d\<rparr>) = (Ok r, s) \<and>
    r_ok r \<and> r_error r = None \<and> length cid = 16 \<and> (\<exists>t. plain = cb_random B t (nat file_size)) \<and>
    file_at (w_fs (sl_world (c_link s))) (user_dir (bytes_hex cid) @ SEP # upload_file_name name file_size) = Some plain \<and>
    (\<exists>row \<in> set (uploads_table (w_store (sl_world (c_link s)))). up_client_id_hex row = bytes_hex cid \<and>
       up_file_name row = upload_file_name name file_size \<and> up_orig_file_size row = len plain \<and>
       up_status row = ''completed'' \<and> up_server_crc32 row = Some (uint (crc32 plain 0))) \<and>
    w_limiter (sl_world (c_link s)) = w_limiter w \<and> w_closed (sl_world (c_link s))"
proof -
  let ?s = "client_start \<lparr>sl_world = w, sl_unread = [], sl_up = True, sl_draws = d\<rparr>"
  have "linked w [] ?s" by (simp add: linked_def client_start_def)
  from surelyD [OF upload_client_delivers [OF assms refl] this] obtain r s cid t where
      r: "upload_client (server_net E ip B) io_timeout file_size chunk_size rsa_material name ?s = (Ok r, s)" "r_ok r" "r_error r = None" "length cid = 16"
      and l: "landed cid (upload_file_name name file_size) (cb_random B t (nat file_size)) w (sl_world (c_link s))"
    by blast
  show ?thesis
    by (rule exI [of _ r], rule exI [of _ s], rule exI [of _ cid], rule exI [of _ "cb_random B t (nat file_size)"])
      (intro conjI exI [of _ t] r l [unfolded landed_def, THEN conjunct1] refl, use l in \<open>simp_all add: landed_def\<close>)
qed

section \<open>A concrete client\<close>

definition pkcs7_pad :: "bytes \<Rightarrow> nat \<Rightarrow> bytes" where
  "pkcs7_pad b n = (let k = n - length b mod n in b @ replicate k (of_nat k))"

lemma pkcs7_unpad_pad: "pkcs7_unpad (pkcs7_pad b 16) 16 = Some b" "length (pkcs7_pad b 16) = (length b div 16 + 1) * 16"
proof -
  define k where "k = 16 - length b mod 16"
  have k: "1 \<le> k" "k \<le> 16" by (auto simp: k_def)
  then have "unat (word_of_nat k :: byte) = k" by (simp add: unat_of_nat)
  note k = k this
  have "length b mod 16 + k = 16" by (simp add: k_def)
  then have "length b + k = (length b div 16 + 1) * 16" using div_mult_mod_eq [of "length b" 16] unfolding add_mult_distrib by linarith
  then show l: "length (pkcs7_pad b 16) = (length b div 16 + 1) * 16" by (simp add: pkcs7_pad_def Let_def k_def [symmetric])
  have "last (replicate k (word_of_nat k)) = (word_of_nat k :: byte)" using k(1) by (simp add: last_replicate)
  then show "pkcs7_unpad (pkcs7_pad b 16) 16 = Some b"
    using k l by (simp add: pkcs7_unpad_def pkcs7_pad_def Let_def k_def [symmetric])
qed

definition client_box_example :: client_box where
  "client_box_example = \<lparr>cb_clock = real, cb_random = (\<lambda>t n. replicate n (of_nat t)), cb_key = (\<lambda>_. 0), cb_public_der = (\<lambda>_. [48]),
     cb_oaep_decrypt = (\<lambda>_ c. Ok c), cb_aes_encrypt = (\<lambda>_ _ p. Ok p), cb_pad = pkcs7_pad, cb_type_name = (\<lambda>_. []), cb_exn_text = (\<lambda>_. [])\<rparr>"

text \<open>The example connection with a handshake deadline the example clock keeps.\<close>

definition patient_example :: world where
  "patient_example = world_example\<lparr>w_sess := session_example\<lparr>s_config := config_example\<lparr>handshake_timeout_s := 30\<rparr>\<rparr>\<rparr>"

theorem upload_client_stores_file_witness:
  "\<exists>r s cid b. upload_client (server_net env_example (lit ''127.0.0.1'') client_box_example) 30 20 16 None (Some (lit ''a''))
      (client_start \<lparr>sl_world = patient_example, sl_unread = [], sl_up = True, sl_draws = 0\<rparr>) = (Ok r, s) \<and> r_ok r \<and>
    file_at (w_fs (sl_world (c_link s))) (user_dir (bytes_hex cid) @ lit ''/a'') = Some (replicate 20 b) \<and> w_closed (sl_world (c_link s))"
proof -
  let ?m = "max_payload_size (s_framer session_example)" and ?B = client_box_example
  have s: "unstarted (w_sess patient_example)" "s_framer session_example = \<lparr>max_payload_size = ?m, buf = []\<rparr>" "?m = 10000000"
    using session_init_fresh [OF session_example_simps(1)]
    by (simp_all add: unstarted_def patient_example_def session_example_def session_init_def framer_init_def config_example_def Config_new_def)
  have 1: "fresh env_example ?m patient_example"
    using s(1,2) store_example_ok by (simp add: fresh_def patient_example_def config_example_def Config_new_def)
  have 2: "ascii_alnum env_example" "draws_well ?B" by (simp_all add: ascii_alnum_def env_example_def draws_well_def client_box_example_def)
  have 3: "names_free ?B (w_store patient_example)" by (simp add: names_free_def store_example_ok(3) lit_def patient_example_def)
  have 4: "ciphers env_example ?B" using pkcs7_unpad_pad by (simp add: ciphers_def client_box_example_def AES_BLOCK_def zdiv_int)
  have 5: "key_source env_example ?B ?m None"
    using key_example s(3) by (auto simp: key_source_def key_pair_def client_box_example_def b64_char_def intro!: exI [of _ "[48]"])
  have f: "upload_file_name (Some (lit ''a'')) 20 = [97]" by (simp add: upload_file_name_def lit_def)
  have 6: "file_fits (cfg patient_example) ?m 20 16 [97]" "name_fits [97]" "room_at [97] patient_example"
    using s(3) by (simp_all add: file_fits_def sealed_size_def name_fits_def room_at_def room_for_def dirs_free_def patient_example_def config_example_def Config_new_def
        path_basename_def DOT_def DOTDOT_def valid_cp_def is_surrogate_def utf8_bytes_def utf8_cp_def)
  have "5 \<le> max_req_per_window (cfg patient_example)" "34 \<le> ?m" "connection_id (w_sess patient_example) = bytes_hex (replicate 16 7)"
    using s(3) by (simp_all add: patient_example_def config_example_def Config_new_def)
  from upload_client_stores_file [OF _ 2(1) 1 this 2(2) 3 4 5 6 [folded f], of "lit ''127.0.0.1''" 30 0] show ?thesis
    using outside_example unfolding f by (fastforce simp: patient_example_def client_box_example_def lit_def)
qed

end
