(* ===== verification/Spec2Isabelle.thy ===== *)
theory Spec2Isabelle
  imports Lifecycle Server_Types Metrics_Http Client_Server
begin

text \<open>
  A verification library for the server of the secure file transfer program (SEFTP), the
  Python code under \<open>src/server\<close>.

  The program. Clients connect over TCP and exchange length-prefixed frames with an
  \<open>asyncio\<close> server (\<open>server_async.py\<close>). A connection is admitted by the connection limiter,
  its bytes are cut into frames (\<open>framing.py\<close>), each frame is parsed and dispatched
  (\<open>router.py\<close>) to a request handler (\<open>handlers.py\<close>), which reads and writes the client
  directory (\<open>store.py\<close>, SQLite with an index in memory), the connection's state
  (\<open>session.py\<close>), the shared upload limiter, the metrics and the files under
  \<open>data/uploads\<close>, and answers (\<open>answers.py\<close>). Before anything else is served the two sides
  run a handshake in which the server signs both nonces with its identity key
  (\<open>server_identity.py\<close>); AES keys later leave only in responses signed for that handshake.
  An upload is a sequence of requests 828: packet 0 brings the IV, the packets after it the
  ciphertext, decrypted as it arrives into a temporary file that takes its place under its
  name after the last packet, when a CRC goes back to the client for its verdict.

  Theories, in the order in which they build on each other.
  \<^item> \<open>Prelude\<close>: bytes, strings, exceptions as values, the effect type (a function of the state
    that gives a value or an exception and the new state), \<open>keeps R m\<close> (an effect whose every
    outcome is \<open>R\<close>-related to its start) with the locale \<open>change_rel\<close>, little-endian fields.
    \<open>Text_Codec\<close>, \<open>Crc32\<close>, \<open>Posix_Path\<close>, \<open>Files\<close>: what the code uses of Python's standard
    library: UTF-8, hex, Base64, CRC-32, \<open>posixpath\<close>, the file calls.
  \<^item> \<open>Framing\<close> (\<open>framing.py\<close>): \<open>framer_feed\<close>, exact on every cut of the stream (the frames a
    raising read had completed are lost with it), bounded buffer.
  \<^item> \<open>Limiters\<close> (\<open>connection_limiter.py\<close>, \<open>upload_limiter.py\<close>): both interpret the locale
    \<open>capped_slots\<close>, whose ledger counts who holds a slot.
  \<^item> \<open>Store\<close> (\<open>store.py\<close>): the tables, the index, every method, with the outcome of each SQL
    statement as an argument. The index agrees with the table as long as no \<open>commit\<close> fails.
  \<^item> \<open>Metrics\<close>, \<open>Metrics_Http\<close> (\<open>runtime_metrics.py\<close>, \<open>metrics_export.py\<close>, \<open>metrics_http.py\<close>).
  \<^item> \<open>Config\<close> (\<open>config.py\<close>), \<open>Session\<close> (\<open>session.py\<close>, and the record \<open>env\<close> of everything the
    code takes from outside), \<open>Identity\<close>, \<open>Identity_File\<close> (\<open>server_identity.py\<close>),
    \<open>Executor\<close> (\<open>bounded_executor.py\<close>).
  \<^item> \<open>Answers\<close> (\<open>answers.py\<close>), \<open>Handlers_Auth\<close> (registration, keys, handshake: requests 825,
    826, 827, 829, 830), \<open>Handlers_Upload\<close> (828, 900, 901, 902), \<open>Router\<close> (\<open>router.py\<close>).
    Each gives a locale (\<open>quiet_rel\<close>, \<open>key_rel\<close>, \<open>auth_rel\<close>, \<open>upload_rel\<close>, \<open>dispatch_rel\<close>,
    \<open>serving_rel\<close>) of the relations its operations respect; an invariant of the server is
    an interpretation of it and holds for every frame, whatever it contains and whatever
    fails.
  \<^item> \<open>Response_Safety\<close>, \<open>Slot_Accounting\<close>, \<open>Key_Binding\<close>, \<open>Handshake\<close>, \<open>Upload_Bounds\<close>: those
    interpretations: what is sent, who holds upload slots, which keys clients have, the
    handshake as a machine of three phases (\<open>hs_step\<close>) that serving a frame refines, and how
    much an upload can make the server accept and write.
  \<^item> \<open>Upload_Stream\<close>, \<open>Upload_Paths\<close>, \<open>Upload_Session\<close>, \<open>Enrolment\<close>: streaming decryption equals
    decrypting at once; where uploads are written; a whole upload, from the packets of the
    client (\<open>Load_Client\<close>, the encoders and decoders of \<open>tools/load_test.py\<close>) to the file,
    the completed row and the slot given back; and a client's first connection, from hello
    over registration and key exchange to such an upload, or a later one with a new key.
  \<^item> \<open>Server_Loop\<close>, \<open>Connection\<close> (\<open>handle_client\<close> of \<open>server_async.py\<close>): admission, the loop over
    reads, timeouts, rate limit, exception clauses, cleanup; the locale \<open>loop_rel\<close> lifts the
    invariants to connections; what a connection takes it gives back; silent and late peers
    are dropped. \<open>Server\<close> (\<open>main\<close>): its start, and all connections side by side as the
    step relation \<open>server_step\<close>, with the invariants of its reachable states; \<open>Server_Space\<close>
    adds the bound on the space all uploads together can take, \<open>Server_Types\<close> that ids, names,
    keys and nonces keep their shapes. \<open>Logging\<close> (\<open>logging_setup.py\<close>): levels, messages with
    their arguments, handlers, formats, the lines a session writes and the errors reported instead.
    \<open>Lifecycle\<close>: \<open>main\<close> as a whole, start, wait and shutdown on every way out, with the connections
    running in each of its awaits.
  \<^item> The tools (\<open>server/tools\<close>). \<open>Json\<close>: the values of a report and what Python does with them,
    wrong shapes included; \<open>Script_Io\<close>: a run of a script as the sequence of its events;
    \<open>Report_Compare\<close> (\<open>compare_results.py\<close>); \<open>Report_Plots\<close> (\<open>plot_results.py\<close>): every figure as
    its calls of matplotlib, each of which may raise, with the lists the series are collected in, and that
    every point stands over the load of its own stage; \<open>Load_Report\<close> (\<open>load_test.py\<close>): summaries,
    percentiles, the stop conditions and the report, and that the other two read from it
    what was measured; \<open>Load_Workers\<close>: its five clients, each coroutine as a whole over a
    network that may do anything, also keep an \<open>await\<close> waiting for ever, and that each hands in a
    consistent result or is left waiting.
  \<^item> \<open>Wire\<close>: the bytes of a request, read in pieces of at most 1024 bytes, go through framer,
    rate limiter and router to their handler exactly once, for each request of the protocol.
    \<open>Client_Server\<close>: the upload client of \<open>Load_Workers\<close> against the loop of \<open>Server_Loop\<close> over
    one connection, with total-correctness triples (\<open>surely\<close>) for the client's steps; the file
    the client has made up ends on the server's disk. Client and server run in turn: what the
    client writes is served before its next step.

  The model. State is explicit: a \<open>world\<close> is what one connection's task can reach, a
  \<open>server\<close> what all tasks share. Every method is one definition of the same name (a handler
  longer than a screen is cut into the groups of statements it has), every raise and early
  return a branch. The outside is the record \<open>env\<close>: clocks, random bytes, uuids, the outcome
  of every drain, SQL statement and file operation as sequences read one after the other,
  and the functions of PyCryptodome as parameters. What the code relies on of the latter is
  stated where it is used, and only there (\<open>cbc_streams\<close>, \<open>unpad_last_block\<close>; importing an
  exported key gives it back). The theorems hold for every \<open>env\<close> otherwise. Floating-point
  times are reals; Python integers are \<open>int\<close>; the CRC and the bytes are words.

  Atomicity. The tasks of \<open>asyncio\<close> switch only at \<open>await\<close>. A step of \<open>server_step\<close> is one
  iteration of one connection's loop: the awaits inside it are the locks of limiters and
  metrics, free at that point, and \<open>drain\<close>, at which another task may run. The model does
  not interleave there: it takes an iteration as one step. Cancellation is modelled at the
  read, where a task waits; exceptions are \<open>Exception\<close>s. In \<open>Lifecycle\<close> and \<open>Load_Workers\<close> an \<open>await\<close>
  may also never come back: the outcome \<open>Suspended\<close>, which no \<open>except\<close> clause sees.

  Termination and fuel. Loops of the code are structural recursion, or recursion with a
  measure (\<open>feed_loop\<close>, \<open>chunks_from\<close>, \<open>split_words\<close>); no fuel is used. The endless loop of a
  connection is a recursion over the reads that have happened, so that a result \<open>Go\<close> means
  that it waits for the next one; that it ends is proved under the stated hypotheses on the
  clock.

  Not modelled: the C++ client and server (other languages); of \<open>tools/load_test.py\<close> the
  printed tables, the process monitor (\<open>psutil\<close>), the removal of old uploads and the driver
  that runs many clients at once; the parsers of \<open>argparse\<close>, whose results are arguments; the
  log calls of sessions and handlers (they have no effect on the protocol; what a call writes
  is in \<open>Logging\<close>); \<open>server_tirgul.py\<close> (a prototype that calls methods that no longer exist);
  sockets and signals.
\<close>

end
